(* ===== verification/Prelude.thy ===== *)
theory Prelude
  imports Main "HOL-Library.Word" "HOL-Library.AList"
begin

text \<open>
  The vocabulary every component shares: the widths of Go's integers, wall-clock time in
  nanoseconds, errors as values, results of code that may panic, and the few functions of the Go
  standard library the sources call (\<open>strings\<close>, \<open>strconv\<close>, \<open>math/big\<close>
  rendering), each as an executable function.
\<close>

section \<open>Machine integers and time\<close>

type_synonym uint64 = "64 word"
type_synonym byte = "8 word"
type_synonym bytes = "byte list"
type_synonym Address = "160 word"
type_synonym Hash = "256 word"

text \<open>
  Instants (\<open>time.Time\<close>, monotonic) and \<open>time.Duration\<close> are nanoseconds. A duration is an
  \<open>int64\<close> in Go, so products that build one wrap; \<open>go_int64\<close> is that wrap.
\<close>

type_synonym time = int
type_synonym duration = int

definition go_int64 :: "int \<Rightarrow> int" where
  "go_int64 x = (x + 2 ^ 63) mod 2 ^ 64 - 2 ^ 63"

definition millisecond :: duration where "millisecond = 1000000"

definition second :: duration where "second = 1000000000"

definition minute :: duration where "minute = 60000000000"

named_theorems durations \<open>the constants of package time\<close>

declare millisecond_def [durations] second_def [durations] minute_def [durations]

text \<open>\<open>Duration.Milliseconds\<close>: integer division of Go, which truncates towards zero.\<close>

definition Milliseconds :: "duration \<Rightarrow> int" where
  "Milliseconds d = (if 0 \<le> d then d div millisecond else - ((- d) div millisecond))"

lemma go_int64_id: "- (2 ^ 63) \<le> x \<Longrightarrow> x < 2 ^ 63 \<Longrightarrow> go_int64 x = x"
  by (simp add: go_int64_def)

lemma go_int64_range: "- (2 ^ 63) \<le> go_int64 x \<and> go_int64 x < 2 ^ 63"
  by (simp add: go_int64_def)

text \<open>Conversion \<open>int64(v)\<close> of a \<open>uint64\<close>: the same 64 bits read as two's complement.\<close>

definition int64_of_uint64 :: "uint64 \<Rightarrow> int" where
  "int64_of_uint64 w = go_int64 (uint w)"

lemma uint64_lt: "uint (w :: uint64) < 2 ^ 64"
  using uint_lt2p [of w] by simp

lemma int64_of_uint64_small: "uint w < 2 ^ 63 \<Longrightarrow> int64_of_uint64 w = uint w"
  by (simp add: int64_of_uint64_def go_int64_def)

lemma int64_of_uint64_big: "2 ^ 63 \<le> uint w \<Longrightarrow> int64_of_uint64 w = uint w - 2 ^ 64"
proof -
  assume big: "2 ^ 63 \<le> uint w"
  have "(uint w + 2 ^ 63) mod 2 ^ 64 = (uint w + 2 ^ 63 - 2 ^ 64) mod (2 ^ 64 :: int)"
    by (rule minus_mod_self2 [symmetric])
  also have "\<dots> = uint w + 2 ^ 63 - 2 ^ 64"
    using big uint64_lt [of w] by (intro mod_pos_pos_trivial) simp_all
  finally show ?thesis by (simp add: int64_of_uint64_def go_int64_def)
qed

lemma uint64_succ_greater: "w \<noteq> - 1 \<Longrightarrow> w < w + (1 :: uint64)"
  by (metis inc_less_eq_self_iff_eq less_le_not_le linorder_le_cases)

section \<open>Errors and panics as values\<close>

text \<open>
  What the service reads of an \<open>error\<close>: its text and, when its dynamic type has an
  \<open>ErrorCode\<close> method, the number that goes into a JSON-RPC answer.
\<close>

record go_error =
  err_text :: string
  err_code :: "int option"

text \<open>\<open>errors.New(msg, code)\<close> of package \<open>errors\<close>.\<close>

definition errors_New :: "string \<Rightarrow> int \<Rightarrow> go_error" where
  "errors_New msg code = \<lparr>err_text = msg, err_code = Some code\<rparr>"

text \<open>A Go function that can panic either returns a value or panics with a reason.\<close>

datatype 'a go_result = Returns 'a | Panics string

text \<open>
  The values a log line or a rejection carries by name. The Go maps are built from literals and only
  ever rendered or copied, so they are association lists here.
\<close>

datatype detail = DNull | DUint uint64 | DInt int | DText string | DBool bool

type_synonym fields = "(string \<times> detail) list"

section \<open>Strings\<close>

text \<open>
  A Go string is its bytes. The case and space functions act on the ASCII range, which is what
  addresses, configuration keys and HTTP tokens are made of.
\<close>

definition to_lower_char :: "char \<Rightarrow> char" where
  "to_lower_char c =
     (if 65 \<le> (of_char c :: nat) \<and> (of_char c :: nat) \<le> 90 then char_of ((of_char c :: nat) + 32) else c)"

definition to_upper_char :: "char \<Rightarrow> char" where
  "to_upper_char c =
     (if 97 \<le> (of_char c :: nat) \<and> (of_char c :: nat) \<le> 122 then char_of ((of_char c :: nat) - 32) else c)"

definition ToLower :: "string \<Rightarrow> string" where
  "ToLower s = map to_lower_char s"

definition ToUpper :: "string \<Rightarrow> string" where
  "ToUpper s = map to_upper_char s"

lemma to_lower_char_idem [simp]: "to_lower_char (to_lower_char c) = to_lower_char c"
proof (cases "65 \<le> (of_char c :: nat) \<and> (of_char c :: nat) \<le> 90")
  case True
  then have "(of_char (char_of ((of_char c :: nat) + 32) :: char) :: nat) = of_char c + 32"
    by simp
  with True show ?thesis by (simp add: to_lower_char_def)
next
  case False
  then show ?thesis by (auto simp: to_lower_char_def)
qed

lemma ToLower_idem [simp]: "ToLower (ToLower s) = ToLower s"
  by (simp add: ToLower_def)

definition is_space :: "char \<Rightarrow> bool" where
  "is_space c = ((of_char c :: nat) \<in> {9, 10, 11, 12, 13, 32})"

definition TrimSpace :: "string \<Rightarrow> string" where
  "TrimSpace s = rev (dropWhile is_space (rev (dropWhile is_space s)))"

definition HasPrefix :: "string \<Rightarrow> string \<Rightarrow> bool" where
  "HasPrefix s p = (take (length p) s = p)"

definition HasSuffix :: "string \<Rightarrow> string \<Rightarrow> bool" where
  "HasSuffix s p = (length p \<le> length s \<and> drop (length s - length p) s = p)"

definition TrimPrefix :: "string \<Rightarrow> string \<Rightarrow> string" where
  "TrimPrefix s p = (if HasPrefix s p then drop (length p) s else s)"

lemma TrimPrefix_append [simp]: "TrimPrefix (p @ s) p = s"
  by (simp add: TrimPrefix_def HasPrefix_def)

fun Join :: "string \<Rightarrow> string list \<Rightarrow> string" where
  "Join sep [] = []"
| "Join sep [x] = x"
| "Join sep (x # y # ys) = x @ sep @ Join sep (y # ys)"

lemma set_Join: "set (Join sep xs) \<subseteq> set sep \<union> \<Union> (set ` set xs)"
  by (induction sep xs rule: Join.induct) auto

text \<open>\<open>strings.Split\<close> on one character: one piece more than separators.\<close>

fun Split :: "char \<Rightarrow> string \<Rightarrow> string list" where
  "Split sep [] = [[]]"
| "Split sep (c # cs) =
     (if c = sep then [] # Split sep cs
      else case Split sep cs of [] \<Rightarrow> [[c]] | p # ps \<Rightarrow> (c # p) # ps)"

lemma Split_not_Nil [simp]: "Split sep s \<noteq> []"
  by (induction sep s rule: Split.induct) (auto split: list.split)

lemma Split_pieces: "p \<in> set (Split sep s) \<Longrightarrow> sep \<notin> set p"
  by (induction sep s arbitrary: p rule: Split.induct) (auto split: if_splits list.splits)

lemma TrimSpace_subset: "set (TrimSpace s) \<subseteq> set s"
proof
  fix c
  assume "c \<in> set (TrimSpace s)"
  then have "c \<in> set (rev (dropWhile is_space s))" by (auto simp: TrimSpace_def dest: set_dropWhileD)
  then show "c \<in> set s" by (auto dest: set_dropWhileD)
qed

section \<open>Numbers as text\<close>

text \<open>Decimal and hexadecimal rendering, as \<open>big.Int.String\<close>, \<open>strconv\<close> and \<open>hex\<close> do it.\<close>

definition digit_char :: "nat \<Rightarrow> char" where
  "digit_char d = ''0123456789abcdef'' ! (d mod 16)"

fun digits_in :: "nat \<Rightarrow> nat \<Rightarrow> string" where
  "digits_in base n =
     (if n < base \<or> base < 2 then [digit_char n] else digits_in base (n div base) @ [digit_char (n mod base)])"

declare digits_in.simps [simp del]

definition decimal_nat :: "nat \<Rightarrow> string" where
  "decimal_nat n = digits_in 10 n"

definition hex_nat :: "nat \<Rightarrow> string" where
  "hex_nat n = digits_in 16 n"

definition hex_byte :: "byte \<Rightarrow> string" where
  "hex_byte b = [digit_char (unat b div 16), digit_char (unat b mod 16)]"

definition hex_EncodeToString :: "bytes \<Rightarrow> string" where
  "hex_EncodeToString bs = concat (map hex_byte bs)"

lemma length_hex_EncodeToString [simp]: "length (hex_EncodeToString bs) = 2 * length bs"
  by (induction bs) (simp_all add: hex_EncodeToString_def hex_byte_def)

text \<open>\<open>big.Int.SetBytes\<close>: a big-endian unsigned number.\<close>

definition big_of_bytes :: "bytes \<Rightarrow> nat" where
  "big_of_bytes bs = foldl (\<lambda>acc b. acc * 256 + unat b) 0 bs"

lemma unat_byte_lt: "unat (b :: byte) < 256"
  by (rule order_less_le_trans [OF unsigned_less]) simp

lemma foldl_big_bound:
  "foldl (\<lambda>acc b. acc * 256 + unat (b :: byte)) a bs < (a + 1) * 256 ^ length bs"
proof (induction bs arbitrary: a)
  case Nil
  then show ?case by simp
next
  case (Cons b bs)
  have "unat b < 256" by (rule unat_byte_lt)
  then have "(a * 256 + unat b + 1) * 256 ^ length bs \<le> ((a + 1) * 256) * 256 ^ length bs"
    by (intro mult_right_mono) simp_all
  then have "(a * 256 + unat b + 1) * 256 ^ length bs \<le> (a + 1) * 256 ^ length (b # bs)"
    by (simp only: length_Cons power_Suc mult.assoc)
  with Cons.IH [of "a * 256 + unat b"] show ?case
    by (simp only: foldl_Cons)
qed

lemma big_of_bytes_bound: "big_of_bytes bs < 256 ^ length bs"
  using foldl_big_bound [of 0 bs] by (simp add: big_of_bytes_def)

text \<open>The other direction: the \<open>k\<close> low bytes of a number, most significant first.\<close>

fun be_bytes :: "nat \<Rightarrow> nat \<Rightarrow> bytes" where
  "be_bytes 0 n = []"
| "be_bytes (Suc k) n = be_bytes k (n div 256) @ [word_of_nat (n mod 256)]"

lemma length_be_bytes [simp]: "length (be_bytes k n) = k"
  by (induction k n rule: be_bytes.induct) simp_all

lemma big_of_bytes_snoc: "big_of_bytes (bs @ [b]) = big_of_bytes bs * 256 + unat b"
  by (simp add: big_of_bytes_def)

lemma big_of_be_bytes: "big_of_bytes (be_bytes k n) = n mod 256 ^ k"
proof (induction k n rule: be_bytes.induct)
  case (1 n)
  then show ?case by (simp add: big_of_bytes_def)
next
  case (2 k n)
  have "n mod 256 ^ Suc k = n div 256 mod 256 ^ k * 256 + n mod 256"
    using mod_mult2_eq [of n 256 "256 ^ k"] by (simp add: mult.commute)
  moreover have "unat (word_of_nat (n mod 256) :: byte) = n mod 256"
    by (simp add: unat_of_nat)
  ultimately show ?case by (simp add: 2 big_of_bytes_snoc)
qed

section \<open>Lists\<close>

lemma Suc_length_remove1: "x \<in> set xs \<Longrightarrow> Suc (length (remove1 x xs)) = length xs"
  by (induction xs) auto

text \<open>The last \<open>n\<close> elements of a list.\<close>

definition lastn :: "nat \<Rightarrow> 'a list \<Rightarrow> 'a list" where
  "lastn n xs = drop (length xs - n) xs"

lemma lastn_rev: "lastn n xs = rev (take n (rev xs))"
  by (simp add: lastn_def take_rev)

lemma length_lastn [simp]: "length (lastn n xs) = min n (length xs)"
  by (simp add: lastn_def)

lemma lastn_all: "length xs \<le> n \<Longrightarrow> lastn n xs = xs"
  by (simp add: lastn_def)

lemma lastn_lastn_append: "lastn n (lastn n xs @ ys) = lastn n (xs @ ys)"
  by (simp add: lastn_rev)

lemma map_lastn: "map f (lastn n xs) = lastn n (map f xs)"
  by (simp add: lastn_def drop_map)

lemma not_Some_pair: "(\<forall>a b. x \<noteq> Some (a, b)) \<longleftrightarrow> x = None"
  by (cases x) auto

end
