(* ===== verification/Hex.thy ===== *)
theory Hex
  imports Prelude
begin

text \<open>
  Reading numbers back from text: \<open>encoding/hex\<close> with its partial results, which the sources use where
  they ignore the error, and decimal numbers. Writing them is in the prelude.
\<close>

section \<open>Hexadecimal text\<close>

text \<open>\<open>hex.DecodeString\<close> of the standard library: what was decoded before the error, and the error.\<close>

datatype hex_error = InvalidByte char | OddLength

definition from_hex_char :: "char \<Rightarrow> nat option" where
  "from_hex_char c =
     (let n = of_char c :: nat
      in if 48 \<le> n \<and> n \<le> 57 then Some (n - 48)
         else if 97 \<le> n \<and> n \<le> 102 then Some (n - 87)
         else if 65 \<le> n \<and> n \<le> 70 then Some (n - 55)
         else None)"

fun hex_DecodeString :: "string \<Rightarrow> bytes \<times> hex_error option" where
  "hex_DecodeString [] = ([], None)"
| "hex_DecodeString [c] = ([], Some (if from_hex_char c = None then InvalidByte c else OddLength))"
| "hex_DecodeString (a # b # rest) =
     (case from_hex_char a of
        None \<Rightarrow> ([], Some (InvalidByte a))
      | Some x \<Rightarrow>
          (case from_hex_char b of
             None \<Rightarrow> ([], Some (InvalidByte b))
           | Some y \<Rightarrow>
               (case hex_DecodeString rest of (bs, e) \<Rightarrow> (word_of_nat (16 * x + y) # bs, e))))"

lemma digit_values:
  "map from_hex_char ''0123456789abcdef'' = map Some [0..<16]"
  by code_simp

lemma from_hex_digit: "from_hex_char (digit_char d) = Some (d mod 16)"
proof -
  have "from_hex_char (''0123456789abcdef'' ! n) = Some n" if "n < 16" for n
    using that arg_cong [OF digit_values, of "\<lambda>xs. xs ! n"] by (simp only: nth_map list.size) simp
  from this [of "d mod 16"] show ?thesis by (simp add: digit_char_def)
qed

text \<open>Decoding what was encoded gives the bytes back.\<close>

lemma hex_Decode_Encode: "hex_DecodeString (hex_EncodeToString bs) = (bs, None)"
proof (induction bs)
  case Nil
  then show ?case by (simp add: hex_EncodeToString_def)
next
  case (Cons b bs)
  have "16 * (unat b div 16 mod 16) + unat b mod 16 = unat b"
    using unat_byte_lt [of b] by (simp add: mult.commute)
  with Cons show ?case by (simp add: hex_EncodeToString_def hex_byte_def from_hex_digit)
qed

section \<open>Decimal text\<close>

definition is_digit :: "char \<Rightarrow> bool" where
  "is_digit c = (48 \<le> (of_char c :: nat) \<and> (of_char c :: nat) \<le> 57)"

definition decimal_value :: "string \<Rightarrow> nat" where
  "decimal_value s = foldl (\<lambda>n c. n * 10 + ((of_char c :: nat) - 48)) 0 s"

lemma decimal_value_snoc: "decimal_value (s @ [c]) = decimal_value s * 10 + ((of_char c :: nat) - 48)"
  by (simp add: decimal_value_def)

lemma digit_char_decimal: "d < 10 \<Longrightarrow> is_digit (digit_char d) \<and> (of_char (digit_char d) :: nat) = 48 + d"
proof -
  assume "d < 10"
  then have "d \<in> set [0..<10]" by simp
  moreover have "list_all (\<lambda>d. is_digit (digit_char d) \<and> (of_char (digit_char d) :: nat) = 48 + d) [0..<10]" by code_simp
  ultimately show ?thesis unfolding list_all_iff by blast
qed

lemma decimal_digits:
  "list_all is_digit (decimal_nat n) \<and> decimal_value (decimal_nat n) = n \<and> decimal_nat n \<noteq> []"
proof (induction n rule: less_induct)
  case (less n)
  show ?case
  proof (cases "n < 10")
    case True
    then show ?thesis using digit_char_decimal [OF True] by (simp add: decimal_nat_def digits_in.simps decimal_value_def)
  next
    case False
    then have "decimal_nat n = decimal_nat (n div 10) @ [digit_char (n mod 10)]"
      by (simp add: decimal_nat_def digits_in.simps [of 10 n])
    with less.IH [of "n div 10"] False digit_char_decimal [of "n mod 10"] show ?thesis by (simp add: decimal_value_snoc)
  qed
qed

text \<open>\<open>strconv.ParseUint(s, 10, 64)\<close>.\<close>

definition ParseUint :: "string \<Rightarrow> uint64 option" where
  "ParseUint s =
     (if s \<noteq> [] \<and> list_all is_digit s \<and> decimal_value s < 2 ^ 64 then Some (word_of_nat (decimal_value s)) else None)"

lemma ParseUint_decimal: "ParseUint (decimal_nat (unat n)) = Some n"
proof -
  have "unat n < 2 ^ 64" by (rule order_less_le_trans [OF unsigned_less]) simp
  with decimal_digits [of "unat n"] show ?thesis by (simp add: ParseUint_def)
qed

end
