(* ===== verification/Config.thy ===== *)
theory Config
  imports Prelude
begin

text \<open>
  Package \<open>model\<close>: the configuration records (\<open>model/Config.go\<close>) and the key-by-key reader of
  the runtime blocks (\<open>model/RuntimeConfig.go\<close>). A value that cannot be used is replaced by the
  default of its key and reported in the list of discarded keys; the locale
  \<open>key_reader\<close> is the promise every reader of one key keeps, and the theorems on the blocks say
  that whatever the file holds, what comes out is within its range and every key that could not be
  used is reported.

  \<open>viper\<close> and \<open>common.IsHexAddress\<close> are not part of the repository: the reader takes them as
  arguments.
\<close>

section \<open>The configuration records\<close>

record ApplicationConfig =
  NodeURL :: string
  WSURL :: string
  ContractAddress :: string
  RelayHubContractAddress :: "Address option"
  NodeKeyPath :: string
  NodeAddressPath :: string
  Key :: string
  Port :: string
  NonceCacheTTL :: int

record KeyStoreConfig =
  KeyStore_Agent :: string

record PassphraseConfig =
  Passphrase_Agent :: string

record SecurityConfig =
  PermissionsEnabled :: bool
  AccountContractAddress :: string

record ReorderConfig =
  Reorder_Enabled :: bool
  WindowMs :: int
  MaxInflightPerUser :: int
  ReceiptTimeoutMs :: int
  AutoNonce :: bool
  AutoNonceTicketMs :: int

record DashboardConfig =
  Dashboard_Enabled :: bool
  BufferSize :: int

record LogConfig =
  Level :: string
  RawTx :: bool

record CorsConfig =
  AllowedOrigins :: "string list"

record ValidationConfig =
  EnforceNodeAddress :: bool
  EnforceExpiration :: bool
  MinExpirationSeconds :: int
  ExpirationToleranceSeconds :: int

record PermissioningConfig =
  AccountIngressAddress :: string
  AccountRulesCacheMs :: int

record Config =
  Application :: ApplicationConfig
  KeyStore :: KeyStoreConfig
  Passphrase :: PassphraseConfig
  Security :: SecurityConfig
  Reorder :: ReorderConfig
  Dashboard :: DashboardConfig
  Log :: LogConfig
  CORS :: CorsConfig
  Validation :: ValidationConfig
  Permissioning :: PermissioningConfig

section \<open>Defaults\<close>

definition DefaultReorderWindowMs :: int where "DefaultReorderWindowMs = 3000"
definition DefaultReorderMaxInflightPerUser :: int where "DefaultReorderMaxInflightPerUser = 5"
definition DefaultReorderReceiptTimeoutMs :: int where "DefaultReorderReceiptTimeoutMs = 60000"
definition DefaultReorderAutoNonceTicketMs :: int where "DefaultReorderAutoNonceTicketMs = 2000"
definition DefaultDashboardBufferSize :: int where "DefaultDashboardBufferSize = 500"
definition DefaultLogLevel :: string where "DefaultLogLevel = ''info''"
definition DefaultMinExpirationSeconds :: int where "DefaultMinExpirationSeconds = 300"
definition DefaultExpirationToleranceSeconds :: int where "DefaultExpirationToleranceSeconds = 2"
definition DefaultAccountRulesCacheMs :: int where "DefaultAccountRulesCacheMs = 30000"

named_theorems config_defaults \<open>the constants and default blocks of package model\<close>

declare DefaultReorderWindowMs_def [config_defaults] DefaultReorderMaxInflightPerUser_def [config_defaults]
  DefaultReorderReceiptTimeoutMs_def [config_defaults] DefaultReorderAutoNonceTicketMs_def [config_defaults]
  DefaultDashboardBufferSize_def [config_defaults] DefaultLogLevel_def [config_defaults]
  DefaultMinExpirationSeconds_def [config_defaults] DefaultExpirationToleranceSeconds_def [config_defaults]
  DefaultAccountRulesCacheMs_def [config_defaults]

definition logLevels :: "string list" where
  "logLevels = [''debug'', ''info'', ''warn'', ''error'']"

definition DefaultReorderConfig :: ReorderConfig where
  "DefaultReorderConfig =
     \<lparr>Reorder_Enabled = False, WindowMs = DefaultReorderWindowMs,
      MaxInflightPerUser = DefaultReorderMaxInflightPerUser,
      ReceiptTimeoutMs = DefaultReorderReceiptTimeoutMs, AutoNonce = False,
      AutoNonceTicketMs = DefaultReorderAutoNonceTicketMs\<rparr>"

definition DefaultDashboardConfig :: DashboardConfig where
  "DefaultDashboardConfig = \<lparr>Dashboard_Enabled = False, BufferSize = DefaultDashboardBufferSize\<rparr>"

definition DefaultLogConfig :: LogConfig where
  "DefaultLogConfig = \<lparr>Level = DefaultLogLevel, RawTx = False\<rparr>"

definition DefaultCorsConfig :: CorsConfig where
  "DefaultCorsConfig = \<lparr>AllowedOrigins = []\<rparr>"

definition DefaultValidationConfig :: ValidationConfig where
  "DefaultValidationConfig =
     \<lparr>EnforceNodeAddress = False, EnforceExpiration = False,
      MinExpirationSeconds = DefaultMinExpirationSeconds,
      ExpirationToleranceSeconds = DefaultExpirationToleranceSeconds\<rparr>"

definition DefaultPermissioningConfig :: PermissioningConfig where
  "DefaultPermissioningConfig =
     \<lparr>AccountIngressAddress = [], AccountRulesCacheMs = DefaultAccountRulesCacheMs\<rparr>"

declare DefaultReorderConfig_def [config_defaults] DefaultDashboardConfig_def [config_defaults]
  DefaultLogConfig_def [config_defaults] DefaultCorsConfig_def [config_defaults]
  DefaultValidationConfig_def [config_defaults] DefaultPermissioningConfig_def [config_defaults]

section \<open>Raw values\<close>

text \<open>
  The dynamic values a configuration file can hold. A finite \<open>float64\<close> is a dyadic rational
  \<open>m / 2 ^ k\<close>; converting one outside the range of \<open>int\<close> is implementation-specific in Go, so
  the conversion is an argument.
\<close>

datatype float64 = Dyadic int nat | Infinite bool | NaN

datatype raw =
    RInt int
  | RInt32 int
  | RInt64 int
  | RFloat float64
  | RString string
  | RBool bool
  | RList "raw list"
  | ROther

record viper =
  IsSet :: "string \<Rightarrow> bool"
  Get :: "string \<Rightarrow> raw"

record DiscardedKey =
  discarded_Key :: string
  discarded_Value :: raw
  discarded_Reason :: string

section \<open>strconv\<close>

definition is_digit :: "char \<Rightarrow> bool" where
  "is_digit c = (48 \<le> (of_char c :: nat) \<and> (of_char c :: nat) \<le> 57)"

definition digits_value :: "string \<Rightarrow> int" where
  "digits_value s = foldl (\<lambda>acc c. acc * 10 + (of_char c - 48)) 0 s"

text \<open>\<open>strconv.Atoi\<close>: an optional sign, then at least one decimal digit, within \<open>int64\<close>.\<close>

definition Atoi_body :: "string \<Rightarrow> (int \<Rightarrow> int) \<Rightarrow> int option" where
  "Atoi_body s sign =
     (if s \<noteq> [] \<and> list_all is_digit s then
        (let v = sign (digits_value s) in if - (2 ^ 63) \<le> v \<and> v < 2 ^ 63 then Some v else None)
      else None)"

fun Atoi :: "string \<Rightarrow> int option" where
  "Atoi [] = None"
| "Atoi (c # cs) =
     (if c = CHR ''-'' then Atoi_body cs uminus
      else if c = CHR ''+'' then Atoi_body cs id
      else Atoi_body (c # cs) id)"

definition ParseBool :: "string \<Rightarrow> bool option" where
  "ParseBool s =
     (if s \<in> set [''1'', ''t'', ''T'', ''TRUE'', ''true'', ''True''] then Some True
      else if s \<in> set [''0'', ''f'', ''F'', ''FALSE'', ''false'', ''False''] then Some False
      else None)"

section \<open>Reading one key\<close>

definition float_is_whole :: "float64 \<Rightarrow> bool" where
  "float_is_whole f = (case f of Dyadic m k \<Rightarrow> m mod 2 ^ k = 0 | Infinite _ \<Rightarrow> True | NaN \<Rightarrow> False)"

definition float_to_int :: "(float64 \<Rightarrow> int) \<Rightarrow> float64 \<Rightarrow> int" where
  "float_to_int oor f =
     (case f of
        Dyadic m k \<Rightarrow> (let v = m div 2 ^ k in if - (2 ^ 63) \<le> v \<and> v < 2 ^ 63 then v else oor f)
      | _ \<Rightarrow> oor f)"

definition toInt :: "(float64 \<Rightarrow> int) \<Rightarrow> raw \<Rightarrow> int option" where
  "toInt oor r =
     (case r of
        RInt v \<Rightarrow> Some v
      | RInt32 v \<Rightarrow> Some v
      | RInt64 v \<Rightarrow> Some v
      | RFloat f \<Rightarrow> if \<not> float_is_whole f then None else Some (float_to_int oor f)
      | RString s \<Rightarrow> Atoi (TrimSpace s)
      | _ \<Rightarrow> None)"

definition toBool :: "raw \<Rightarrow> bool option" where
  "toBool r =
     (case r of
        RBool b \<Rightarrow> Some b
      | RString s \<Rightarrow> ParseBool (TrimSpace s)
      | _ \<Rightarrow> None)"

definition discard :: "string \<Rightarrow> raw \<Rightarrow> string \<Rightarrow> DiscardedKey" where
  "discard key raw reason =
     \<lparr>discarded_Key = key, discarded_Value = raw, discarded_Reason = reason\<rparr>"

definition readBool :: "viper \<Rightarrow> string \<Rightarrow> bool \<Rightarrow> DiscardedKey list \<Rightarrow> bool \<times> DiscardedKey list" where
  "readBool v key dflt ds =
     (if \<not> IsSet v key then (dflt, ds)
      else case toBool (Get v key) of
             None \<Rightarrow> (dflt, ds @ [discard key (Get v key) ''no es un booleano''])
           | Some b \<Rightarrow> (b, ds))"

definition readInt ::
    "(float64 \<Rightarrow> int) \<Rightarrow> viper \<Rightarrow> string \<Rightarrow> int \<Rightarrow> nat \<Rightarrow> DiscardedKey list \<Rightarrow> int \<times> DiscardedKey list" where
  "readInt oor v key dflt mn ds =
     (if \<not> IsSet v key then (dflt, ds)
      else case toInt oor (Get v key) of
             None \<Rightarrow> (dflt, ds @ [discard key (Get v key) ''no es un numero entero''])
           | Some n \<Rightarrow>
               if n < int mn
               then (dflt, ds @ [discard key (Get v key) (''fuera de rango (minimo '' @ decimal_nat mn @ '')'')])
               else (n, ds))"

definition join_levels :: string where
  "join_levels = ''debug, info, warn, error''"

definition readLevel :: "viper \<Rightarrow> string \<Rightarrow> string \<Rightarrow> DiscardedKey list \<Rightarrow> string \<times> DiscardedKey list" where
  "readLevel v key dflt ds =
     (if \<not> IsSet v key then (dflt, ds)
      else let bad = (dflt, ds @ [discard key (Get v key)
                       (''nivel no reconocido (debe ser '' @ join_levels @ '')'')])
           in case Get v key of
                RString text \<Rightarrow>
                  (let level = ToLower (TrimSpace text)
                   in if level \<in> set logLevels then (level, ds) else bad)
              | _ \<Rightarrow> bad)"

fun collect_origins :: "raw list \<Rightarrow> string list option" where
  "collect_origins [] = Some []"
| "collect_origins (r # rs) =
     (case r of
        RString s \<Rightarrow>
          (if TrimSpace s = [] then None
           else map_option (\<lambda>os. TrimSpace s # os) (collect_origins rs))
      | _ \<Rightarrow> None)"

definition readOrigins :: "viper \<Rightarrow> string \<Rightarrow> DiscardedKey list \<Rightarrow> string list \<times> DiscardedKey list" where
  "readOrigins v key ds =
     (if \<not> IsSet v key then ([], ds)
      else case Get v key of
             RList values \<Rightarrow>
               (case collect_origins values of
                  None \<Rightarrow> ([], ds @ [discard key (Get v key) ''contiene un origen que no es texto''])
                | Some origins \<Rightarrow> (origins, ds))
           | _ \<Rightarrow> ([], ds @ [discard key (Get v key) ''no es una lista'']))"

definition readAddress ::
    "(string \<Rightarrow> bool) \<Rightarrow> viper \<Rightarrow> string \<Rightarrow> DiscardedKey list \<Rightarrow> string \<times> DiscardedKey list" where
  "readAddress isHexAddress v key ds =
     (if \<not> IsSet v key then ([], ds)
      else case Get v key of
             RString text \<Rightarrow>
               (let value = TrimSpace text
                in if value = [] then ([], ds)
                   else if \<not> isHexAddress value
                   then ([], ds @ [discard key (Get v key) ''no es una direccion''])
                   else (value, ds))
           | _ \<Rightarrow> ([], ds @ [discard key (Get v key) ''no es texto'']))"

section \<open>Reading the blocks\<close>

definition LoadRuntimeBlocks ::
    "(float64 \<Rightarrow> int) \<Rightarrow> viper \<Rightarrow>
       ReorderConfig \<times> DashboardConfig \<times> LogConfig \<times> CorsConfig \<times> DiscardedKey list" where
  "LoadRuntimeBlocks oor v =
     (let reorder = DefaultReorderConfig;
          (enabled, ds) = readBool v ''reorder.enabled'' (Reorder_Enabled reorder) [];
          (window, ds) = readInt oor v ''reorder.windowMs'' (WindowMs reorder) 0 ds;
          (maxInflight, ds) = readInt oor v ''reorder.maxInflightPerUser'' (MaxInflightPerUser reorder) 1 ds;
          (timeout, ds) = readInt oor v ''reorder.receiptTimeoutMs'' (ReceiptTimeoutMs reorder) 0 ds;
          (auto, ds) = readBool v ''reorder.autoNonce'' (AutoNonce reorder) ds;
          (ticket, ds) = readInt oor v ''reorder.autoNonceTicketMs'' (AutoNonceTicketMs reorder) 0 ds;
          dashboard = DefaultDashboardConfig;
          (dEnabled, ds) = readBool v ''dashboard.enabled'' (Dashboard_Enabled dashboard) ds;
          (bufferSize, ds) = readInt oor v ''dashboard.bufferSize'' (BufferSize dashboard) 0 ds;
          logCfg = DefaultLogConfig;
          (level, ds) = readLevel v ''log.level'' (Level logCfg) ds;
          (rawTx, ds) = readBool v ''log.rawTx'' (RawTx logCfg) ds;
          cors = DefaultCorsConfig;
          (origins, ds) = readOrigins v ''cors.allowedOrigins'' ds
      in (reorder\<lparr>Reorder_Enabled := enabled, WindowMs := window, MaxInflightPerUser := maxInflight,
                 ReceiptTimeoutMs := timeout, AutoNonce := auto, AutoNonceTicketMs := ticket\<rparr>,
          dashboard\<lparr>Dashboard_Enabled := dEnabled, BufferSize := bufferSize\<rparr>,
          logCfg\<lparr>Level := level, RawTx := rawTx\<rparr>,
          cors\<lparr>AllowedOrigins := origins\<rparr>,
          ds))"

definition LoadValidationBlocks ::
    "(float64 \<Rightarrow> int) \<Rightarrow> (string \<Rightarrow> bool) \<Rightarrow> viper \<Rightarrow>
       ValidationConfig \<times> PermissioningConfig \<times> DiscardedKey list" where
  "LoadValidationBlocks oor isHexAddress v =
     (let validation = DefaultValidationConfig;
          (node, ds) = readBool v ''validation.enforceNodeAddress'' (EnforceNodeAddress validation) [];
          (expi, ds) = readBool v ''validation.enforceExpiration'' (EnforceExpiration validation) ds;
          (mn, ds) = readInt oor v ''validation.minExpirationSeconds'' (MinExpirationSeconds validation) 0 ds;
          (tol, ds) = readInt oor v ''validation.expirationToleranceSeconds''
                        (ExpirationToleranceSeconds validation) 0 ds;
          permissioning = DefaultPermissioningConfig;
          (ingress, ds) = readAddress isHexAddress v ''security.accountIngressAddress'' ds;
          (cache, ds) = readInt oor v ''security.accountRulesCacheMs'' (AccountRulesCacheMs permissioning) 0 ds
      in (validation\<lparr>EnforceNodeAddress := node, EnforceExpiration := expi,
                     MinExpirationSeconds := mn, ExpirationToleranceSeconds := tol\<rparr>,
          permissioning\<lparr>AccountIngressAddress := ingress, AccountRulesCacheMs := cache\<rparr>,
          ds))"

definition ExpirationFloor :: "ValidationConfig \<Rightarrow> int" where
  "ExpirationFloor validation =
     (let flr = MinExpirationSeconds validation - ExpirationToleranceSeconds validation
      in if flr < 0 then 0 else flr)"

section \<open>What a reader promises\<close>

text \<open>
  Every reader of one key keeps the same promises: an absent key gives the default, a usable value
  is kept, and any other value is replaced by the default and reported once, under its key and as
  it was written.
\<close>

definition report :: "viper \<Rightarrow> string \<Rightarrow> (raw \<Rightarrow> bool) \<Rightarrow> string list" where
  "report v key usable = (if IsSet v key \<and> \<not> usable (Get v key) then [key] else [])"

locale key_reader =
  fixes read :: "viper \<Rightarrow> string \<Rightarrow> DiscardedKey list \<Rightarrow> 'a \<times> DiscardedKey list"
    and usable :: "raw \<Rightarrow> 'a option"
    and dflt :: 'a
  assumes absent: "\<not> IsSet v key \<Longrightarrow> read v key ds = (dflt, ds)"
    and kept: "IsSet v key \<Longrightarrow> usable (Get v key) = Some x \<Longrightarrow> read v key ds = (x, ds)"
    and replaced: "IsSet v key \<Longrightarrow> usable (Get v key) = None \<Longrightarrow>
      \<exists>reason. read v key ds = (dflt, ds @ [discard key (Get v key) reason])"
begin

lemma value_read:
  "fst (read v key ds) =
     (if IsSet v key then case usable (Get v key) of Some x \<Rightarrow> x | None \<Rightarrow> dflt else dflt)"
  using absent [of v key ds] kept [of v key _ ds] replaced [of v key ds]
  by (cases "IsSet v key"; cases "usable (Get v key)") auto

lemma keys_reported:
  "map discarded_Key (snd (read v key ds)) =
     map discarded_Key ds @ report v key (\<lambda>r. usable r \<noteq> None)"
  using absent [of v key ds] kept [of v key _ ds] replaced [of v key ds]
  by (cases "IsSet v key"; cases "usable (Get v key)") (auto simp: discard_def report_def)

lemma values_reported:
  assumes "d \<in> set (snd (read v key ds))" and "d \<notin> set ds"
  shows "discarded_Key d = key \<and> discarded_Value d = Get v key \<and> fst (read v key ds) = dflt"
  using assms absent [of v key ds] kept [of v key _ ds] replaced [of v key ds]
  by (cases "IsSet v key"; cases "usable (Get v key)") (auto simp: discard_def)

lemma value_in_range:
  assumes "P dflt" and "\<And>r x. usable r = Some x \<Longrightarrow> P x"
  shows "P (fst (read v key ds))"
  using assms by (simp add: value_read split: option.split)

end

definition usable_int :: "(float64 \<Rightarrow> int) \<Rightarrow> nat \<Rightarrow> raw \<Rightarrow> int option" where
  "usable_int oor mn r = (case toInt oor r of Some n \<Rightarrow> if int mn \<le> n then Some n else None | None \<Rightarrow> None)"

definition usable_level :: "raw \<Rightarrow> string option" where
  "usable_level r =
     (case r of RString s \<Rightarrow> if ToLower (TrimSpace s) \<in> set logLevels then Some (ToLower (TrimSpace s)) else None
      | _ \<Rightarrow> None)"

definition usable_origins :: "raw \<Rightarrow> string list option" where
  "usable_origins r = (case r of RList rs \<Rightarrow> collect_origins rs | _ \<Rightarrow> None)"

definition usable_address :: "(string \<Rightarrow> bool) \<Rightarrow> raw \<Rightarrow> string option" where
  "usable_address isHexAddress r =
     (case r of
        RString s \<Rightarrow> if TrimSpace s = [] \<or> isHexAddress (TrimSpace s) then Some (TrimSpace s) else None
      | _ \<Rightarrow> None)"

interpretation bool_key: key_reader "\<lambda>v key. readBool v key d" toBool d for d
  by unfold_locales (auto simp: readBool_def)

interpretation int_key: key_reader "\<lambda>v key. readInt oor v key d mn" "usable_int oor mn" d for oor d mn
  by unfold_locales (auto simp: readInt_def usable_int_def split: option.splits if_splits)

interpretation level_key: key_reader "\<lambda>v key. readLevel v key d" usable_level d for d
  by unfold_locales (auto simp: readLevel_def usable_level_def Let_def split: raw.splits if_splits)

interpretation origins_key: key_reader readOrigins usable_origins "[]"
  by unfold_locales (auto simp: readOrigins_def usable_origins_def split: raw.splits option.splits)

interpretation address_key: key_reader "readAddress h" "usable_address h" "[]" for h
  by unfold_locales (auto simp: readAddress_def usable_address_def Let_def split: raw.splits if_splits)

lemma read_int_range: "int mn \<le> d \<Longrightarrow> int mn \<le> fst (readInt oor v key d mn ds)"
  by (rule int_key.value_in_range) (auto simp: usable_int_def split: option.splits if_splits)

lemma read_level_range: "d \<in> set logLevels \<Longrightarrow> fst (readLevel v key d ds) \<in> set logLevels"
  by (rule level_key.value_in_range) (auto simp: usable_level_def split: raw.splits if_splits)

lemma collect_origins_texts: "collect_origins rs = Some os \<Longrightarrow> [] \<notin> set os"
  by (induction rs arbitrary: os) (auto split: raw.splits if_splits)

lemma read_origins_range: "[] \<notin> set (fst (readOrigins v key ds))"
  by (rule origins_key.value_in_range)
     (auto simp: usable_origins_def collect_origins_texts split: raw.splits)

lemma read_address_range: "fst (readAddress h v key ds) = [] \<or> h (fst (readAddress h v key ds))"
  by (rule address_key.value_in_range [where P = "\<lambda>a. a = [] \<or> h a"])
     (auto simp: usable_address_def split: raw.splits if_splits)

section \<open>The blocks that come out\<close>

text \<open>Whatever the file holds, the runtime blocks that come out can be used as they are.\<close>

lemma runtime_blocks_in_range:
  "case LoadRuntimeBlocks oor v of (reorder, dashboard, logCfg, cors, ds) \<Rightarrow>
     0 \<le> WindowMs reorder \<and> 1 \<le> MaxInflightPerUser reorder \<and> 0 \<le> ReceiptTimeoutMs reorder \<and>
     0 \<le> AutoNonceTicketMs reorder \<and> 0 \<le> BufferSize dashboard \<and>
     Level logCfg \<in> set logLevels \<and> [] \<notin> set (AllowedOrigins cors)"
proof -
  note nonneg = read_int_range [where mn = 0, simplified]
  have "1 \<le> fst (readInt oor v key DefaultReorderMaxInflightPerUser 1 ds)" for key ds
    using read_int_range [of 1 DefaultReorderMaxInflightPerUser] by (simp add: config_defaults)
  moreover have "DefaultLogLevel \<in> set logLevels"
    by (simp add: config_defaults logLevels_def)
  ultimately show ?thesis
    by (simp add: LoadRuntimeBlocks_def config_defaults nonneg read_level_range read_origins_range
        split_beta Let_def)
qed

text \<open>The keys of the runtime blocks in the order they are read, each with the test its value has
  to pass.\<close>

definition runtime_keys :: "(float64 \<Rightarrow> int) \<Rightarrow> (string \<times> (raw \<Rightarrow> bool)) list" where
  "runtime_keys oor =
     [(''reorder.enabled'', \<lambda>r. toBool r \<noteq> None), (''reorder.windowMs'', \<lambda>r. usable_int oor 0 r \<noteq> None),
      (''reorder.maxInflightPerUser'', \<lambda>r. usable_int oor 1 r \<noteq> None),
      (''reorder.receiptTimeoutMs'', \<lambda>r. usable_int oor 0 r \<noteq> None),
      (''reorder.autoNonce'', \<lambda>r. toBool r \<noteq> None),
      (''reorder.autoNonceTicketMs'', \<lambda>r. usable_int oor 0 r \<noteq> None),
      (''dashboard.enabled'', \<lambda>r. toBool r \<noteq> None),
      (''dashboard.bufferSize'', \<lambda>r. usable_int oor 0 r \<noteq> None),
      (''log.level'', \<lambda>r. usable_level r \<noteq> None), (''log.rawTx'', \<lambda>r. toBool r \<noteq> None),
      (''cors.allowedOrigins'', \<lambda>r. usable_origins r \<noteq> None)]"

lemma report_filter:
  "map fst (filter (\<lambda>(key, usable). IsSet v key \<and> \<not> usable (Get v key)) table) =
     concat (map (\<lambda>(key, usable). report v key usable) table)"
  by (induction table) (auto simp: report_def split: if_splits)

lemma runtime_keys_reported:
  "case LoadRuntimeBlocks oor v of (_, _, _, _, ds) \<Rightarrow>
     map discarded_Key ds =
       map fst (filter (\<lambda>(key, usable). IsSet v key \<and> \<not> usable (Get v key)) (runtime_keys oor))"
  unfolding report_filter
  by (simp add: LoadRuntimeBlocks_def split_beta Let_def runtime_keys_def DefaultReorderConfig_def
      bool_key.keys_reported int_key.keys_reported level_key.keys_reported origins_key.keys_reported)

text \<open>
  C39: whatever the file holds, the runtime blocks that come out can be used as they are (no negative
  time or size, a cap of at least one metatx per user, a known log level, no empty origin), and the
  keys reported as discarded are exactly the keys set to a value that cannot be used, each once and
  in the order of the blocks.
\<close>

theorem runtime_blocks_usable:
  "case LoadRuntimeBlocks oor v of (reorder, dashboard, logCfg, cors, ds) \<Rightarrow>
     0 \<le> WindowMs reorder \<and> 1 \<le> MaxInflightPerUser reorder \<and> 0 \<le> ReceiptTimeoutMs reorder \<and>
     0 \<le> AutoNonceTicketMs reorder \<and> 0 \<le> BufferSize dashboard \<and>
     Level logCfg \<in> set logLevels \<and> [] \<notin> set (AllowedOrigins cors) \<and>
     map discarded_Key ds =
       map fst (filter (\<lambda>(key, usable). IsSet v key \<and> \<not> usable (Get v key)) (runtime_keys oor))"
  using runtime_blocks_in_range [where oor = oor and v = v] runtime_keys_reported [where oor = oor and v = v] by (simp add: split_beta)

text \<open>The validation blocks: the floor under the expiration of a metatx is never negative, and the
  configured ingress address is empty or an address.\<close>

lemma validation_blocks_in_range:
  "case LoadValidationBlocks oor h v of (validation, permissioning, ds) \<Rightarrow>
     0 \<le> MinExpirationSeconds validation \<and> 0 \<le> ExpirationToleranceSeconds validation \<and>
     ExpirationFloor validation \<le> MinExpirationSeconds validation \<and>
     0 \<le> AccountRulesCacheMs permissioning \<and>
     (AccountIngressAddress permissioning = [] \<or> h (AccountIngressAddress permissioning))"
proof -
  note range = read_int_range [where mn = 0, simplified] read_address_range
  show ?thesis
    by (simp add: LoadValidationBlocks_def ExpirationFloor_def config_defaults range split_beta Let_def)
qed

section \<open>A configuration for concrete runs\<close>

text \<open>The defaults with reordering on and a cap of one metatx per user.\<close>

definition sample_config :: Config where
  "sample_config =
     \<lparr>Application = \<lparr>NodeURL = ''http://node'', WSURL = ''ws://node'', ContractAddress = ''0x01'',
        RelayHubContractAddress = Some 1, NodeKeyPath = [], NodeAddressPath = [], Key = ''00'', Port = ''9001'',
        NonceCacheTTL = 300\<rparr>,
      KeyStore = \<lparr>KeyStore_Agent = []\<rparr>, Passphrase = \<lparr>Passphrase_Agent = []\<rparr>,
      Security = \<lparr>PermissionsEnabled = False, AccountContractAddress = []\<rparr>,
      Reorder = DefaultReorderConfig\<lparr>Reorder_Enabled := True, MaxInflightPerUser := 1\<rparr>,
      Dashboard = DefaultDashboardConfig, Log = DefaultLogConfig, CORS = DefaultCorsConfig,
      Validation = DefaultValidationConfig, Permissioning = DefaultPermissioningConfig\<rparr>"

end
