(* ===== verification/Service_State.thy ===== *)
theory Service_State
  imports Config
begin

text \<open>
  The state of \<open>RelaySignerService\<close> (\<open>service/relaySignerService.go\<close>) and of the objects it
  points to. Go pointers are addresses: the identity of a nonce chain, of a held metatx, of a
  wake-up channel, of a timer and of a ticket matters to the code, which compares pointers, so each
  kind of object lives in a heap (a function from addresses) and the struct holds addresses. One
  counter hands out fresh addresses. A nil Go map reads as an empty one, which is how the maps
  start here.
\<close>

type_synonym ref = nat

section \<open>The objects\<close>

record nonceEntry =
  next_nonce :: uint64
  pending :: int
  updatedAt :: time
  expiry :: "ref option"

record heldMetaTx =
  nonce :: uint64
  wake :: "ref option"
  evicted :: bool
  evictedInflight :: int

text \<open>
  A \<open>time.AfterFunc\<close> timer: armed until its instant, then its callback is due and runs once.
  \<open>Stop\<close> only works on an armed timer.
\<close>

datatype timer_state = Armed time | Stopped | Due | Ran

record grace_timer =
  timer_state :: timer_state
  timer_key :: string
  timer_chain :: ref

record userLock =
  holder :: "nat option"
  users :: int

record handoutTicket =
  ticket_closed :: bool

record metaTxEntry =
  reqID :: string
  metaTxID :: string
  rememberedAt :: time
  entry_senderKey :: string
  entry_chain :: "ref option"
  settled :: bool

record permissionEntry =
  permitted :: bool
  expiresAt :: time

record accountRules =
  rules_address :: Address
  rules_source :: string
  rules_cache :: "Address \<rightharpoonup> permissionEntry"

section \<open>The service\<close>

text \<open>
  \<open>chain_heap\<close>, \<open>held_heap\<close>, \<open>timer_heap\<close>, \<open>lock_heap\<close> and \<open>ticket_heap\<close> are the heaps;
  \<open>chan_closes\<close> counts how often each channel was closed, since closing a channel twice panics.
\<close>

record RelaySignerService =
  Cfg :: "Config option"
  senders :: "string \<rightharpoonup> ref"
  held :: "string \<rightharpoonup> ref list"
  userLocks :: "string \<rightharpoonup> ref"
  rules :: "accountRules option"
  nodePermitted :: "bool option"
  handouts :: "string \<rightharpoonup> ref"
  openTickets :: "string \<rightharpoonup> ref"
  metaTx :: "Hash \<rightharpoonup> metaTxEntry"
  chain_heap :: "ref \<Rightarrow> nonceEntry"
  held_heap :: "ref \<Rightarrow> heldMetaTx"
  timer_heap :: "ref \<Rightarrow> grace_timer"
  lock_heap :: "ref \<Rightarrow> userLock"
  ticket_heap :: "ref \<Rightarrow> handoutTicket"
  chan_closes :: "ref \<Rightarrow> nat"
  fresh :: ref

definition zero_entry :: nonceEntry where
  "zero_entry = \<lparr>next_nonce = 0, pending = 0, updatedAt = 0, expiry = None\<rparr>"

definition zero_held :: heldMetaTx where
  "zero_held = \<lparr>nonce = 0, wake = None, evicted = False, evictedInflight = 0\<rparr>"

definition zero_timer :: grace_timer where
  "zero_timer = \<lparr>timer_state = Ran, timer_key = [], timer_chain = 0\<rparr>"

definition zero_lock :: userLock where
  "zero_lock = \<lparr>holder = None, users = 0\<rparr>"

definition zero_ticket :: handoutTicket where
  "zero_ticket = \<lparr>ticket_closed = False\<rparr>"

text \<open>\<open>new(RelaySignerService)\<close> followed by \<open>Init\<close>: the configuration and empty maps.\<close>

definition new_service :: "Config option \<Rightarrow> RelaySignerService" where
  "new_service cfg =
     \<lparr>Cfg = cfg, senders = Map.empty, held = Map.empty, userLocks = Map.empty, rules = None,
      nodePermitted = None, handouts = Map.empty, openTickets = Map.empty, metaTx = Map.empty,
      chain_heap = (\<lambda>_. zero_entry), held_heap = (\<lambda>_. zero_held), timer_heap = (\<lambda>_. zero_timer),
      lock_heap = (\<lambda>_. zero_lock), ticket_heap = (\<lambda>_. zero_ticket), chan_closes = (\<lambda>_. 0),
      fresh = 0\<rparr>"

section \<open>Writing through a pointer\<close>

definition upd_chain :: "ref \<Rightarrow> (nonceEntry \<Rightarrow> nonceEntry) \<Rightarrow> RelaySignerService \<Rightarrow> RelaySignerService" where
  "upd_chain c f s = s\<lparr>chain_heap := (chain_heap s)(c := f (chain_heap s c))\<rparr>"

definition upd_held :: "ref \<Rightarrow> (heldMetaTx \<Rightarrow> heldMetaTx) \<Rightarrow> RelaySignerService \<Rightarrow> RelaySignerService" where
  "upd_held h f s = s\<lparr>held_heap := (held_heap s)(h := f (held_heap s h))\<rparr>"

definition upd_timer :: "ref \<Rightarrow> (grace_timer \<Rightarrow> grace_timer) \<Rightarrow> RelaySignerService \<Rightarrow> RelaySignerService" where
  "upd_timer t f s = s\<lparr>timer_heap := (timer_heap s)(t := f (timer_heap s t))\<rparr>"

definition upd_lock :: "ref \<Rightarrow> (userLock \<Rightarrow> userLock) \<Rightarrow> RelaySignerService \<Rightarrow> RelaySignerService" where
  "upd_lock l f s = s\<lparr>lock_heap := (lock_heap s)(l := f (lock_heap s l))\<rparr>"

definition upd_ticket :: "ref \<Rightarrow> (handoutTicket \<Rightarrow> handoutTicket) \<Rightarrow> RelaySignerService \<Rightarrow> RelaySignerService" where
  "upd_ticket t f s = s\<lparr>ticket_heap := (ticket_heap s)(t := f (ticket_heap s t))\<rparr>"

named_theorems heap_defs \<open>the definitions of the pointer writes\<close>

declare upd_chain_def [heap_defs] upd_held_def [heap_defs] upd_timer_def [heap_defs]
  upd_lock_def [heap_defs] upd_ticket_def [heap_defs]

text \<open>What is registered for a user: \<open>service.held[key]\<close>, where a missing key is an empty slice.\<close>

definition held_list :: "RelaySignerService \<Rightarrow> string \<Rightarrow> ref list" where
  "held_list s key = (case held s key of None \<Rightarrow> [] | Some hs \<Rightarrow> hs)"

end
