(* ===== verification/Tracker.thy ===== *)
theory Tracker
  imports Service_State
begin

text \<open>
  \<open>service/tracker.go\<close>: the nonce chain of each user (the next nonce, how many metatx are in
  flight, when it was last written) and the registry of held metatx. Every function runs inside the
  critical section of \<open>sendersLock\<close>, so each one is an atomic function of the state; the instant it
  reads from the clock is its first argument.

  After the operations come the invariant of the registry and of the chains with one preservation
  lemma per operation, and then what each operation does.
\<close>

section \<open>Settings\<close>

text \<open>\<open>senderKey\<close>: the normalised key of a user.\<close>

definition senderKey :: "string \<Rightarrow> string" where
  "senderKey from = ToLower from"

definition graceWindow :: "RelaySignerService \<Rightarrow> duration" where
  "graceWindow s =
     (case Cfg s of
        Some c \<Rightarrow> if WindowMs (Reorder c) > 0 then go_int64 (WindowMs (Reorder c) * millisecond) else 0
      | None \<Rightarrow> 0)"

definition nonceCacheTTL :: "RelaySignerService \<Rightarrow> duration" where
  "nonceCacheTTL s =
     (case Cfg s of
        Some c \<Rightarrow>
          if NonceCacheTTL (Application c) > 0 then go_int64 (NonceCacheTTL (Application c) * second)
          else 300 * second
      | None \<Rightarrow> 300 * second)"

section \<open>Nonce chains\<close>

text \<open>\<open>Timer.Stop\<close>: cancels an armed timer; a callback that is already due still runs.\<close>

definition timer_Stop :: "ref \<Rightarrow> RelaySignerService \<Rightarrow> RelaySignerService" where
  "timer_Stop t s =
     upd_timer t (\<lambda>tm. case timer_state tm of Armed _ \<Rightarrow> tm\<lparr>timer_state := Stopped\<rparr> | _ \<Rightarrow> tm) s"

definition stopExpiry :: "ref \<Rightarrow> RelaySignerService \<Rightarrow> RelaySignerService" where
  "stopExpiry c s =
     (case expiry (chain_heap s c) of
        None \<Rightarrow> s
      | Some t \<Rightarrow> upd_chain c (\<lambda>e. e\<lparr>expiry := None\<rparr>) (timer_Stop t s))"

definition dropLocked :: "string \<Rightarrow> ref \<Rightarrow> RelaySignerService \<Rightarrow> RelaySignerService" where
  "dropLocked key c s = (stopExpiry c s)\<lparr>senders := (senders s)(key := None)\<rparr>"

definition chainLocked :: "time \<Rightarrow> string \<Rightarrow> RelaySignerService \<Rightarrow> ref option \<times> RelaySignerService" where
  "chainLocked now key s =
     (case senders s key of
        None \<Rightarrow> (None, s)
      | Some c \<Rightarrow>
          if now - updatedAt (chain_heap s c) > nonceCacheTTL s then (None, dropLocked key c s)
          else (Some c, s))"

definition new_chain :: "string \<Rightarrow> uint64 \<Rightarrow> RelaySignerService \<Rightarrow> ref \<times> RelaySignerService" where
  "new_chain key nxt s =
     (fresh s,
      s\<lparr>senders := (senders s)(key \<mapsto> fresh s),
        chain_heap := (chain_heap s)(fresh s := zero_entry\<lparr>next_nonce := nxt\<rparr>),
        fresh := Suc (fresh s)\<rparr>)"

definition touch_chain ::
    "time \<Rightarrow> ref \<Rightarrow> uint64 \<Rightarrow> bool \<Rightarrow> RelaySignerService \<Rightarrow> RelaySignerService" where
  "touch_chain now c nxt inFlight s =
     upd_chain c (\<lambda>e. e\<lparr>next_nonce := nxt, updatedAt := now,
                       pending := (if inFlight then pending e + 1 else pending e)\<rparr>) (stopExpiry c s)"

definition reserveLocked ::
    "time \<Rightarrow> string \<Rightarrow> uint64 \<Rightarrow> bool \<Rightarrow> RelaySignerService \<Rightarrow> ref \<times> RelaySignerService" where
  "reserveLocked now key n inFlight s =
     (let nxt = n + 1
      in case chainLocked now key s of
           (None, s1) \<Rightarrow>
             (case new_chain key nxt s1 of (c, s2) \<Rightarrow> (c, touch_chain now c nxt inFlight s2))
         | (Some c, s1) \<Rightarrow>
             (let nxt' = (if next_nonce (chain_heap s1 c) > nxt then next_nonce (chain_heap s1 c) else nxt)
              in (c, touch_chain now c nxt' inFlight s1)))"

section \<open>Held metatx\<close>

definition wakeLocked :: "ref \<Rightarrow> RelaySignerService \<Rightarrow> RelaySignerService" where
  "wakeLocked h s =
     (case wake (held_heap s h) of
        None \<Rightarrow> s
      | Some ch \<Rightarrow>
          upd_held h (\<lambda>e. e\<lparr>wake := None\<rparr>)
            (s\<lparr>chan_closes := (chan_closes s)(ch := Suc (chan_closes s ch))\<rparr>))"

definition notifyTurnLocked :: "string \<Rightarrow> RelaySignerService \<Rightarrow> RelaySignerService" where
  "notifyTurnLocked key s = fold wakeLocked (held_list s key) s"

definition waitingOf :: "string \<Rightarrow> RelaySignerService \<Rightarrow> int" where
  "waitingOf key s = int (length (held_list s key))"

definition hold :: "string \<Rightarrow> uint64 \<Rightarrow> RelaySignerService \<Rightarrow> ref \<times> RelaySignerService" where
  "hold key n s =
     (fresh s,
      s\<lparr>held_heap := (held_heap s)(fresh s := zero_held\<lparr>nonce := n\<rparr>),
        held := (held s)(key \<mapsto> held_list s key @ [fresh s]),
        fresh := Suc (fresh s)\<rparr>)"

definition unholdLocked :: "string \<Rightarrow> ref \<Rightarrow> RelaySignerService \<Rightarrow> RelaySignerService" where
  "unholdLocked key h s =
     (let waiters = held_list s key;
          rest = remove1 h waiters
      in if rest = [] then s\<lparr>held := (held s)(key := None)\<rparr>
         else s\<lparr>held := (held s)(key \<mapsto> rest)\<rparr>)"

definition unhold :: "string \<Rightarrow> ref \<Rightarrow> RelaySignerService \<Rightarrow> RelaySignerService" where
  "unhold key h s = unholdLocked key h s"

definition waitTurnLocked :: "ref \<Rightarrow> RelaySignerService \<Rightarrow> ref \<times> RelaySignerService" where
  "waitTurnLocked h s =
     (fresh s, upd_held h (\<lambda>e. e\<lparr>wake := Some (fresh s)\<rparr>) (s\<lparr>fresh := Suc (fresh s)\<rparr>))"

definition stopWaitingLocked :: "ref \<Rightarrow> RelaySignerService \<Rightarrow> RelaySignerService" where
  "stopWaitingLocked h s = upd_held h (\<lambda>e. e\<lparr>wake := None\<rparr>) s"

definition evictHeldLocked :: "string \<Rightarrow> ref \<Rightarrow> int \<Rightarrow> RelaySignerService \<Rightarrow> RelaySignerService" where
  "evictHeldLocked key h inflight s =
     wakeLocked h (unholdLocked key h
       (upd_held h (\<lambda>e. e\<lparr>evicted := True, evictedInflight := inflight\<rparr>) s))"

definition highest_step :: "RelaySignerService \<Rightarrow> ref option \<Rightarrow> ref \<Rightarrow> ref option" where
  "highest_step s highest h =
     (case highest of
        None \<Rightarrow> Some h
      | Some g \<Rightarrow> if nonce (held_heap s h) \<ge> nonce (held_heap s g) then Some h else Some g)"

definition highestHeldLocked :: "string \<Rightarrow> RelaySignerService \<Rightarrow> ref option" where
  "highestHeldLocked key s = foldl (highest_step s) None (held_list s key)"

section \<open>Counting, releasing and forgetting\<close>

definition inflightLocked :: "time \<Rightarrow> string \<Rightarrow> RelaySignerService \<Rightarrow> int \<times> RelaySignerService" where
  "inflightLocked now key s =
     (let inflight = waitingOf key s
      in case chainLocked now key s of
           (None, s1) \<Rightarrow> (inflight, s1)
         | (Some c, s1) \<Rightarrow> (inflight + pending (chain_heap s1 c), s1))"

definition inflightOf :: "time \<Rightarrow> string \<Rightarrow> RelaySignerService \<Rightarrow> int \<times> RelaySignerService" where
  "inflightOf now from s = inflightLocked now (senderKey from) s"

definition pendingOf :: "time \<Rightarrow> string \<Rightarrow> RelaySignerService \<Rightarrow> int \<times> RelaySignerService" where
  "pendingOf now from s =
     (case chainLocked now (senderKey from) s of
        (None, s1) \<Rightarrow> (0, s1)
      | (Some c, s1) \<Rightarrow> (pending (chain_heap s1 c), s1))"

definition cachedNonce :: "time \<Rightarrow> string \<Rightarrow> RelaySignerService \<Rightarrow> uint64 option \<times> RelaySignerService" where
  "cachedNonce now from s =
     (case chainLocked now (senderKey from) s of
        (None, s1) \<Rightarrow> (None, s1)
      | (Some c, s1) \<Rightarrow> (Some (next_nonce (chain_heap s1 c)), s1))"

definition new_grace_timer :: "time \<Rightarrow> string \<Rightarrow> ref \<Rightarrow> RelaySignerService \<Rightarrow> RelaySignerService" where
  "new_grace_timer at key c s =
     upd_chain c (\<lambda>e. e\<lparr>expiry := Some (fresh s)\<rparr>)
       (s\<lparr>timer_heap := (timer_heap s)
            (fresh s := \<lparr>timer_state = Armed at, timer_key = key, timer_chain = c\<rparr>),
          fresh := Suc (fresh s)\<rparr>)"

definition releaseChain :: "time \<Rightarrow> string \<Rightarrow> ref option \<Rightarrow> RelaySignerService \<Rightarrow> RelaySignerService" where
  "releaseChain now key chain s =
     (case chain of
        None \<Rightarrow> s
      | Some c \<Rightarrow>
          if senders s key \<noteq> Some c then s
          else
            let s1 = (if pending (chain_heap s c) > 0
                      then upd_chain c (\<lambda>e. e\<lparr>pending := pending e - 1\<rparr>) s else s);
                s2 = notifyTurnLocked key s1
            in if pending (chain_heap s2 c) > 0 \<or> expiry (chain_heap s2 c) \<noteq> None then s2
               else if graceWindow s2 \<le> 0 then dropLocked key c s2
               else new_grace_timer (now + graceWindow s2) key c s2)"

text \<open>The callback of the grace timer, and the runtime turning an armed timer into a due one.\<close>

definition grace_fires :: "time \<Rightarrow> ref \<Rightarrow> RelaySignerService \<Rightarrow> RelaySignerService option" where
  "grace_fires now t s =
     (case timer_state (timer_heap s t) of
        Armed at \<Rightarrow> if at \<le> now then Some (upd_timer t (\<lambda>tm. tm\<lparr>timer_state := Due\<rparr>) s) else None
      | _ \<Rightarrow> None)"

definition grace_callback :: "ref \<Rightarrow> RelaySignerService \<Rightarrow> RelaySignerService option" where
  "grace_callback t s =
     (if timer_state (timer_heap s t) = Due then
        (let key = timer_key (timer_heap s t); c = timer_chain (timer_heap s t);
             s1 = upd_timer t (\<lambda>tm. tm\<lparr>timer_state := Ran\<rparr>) s
         in Some (if senders s1 key = Some c \<and> pending (chain_heap s1 c) \<le> 0
                  then dropLocked key c s1 else s1))
      else None)"

definition forgetChain :: "string \<Rightarrow> RelaySignerService \<Rightarrow> RelaySignerService" where
  "forgetChain key s =
     notifyTurnLocked key
       (case senders s key of None \<Rightarrow> s | Some c \<Rightarrow> dropLocked key c s)"

definition invalidateNonce :: "string \<Rightarrow> RelaySignerService \<Rightarrow> RelaySignerService" where
  "invalidateNonce from s = forgetChain (senderKey from) s"

definition incrementTransactionCount ::
    "time \<Rightarrow> string \<Rightarrow> uint64 \<Rightarrow> RelaySignerService \<Rightarrow> RelaySignerService" where
  "incrementTransactionCount now from n s = snd (reserveLocked now (senderKey from) n False s)"

named_theorems tracker_defs \<open>the definitions of the tracker's operations\<close>

declare timer_Stop_def [tracker_defs] stopExpiry_def [tracker_defs] dropLocked_def [tracker_defs]
  chainLocked_def [tracker_defs] new_chain_def [tracker_defs] touch_chain_def [tracker_defs]
  reserveLocked_def [tracker_defs] wakeLocked_def [tracker_defs] hold_def [tracker_defs]
  unholdLocked_def [tracker_defs] unhold_def [tracker_defs] waitTurnLocked_def [tracker_defs]
  stopWaitingLocked_def [tracker_defs] evictHeldLocked_def [tracker_defs]
  inflightLocked_def [tracker_defs] cachedNonce_def [tracker_defs] pendingOf_def [tracker_defs]
  new_grace_timer_def [tracker_defs] forgetChain_def [tracker_defs]

section \<open>What each operation writes\<close>

text \<open>Frame facts: every field an operation does not write is unchanged.\<close>

lemma timer_Stop_frame [simp]:
  "Cfg (timer_Stop t s) = Cfg s"
  "senders (timer_Stop t s) = senders s"
  "held (timer_Stop t s) = held s"
  "userLocks (timer_Stop t s) = userLocks s"
  "rules (timer_Stop t s) = rules s"
  "nodePermitted (timer_Stop t s) = nodePermitted s"
  "handouts (timer_Stop t s) = handouts s"
  "openTickets (timer_Stop t s) = openTickets s"
  "metaTx (timer_Stop t s) = metaTx s"
  "chain_heap (timer_Stop t s) = chain_heap s"
  "held_heap (timer_Stop t s) = held_heap s"
  "lock_heap (timer_Stop t s) = lock_heap s"
  "ticket_heap (timer_Stop t s) = ticket_heap s"
  "chan_closes (timer_Stop t s) = chan_closes s"
  "fresh (timer_Stop t s) = fresh s"
  by (simp_all add: timer_Stop_def upd_timer_def)

lemma stopExpiry_frame [simp]:
  "Cfg (stopExpiry c s) = Cfg s"
  "senders (stopExpiry c s) = senders s"
  "held (stopExpiry c s) = held s"
  "userLocks (stopExpiry c s) = userLocks s"
  "rules (stopExpiry c s) = rules s"
  "nodePermitted (stopExpiry c s) = nodePermitted s"
  "handouts (stopExpiry c s) = handouts s"
  "openTickets (stopExpiry c s) = openTickets s"
  "metaTx (stopExpiry c s) = metaTx s"
  "held_heap (stopExpiry c s) = held_heap s"
  "lock_heap (stopExpiry c s) = lock_heap s"
  "ticket_heap (stopExpiry c s) = ticket_heap s"
  "chan_closes (stopExpiry c s) = chan_closes s"
  "fresh (stopExpiry c s) = fresh s"
  by (simp_all add: stopExpiry_def upd_chain_def split: option.splits)

lemma stopExpiry_chain_heap [simp]:
  "chain_heap (stopExpiry c s) = (chain_heap s)(c := (chain_heap s c)\<lparr>expiry := None\<rparr>)"
  by (auto simp: stopExpiry_def upd_chain_def fun_eq_iff split: option.splits)

lemma dropLocked_frame [simp]:
  "Cfg (dropLocked key c s) = Cfg s"
  "held (dropLocked key c s) = held s"
  "userLocks (dropLocked key c s) = userLocks s"
  "rules (dropLocked key c s) = rules s"
  "nodePermitted (dropLocked key c s) = nodePermitted s"
  "handouts (dropLocked key c s) = handouts s"
  "openTickets (dropLocked key c s) = openTickets s"
  "metaTx (dropLocked key c s) = metaTx s"
  "held_heap (dropLocked key c s) = held_heap s"
  "lock_heap (dropLocked key c s) = lock_heap s"
  "ticket_heap (dropLocked key c s) = ticket_heap s"
  "chan_closes (dropLocked key c s) = chan_closes s"
  "fresh (dropLocked key c s) = fresh s"
  by (simp_all add: dropLocked_def)

lemma dropLocked_writes [simp]:
  "senders (dropLocked key c s) = (senders s)(key := None)"
  "chain_heap (dropLocked key c s) = (chain_heap s)(c := (chain_heap s c)\<lparr>expiry := None\<rparr>)"
  by (simp_all add: dropLocked_def)

lemma touch_chain_frame [simp]:
  "Cfg (touch_chain now c n b s) = Cfg s"
  "senders (touch_chain now c n b s) = senders s"
  "held (touch_chain now c n b s) = held s"
  "userLocks (touch_chain now c n b s) = userLocks s"
  "rules (touch_chain now c n b s) = rules s"
  "nodePermitted (touch_chain now c n b s) = nodePermitted s"
  "handouts (touch_chain now c n b s) = handouts s"
  "openTickets (touch_chain now c n b s) = openTickets s"
  "metaTx (touch_chain now c n b s) = metaTx s"
  "held_heap (touch_chain now c n b s) = held_heap s"
  "lock_heap (touch_chain now c n b s) = lock_heap s"
  "ticket_heap (touch_chain now c n b s) = ticket_heap s"
  "chan_closes (touch_chain now c n b s) = chan_closes s"
  "fresh (touch_chain now c n b s) = fresh s"
  by (simp_all add: touch_chain_def upd_chain_def)

lemma touch_chain_heap [simp]:
  "chain_heap (touch_chain now c n b s) =
     (chain_heap s)(c := \<lparr>next_nonce = n, pending = pending (chain_heap s c) + (if b then 1 else 0),
                          updatedAt = now, expiry = None\<rparr>)"
  by (auto simp: touch_chain_def upd_chain_def fun_eq_iff)

lemma chainLocked_frame [simp]:
  "Cfg (snd (chainLocked now key s)) = Cfg s"
  "held (snd (chainLocked now key s)) = held s"
  "userLocks (snd (chainLocked now key s)) = userLocks s"
  "rules (snd (chainLocked now key s)) = rules s"
  "nodePermitted (snd (chainLocked now key s)) = nodePermitted s"
  "handouts (snd (chainLocked now key s)) = handouts s"
  "openTickets (snd (chainLocked now key s)) = openTickets s"
  "metaTx (snd (chainLocked now key s)) = metaTx s"
  "held_heap (snd (chainLocked now key s)) = held_heap s"
  "lock_heap (snd (chainLocked now key s)) = lock_heap s"
  "ticket_heap (snd (chainLocked now key s)) = ticket_heap s"
  "chan_closes (snd (chainLocked now key s)) = chan_closes s"
  "fresh (snd (chainLocked now key s)) = fresh s"
  by (simp_all add: chainLocked_def split: option.splits)

lemma wakeLocked_frame [simp]:
  "Cfg (wakeLocked h s) = Cfg s"
  "senders (wakeLocked h s) = senders s"
  "held (wakeLocked h s) = held s"
  "userLocks (wakeLocked h s) = userLocks s"
  "rules (wakeLocked h s) = rules s"
  "nodePermitted (wakeLocked h s) = nodePermitted s"
  "handouts (wakeLocked h s) = handouts s"
  "openTickets (wakeLocked h s) = openTickets s"
  "metaTx (wakeLocked h s) = metaTx s"
  "chain_heap (wakeLocked h s) = chain_heap s"
  "timer_heap (wakeLocked h s) = timer_heap s"
  "lock_heap (wakeLocked h s) = lock_heap s"
  "ticket_heap (wakeLocked h s) = ticket_heap s"
  "fresh (wakeLocked h s) = fresh s"
  by (simp_all add: wakeLocked_def upd_held_def split: option.splits)

lemma wakeLocked_held_heap [simp]:
  "held_heap (wakeLocked h s) = (held_heap s)(h := (held_heap s h)\<lparr>wake := None\<rparr>)"
  by (auto simp: wakeLocked_def upd_held_def fun_eq_iff split: option.splits)

lemma wakeLocked_closes:
  "chan_closes (wakeLocked h s) ch =
     chan_closes s ch + (if wake (held_heap s h) = Some ch then 1 else 0)"
  by (auto simp: wakeLocked_def upd_held_def split: option.splits)

lemma fold_wake_frame [simp]:
  "Cfg (fold wakeLocked hs s) = Cfg s"
  "senders (fold wakeLocked hs s) = senders s"
  "held (fold wakeLocked hs s) = held s"
  "userLocks (fold wakeLocked hs s) = userLocks s"
  "rules (fold wakeLocked hs s) = rules s"
  "nodePermitted (fold wakeLocked hs s) = nodePermitted s"
  "handouts (fold wakeLocked hs s) = handouts s"
  "openTickets (fold wakeLocked hs s) = openTickets s"
  "metaTx (fold wakeLocked hs s) = metaTx s"
  "chain_heap (fold wakeLocked hs s) = chain_heap s"
  "timer_heap (fold wakeLocked hs s) = timer_heap s"
  "lock_heap (fold wakeLocked hs s) = lock_heap s"
  "ticket_heap (fold wakeLocked hs s) = ticket_heap s"
  "fresh (fold wakeLocked hs s) = fresh s"
  by (induction hs arbitrary: s) simp_all

lemma fold_wake_held_heap [simp]:
  "held_heap (fold wakeLocked hs s) g =
     (if g \<in> set hs then (held_heap s g)\<lparr>wake := None\<rparr> else held_heap s g)"
  by (induction hs arbitrary: s) auto

text \<open>
  Waking a list of held metatx closes exactly the channels they sleep on, each once, provided no
  two of them share a channel.
\<close>

lemma fold_wake_closes:
  assumes "\<And>g h. g \<in> set hs \<Longrightarrow> h \<in> set hs \<Longrightarrow> wake (held_heap s g) = Some ch \<Longrightarrow>
             wake (held_heap s h) = Some ch \<Longrightarrow> g = h"
  shows "chan_closes (fold wakeLocked hs s) ch =
           chan_closes s ch + (if \<exists>h\<in>set hs. wake (held_heap s h) = Some ch then 1 else 0)"
  using assms
proof (induction hs arbitrary: s)
  case Nil
  then show ?case by simp
next
  case (Cons h hs)
  have "chan_closes (fold wakeLocked hs (wakeLocked h s)) ch =
          chan_closes (wakeLocked h s) ch +
            (if \<exists>g\<in>set hs. wake (held_heap (wakeLocked h s) g) = Some ch then 1 else 0)"
    by (rule Cons.IH) (auto split: if_splits intro: Cons.prems)
  then show ?case
    using Cons.prems [of h] by (auto simp: wakeLocked_closes split: if_splits)
qed

lemma notifyTurnLocked_frame [simp]:
  "Cfg (notifyTurnLocked key s) = Cfg s"
  "senders (notifyTurnLocked key s) = senders s"
  "held (notifyTurnLocked key s) = held s"
  "userLocks (notifyTurnLocked key s) = userLocks s"
  "rules (notifyTurnLocked key s) = rules s"
  "nodePermitted (notifyTurnLocked key s) = nodePermitted s"
  "handouts (notifyTurnLocked key s) = handouts s"
  "openTickets (notifyTurnLocked key s) = openTickets s"
  "metaTx (notifyTurnLocked key s) = metaTx s"
  "chain_heap (notifyTurnLocked key s) = chain_heap s"
  "timer_heap (notifyTurnLocked key s) = timer_heap s"
  "lock_heap (notifyTurnLocked key s) = lock_heap s"
  "ticket_heap (notifyTurnLocked key s) = ticket_heap s"
  "fresh (notifyTurnLocked key s) = fresh s"
  by (simp_all add: notifyTurnLocked_def)

lemma notifyTurnLocked_held_heap [simp]:
  "held_heap (notifyTurnLocked key s) g =
     (if g \<in> set (held_list s key) then (held_heap s g)\<lparr>wake := None\<rparr> else held_heap s g)"
  by (simp add: notifyTurnLocked_def)

lemma unholdLocked_frame [simp]:
  "Cfg (unholdLocked key h s) = Cfg s"
  "senders (unholdLocked key h s) = senders s"
  "userLocks (unholdLocked key h s) = userLocks s"
  "rules (unholdLocked key h s) = rules s"
  "nodePermitted (unholdLocked key h s) = nodePermitted s"
  "handouts (unholdLocked key h s) = handouts s"
  "openTickets (unholdLocked key h s) = openTickets s"
  "metaTx (unholdLocked key h s) = metaTx s"
  "chain_heap (unholdLocked key h s) = chain_heap s"
  "held_heap (unholdLocked key h s) = held_heap s"
  "timer_heap (unholdLocked key h s) = timer_heap s"
  "lock_heap (unholdLocked key h s) = lock_heap s"
  "ticket_heap (unholdLocked key h s) = ticket_heap s"
  "chan_closes (unholdLocked key h s) = chan_closes s"
  "fresh (unholdLocked key h s) = fresh s"
  by (simp_all add: unholdLocked_def Let_def)

lemma held_list_unholdLocked [simp]:
  "held_list (unholdLocked key h s) k =
     (if k = key then remove1 h (held_list s key) else held_list s k)"
  by (auto simp: unholdLocked_def held_list_def Let_def split: option.splits)

lemma evictHeldLocked_frame [simp]:
  "Cfg (evictHeldLocked key h n s) = Cfg s"
  "senders (evictHeldLocked key h n s) = senders s"
  "userLocks (evictHeldLocked key h n s) = userLocks s"
  "rules (evictHeldLocked key h n s) = rules s"
  "nodePermitted (evictHeldLocked key h n s) = nodePermitted s"
  "handouts (evictHeldLocked key h n s) = handouts s"
  "openTickets (evictHeldLocked key h n s) = openTickets s"
  "metaTx (evictHeldLocked key h n s) = metaTx s"
  "chain_heap (evictHeldLocked key h n s) = chain_heap s"
  "timer_heap (evictHeldLocked key h n s) = timer_heap s"
  "lock_heap (evictHeldLocked key h n s) = lock_heap s"
  "ticket_heap (evictHeldLocked key h n s) = ticket_heap s"
  "fresh (evictHeldLocked key h n s) = fresh s"
  by (simp_all add: evictHeldLocked_def upd_held_def)

lemma held_list_cong: "held s' = held s \<Longrightarrow> held_list s' k = held_list s k"
  by (simp add: held_list_def)

lemma held_list_update [simp]:
  "held_list (upd_held h f s) k = held_list s k"
  "held_list (upd_chain c g s) k = held_list s k"
  "held_list (wakeLocked h s) k = held_list s k"
  "held_list (notifyTurnLocked key s) k = held_list s k"
  "held_list (dropLocked key c s) k = held_list s k"
  "held_list (snd (chainLocked now key s)) k = held_list s k"
  "held_list (touch_chain now c n b s) k = held_list s k"
  by (simp_all add: held_list_def upd_held_def upd_chain_def)

lemma evictHeldLocked_writes [simp]:
  "held_heap (evictHeldLocked key h n s) =
     (held_heap s)(h := (held_heap s h)\<lparr>wake := None, evicted := True, evictedInflight := n\<rparr>)"
  "held_list (evictHeldLocked key h n s) k =
     (if k = key then remove1 h (held_list s key) else held_list s k)"
  by (auto simp: evictHeldLocked_def upd_held_def fun_eq_iff held_list_def unholdLocked_def Let_def
      split: option.splits)

lemma evictHeldLocked_closes:
  "chan_closes (evictHeldLocked key h n s) ch =
     chan_closes s ch + (if wake (held_heap s h) = Some ch then 1 else 0)"
  by (simp add: evictHeldLocked_def wakeLocked_closes upd_held_def)

section \<open>The invariant\<close>

text \<open>
  The registry of held metatx: every registered one is allocated and not evicted, no metatx is
  registered twice nor for two users, and the map keeps no empty list.
\<close>

definition registry_wf :: "RelaySignerService \<Rightarrow> bool" where
  "registry_wf s \<longleftrightarrow>
     (\<forall>k h. h \<in> set (held_list s k) \<longrightarrow> h < fresh s \<and> \<not> evicted (held_heap s h)) \<and>
     (\<forall>k. distinct (held_list s k)) \<and>
     (\<forall>k k' h. h \<in> set (held_list s k) \<longrightarrow> h \<in> set (held_list s k') \<longrightarrow> k = k') \<and>
     (\<forall>k. held s k \<noteq> Some [])"

text \<open>
  The wake-up channels: the channel a held metatx sleeps on is allocated and open, belongs to it
  alone, and no channel was ever closed twice.
\<close>

definition wake_wf :: "RelaySignerService \<Rightarrow> bool" where
  "wake_wf s \<longleftrightarrow>
     (\<forall>h ch. wake (held_heap s h) = Some ch \<longrightarrow> ch < fresh s \<and> chan_closes s ch = 0) \<and>
     (\<forall>g h ch. wake (held_heap s g) = Some ch \<longrightarrow> wake (held_heap s h) = Some ch \<longrightarrow> g = h) \<and>
     (\<forall>ch. chan_closes s ch \<le> 1) \<and>
     (\<forall>ch. fresh s \<le> ch \<longrightarrow> chan_closes s ch = 0)"

text \<open>
  The nonce chains: the current chain of a user is allocated and belongs to no other user, no count
  of metatx in flight is negative, and the grace timer of a chain is a timer of that chain.
\<close>

definition chains_wf :: "RelaySignerService \<Rightarrow> bool" where
  "chains_wf s \<longleftrightarrow>
     (\<forall>k c. senders s k = Some c \<longrightarrow> c < fresh s) \<and>
     (\<forall>k k' c. senders s k = Some c \<longrightarrow> senders s k' = Some c \<longrightarrow> k = k') \<and>
     (\<forall>c. 0 \<le> pending (chain_heap s c)) \<and>
     (\<forall>c t. expiry (chain_heap s c) = Some t \<longrightarrow> t < fresh s \<and> timer_chain (timer_heap s t) = c)"

definition service_wf :: "RelaySignerService \<Rightarrow> bool" where
  "service_wf s \<longleftrightarrow> registry_wf s \<and> wake_wf s \<and> chains_wf s"

lemma registry_wfI:
  assumes "\<And>k h. h \<in> set (held_list s k) \<Longrightarrow> h < fresh s"
    and "\<And>k h. h \<in> set (held_list s k) \<Longrightarrow> \<not> evicted (held_heap s h)"
    and "\<And>k. distinct (held_list s k)"
    and "\<And>k k' h. h \<in> set (held_list s k) \<Longrightarrow> h \<in> set (held_list s k') \<Longrightarrow> k = k'"
    and "\<And>k. held s k \<noteq> Some []"
  shows "registry_wf s"
  using assms by (simp add: registry_wf_def)

lemma registry_wfD:
  assumes "registry_wf s"
  shows "h \<in> set (held_list s k) \<Longrightarrow> h < fresh s"
    and "h \<in> set (held_list s k) \<Longrightarrow> \<not> evicted (held_heap s h)"
    and "distinct (held_list s k)"
    and "h \<in> set (held_list s k) \<Longrightarrow> h \<in> set (held_list s k') \<Longrightarrow> k = k'"
    and "held s k \<noteq> Some []"
  using assms by (auto simp: registry_wf_def)

lemma wake_wfI:
  assumes "\<And>h ch. wake (held_heap s h) = Some ch \<Longrightarrow> ch < fresh s"
    and "\<And>h ch. wake (held_heap s h) = Some ch \<Longrightarrow> chan_closes s ch = 0"
    and "\<And>g h ch. wake (held_heap s g) = Some ch \<Longrightarrow> wake (held_heap s h) = Some ch \<Longrightarrow> g = h"
    and "\<And>ch. chan_closes s ch \<le> Suc 0"
    and "\<And>ch. fresh s \<le> ch \<Longrightarrow> chan_closes s ch = 0"
  shows "wake_wf s"
  using assms by (simp add: wake_wf_def)

lemma wake_wfD:
  assumes "wake_wf s"
  shows "wake (held_heap s h) = Some ch \<Longrightarrow> ch < fresh s"
    and "wake (held_heap s h) = Some ch \<Longrightarrow> chan_closes s ch = 0"
    and "wake (held_heap s g) = Some ch \<Longrightarrow> wake (held_heap s h) = Some ch \<Longrightarrow> g = h"
    and "chan_closes s ch \<le> Suc 0"
    and "fresh s \<le> ch \<Longrightarrow> chan_closes s ch = 0"
  using assms by (auto simp: wake_wf_def)

lemma chains_wfI:
  assumes "\<And>k c. senders s k = Some c \<Longrightarrow> c < fresh s"
    and "\<And>k k' c. senders s k = Some c \<Longrightarrow> senders s k' = Some c \<Longrightarrow> k = k'"
    and "\<And>c. 0 \<le> pending (chain_heap s c)"
    and "\<And>c t. expiry (chain_heap s c) = Some t \<Longrightarrow> t < fresh s"
    and "\<And>c t. expiry (chain_heap s c) = Some t \<Longrightarrow> timer_chain (timer_heap s t) = c"
  shows "chains_wf s"
  using assms by (simp add: chains_wf_def)

lemma chains_wfD:
  assumes "chains_wf s"
  shows "senders s k = Some c \<Longrightarrow> c < fresh s"
    and "senders s k = Some c \<Longrightarrow> senders s k' = Some c \<Longrightarrow> k = k'"
    and "0 \<le> pending (chain_heap s c)"
    and "expiry (chain_heap s c) = Some t \<Longrightarrow> t < fresh s"
    and "expiry (chain_heap s c) = Some t \<Longrightarrow> timer_chain (timer_heap s t) = c"
  using assms by (auto simp: chains_wf_def)

lemma service_wf_parts:
  "service_wf s \<Longrightarrow> registry_wf s" "service_wf s \<Longrightarrow> wake_wf s" "service_wf s \<Longrightarrow> chains_wf s"
  by (simp_all add: service_wf_def)

lemmas service_wf_facts = registry_wfD(3,5) [OF service_wf_parts(1)] wake_wfD(4) [OF service_wf_parts(2)]
  chains_wfD(3) [OF service_wf_parts(3)]

lemmas service_wf_dests = registry_wfD(1,2,4) [OF service_wf_parts(1)]
  wake_wfD(1,2,3,5) [OF service_wf_parts(2)] chains_wfD(1,2,4,5) [OF service_wf_parts(3)]

lemma service_wfI: "registry_wf s \<Longrightarrow> wake_wf s \<Longrightarrow> chains_wf s \<Longrightarrow> service_wf s"
  by (simp add: service_wf_def)

lemma new_service_wf: "service_wf (new_service cfg)"
  by (simp add: service_wf_def registry_wf_def wake_wf_def chains_wf_def new_service_def
      held_list_def zero_held_def zero_entry_def)

text \<open>A part of the invariant only reads some fields; a step that keeps those keeps the part.\<close>

lemma registry_wf_frame:
  assumes "service_wf s" "held s' = held s" "\<And>h. evicted (held_heap s' h) = evicted (held_heap s h)"
    "fresh s \<le> fresh s'"
  shows "registry_wf s'"
  using assms(2-)
  by (intro registry_wfI)
    (auto simp: held_list_cong [OF assms(2)] service_wf_facts [OF assms(1)] intro: order_less_le_trans dest: service_wf_dests [OF assms(1)])

lemma wake_wf_frame:
  assumes "service_wf s" "\<And>h. wake (held_heap s' h) = wake (held_heap s h)" "chan_closes s' = chan_closes s"
    "fresh s \<le> fresh s'"
  shows "wake_wf s'"
  using assms(2-)
  by (intro wake_wfI)
    (auto simp: service_wf_facts [OF assms(1)] intro: order_less_le_trans
      dest: service_wf_dests [OF assms(1)] order_trans [of "fresh s"])

lemma chains_wf_frame:
  assumes "service_wf s" "senders s' = senders s" "chain_heap s' = chain_heap s"
    "\<And>t. timer_chain (timer_heap s' t) = timer_chain (timer_heap s t)" "fresh s \<le> fresh s'"
  shows "chains_wf s'"
  using assms(2-)
  by (intro chains_wfI)
    (auto simp: service_wf_facts [OF assms(1)] intro: order_less_le_trans dest: service_wf_dests [OF assms(1)])

lemma timer_chain_Stop [simp]: "timer_chain (timer_heap (timer_Stop t s) u) = timer_chain (timer_heap s u)"
  by (simp add: timer_Stop_def upd_timer_def split: timer_state.split)

lemma timer_chain_stopExpiry [simp]:
  "timer_chain (timer_heap (stopExpiry c s) u) = timer_chain (timer_heap s u)"
  by (simp add: stopExpiry_def upd_chain_def split: option.split)

lemma timer_chain_dropLocked [simp]:
  "timer_chain (timer_heap (dropLocked key c s) u) = timer_chain (timer_heap s u)"
  by (simp add: dropLocked_def)

lemma dropLocked_wf [simp, intro]:
  assumes "service_wf s" shows "service_wf (dropLocked key c s)"
proof (rule service_wfI)
  show "chains_wf (dropLocked key c s)"
    by (rule chains_wfI) (auto simp: service_wf_facts [OF assms] dest: service_wf_dests [OF assms] split: if_splits)
qed (auto intro: registry_wf_frame [OF assms] wake_wf_frame [OF assms])

lemma chainLocked_wf [simp, intro]: "service_wf s \<Longrightarrow> service_wf (snd (chainLocked now key s))"
  by (auto simp: chainLocked_def split: option.split)

lemma new_chain_wf:
  assumes "service_wf s" "senders s key = None"
  shows "service_wf (snd (new_chain key n s))"
proof (rule service_wfI)
  show "chains_wf (snd (new_chain key n s))"
    by (rule chains_wfI)
      (auto simp: new_chain_def zero_entry_def less_Suc_eq service_wf_facts [OF assms(1)]
        dest: service_wf_dests [OF assms(1)] split: if_splits)
qed (auto simp: new_chain_def intro: registry_wf_frame [OF assms(1)] wake_wf_frame [OF assms(1)])

lemma timer_chain_touch [simp]:
  "timer_chain (timer_heap (touch_chain now c n b s) u) = timer_chain (timer_heap s u)"
  by (simp add: touch_chain_def upd_chain_def)

lemma touch_chain_wf [simp, intro]:
  assumes "service_wf s" shows "service_wf (touch_chain now c n b s)"
proof (rule service_wfI)
  show "chains_wf (touch_chain now c n b s)"
    by (rule chains_wfI)
      (auto simp: service_wf_facts [OF assms] dest: service_wf_dests [OF assms] split: if_splits)
qed (auto intro: registry_wf_frame [OF assms] wake_wf_frame [OF assms])

lemma chainLocked_None: "chainLocked now key s = (None, s') \<Longrightarrow> senders s' key = None"
  by (auto simp: chainLocked_def split: option.splits if_splits)

lemma chainLocked_Some:
  "chainLocked now key s = (Some c, s') \<Longrightarrow> s' = s \<and> senders s key = Some c"
  by (auto simp: chainLocked_def split: option.splits if_splits)

lemma reserveLocked_wf [intro]:
  assumes wf: "service_wf s" shows "service_wf (snd (reserveLocked now key n b s))"
proof -
  obtain co s1 where cl: "chainLocked now key s = (co, s1)" by fastforce
  with chainLocked_wf [OF wf, of now key] have wf1: "service_wf s1" by simp
  show ?thesis
  proof (cases co)
    case None
    obtain c s2 where nc: "new_chain key (n + 1) s1 = (c, s2)" by fastforce
    from None cl have "senders s1 key = None" by (simp add: chainLocked_None)
    with wf1 nc have "service_wf s2" using new_chain_wf [of s1 key "n + 1"] by simp
    with None cl nc show ?thesis by (auto simp: reserveLocked_def Let_def)
  next
    case (Some c)
    with wf1 cl show ?thesis by (auto simp: reserveLocked_def Let_def)
  qed
qed

lemma wakeLocked_wf [simp, intro]:
  assumes "service_wf s" shows "service_wf (wakeLocked h s)"
proof (rule service_wfI)
  show "wake_wf (wakeLocked h s)"
    by (rule wake_wfI)
      (auto simp: wakeLocked_closes service_wf_facts [OF assms] dest: service_wf_dests [OF assms] split: if_splits)
  show "registry_wf (wakeLocked h s)"
    by (rule registry_wf_frame [OF assms]) auto
qed (auto intro: chains_wf_frame [OF assms])

lemma fold_wake_wf [simp, intro]: "service_wf s \<Longrightarrow> service_wf (fold wakeLocked hs s)"
  by (induction hs arbitrary: s) simp_all

lemma notifyTurnLocked_wf [simp, intro]: "service_wf s \<Longrightarrow> service_wf (notifyTurnLocked key s)"
  by (simp add: notifyTurnLocked_def)

lemma held_list_hold [simp]:
  "held_list (snd (hold key n s)) k = (if k = key then held_list s key @ [fresh s] else held_list s k)"
  by (simp add: hold_def held_list_def)

lemma hold_frame [simp]:
  "Cfg (snd (hold key n s)) = Cfg s"
  "senders (snd (hold key n s)) = senders s"
  "userLocks (snd (hold key n s)) = userLocks s"
  "rules (snd (hold key n s)) = rules s"
  "nodePermitted (snd (hold key n s)) = nodePermitted s"
  "handouts (snd (hold key n s)) = handouts s"
  "openTickets (snd (hold key n s)) = openTickets s"
  "metaTx (snd (hold key n s)) = metaTx s"
  "chain_heap (snd (hold key n s)) = chain_heap s"
  "timer_heap (snd (hold key n s)) = timer_heap s"
  "lock_heap (snd (hold key n s)) = lock_heap s"
  "ticket_heap (snd (hold key n s)) = ticket_heap s"
  "chan_closes (snd (hold key n s)) = chan_closes s"
  by (simp_all add: hold_def)

lemma hold_writes [simp]:
  "fst (hold key n s) = fresh s"
  "fresh (snd (hold key n s)) = Suc (fresh s)"
  "held_heap (snd (hold key n s)) = (held_heap s)(fresh s := zero_held\<lparr>nonce := n\<rparr>)"
  "held (snd (hold key n s)) = (held s)(key \<mapsto> held_list s key @ [fresh s])"
  by (simp_all add: hold_def)

lemma hold_wf [intro]:
  assumes "service_wf s" shows "service_wf (snd (hold key n s))"
proof (rule service_wfI)
  show "registry_wf (snd (hold key n s))"
    by (rule registry_wfI)
      (auto simp: zero_held_def less_Suc_eq service_wf_facts [OF assms]
        dest: service_wf_dests [OF assms] split: if_splits)
  show "wake_wf (snd (hold key n s))"
    by (rule wake_wfI)
      (auto simp: zero_held_def less_Suc_eq service_wf_facts [OF assms]
        dest: service_wf_dests [OF assms] Suc_leD split: if_splits)
qed (auto intro: chains_wf_frame [OF assms])

lemma unholdLocked_wf [simp, intro]:
  assumes "service_wf s" shows "service_wf (unholdLocked key h s)"
proof (rule service_wfI)
  have "held (unholdLocked key h s) k \<noteq> Some []" for k
    using assms by (auto simp: unholdLocked_def Let_def service_wf_facts)
  then show "registry_wf (unholdLocked key h s)"
    using set_remove1_subset [of h "held_list s key"]
    by (intro registry_wfI)
      (auto simp: service_wf_facts [OF assms] dest: service_wf_dests [OF assms] split: if_splits)
qed (auto intro: wake_wf_frame [OF assms] chains_wf_frame [OF assms])

lemma waitTurnLocked_frame [simp]:
  "Cfg (snd (waitTurnLocked h s)) = Cfg s"
  "senders (snd (waitTurnLocked h s)) = senders s"
  "held (snd (waitTurnLocked h s)) = held s"
  "userLocks (snd (waitTurnLocked h s)) = userLocks s"
  "rules (snd (waitTurnLocked h s)) = rules s"
  "nodePermitted (snd (waitTurnLocked h s)) = nodePermitted s"
  "handouts (snd (waitTurnLocked h s)) = handouts s"
  "openTickets (snd (waitTurnLocked h s)) = openTickets s"
  "metaTx (snd (waitTurnLocked h s)) = metaTx s"
  "chain_heap (snd (waitTurnLocked h s)) = chain_heap s"
  "timer_heap (snd (waitTurnLocked h s)) = timer_heap s"
  "lock_heap (snd (waitTurnLocked h s)) = lock_heap s"
  "ticket_heap (snd (waitTurnLocked h s)) = ticket_heap s"
  "chan_closes (snd (waitTurnLocked h s)) = chan_closes s"
  by (simp_all add: waitTurnLocked_def upd_held_def)

lemma waitTurnLocked_writes [simp]:
  "fst (waitTurnLocked h s) = fresh s"
  "fresh (snd (waitTurnLocked h s)) = Suc (fresh s)"
  "held_heap (snd (waitTurnLocked h s)) = (held_heap s)(h := (held_heap s h)\<lparr>wake := Some (fresh s)\<rparr>)"
  by (simp_all add: waitTurnLocked_def upd_held_def)

lemma stopWaitingLocked_frame [simp]:
  "Cfg (stopWaitingLocked h s) = Cfg s"
  "senders (stopWaitingLocked h s) = senders s"
  "held (stopWaitingLocked h s) = held s"
  "userLocks (stopWaitingLocked h s) = userLocks s"
  "rules (stopWaitingLocked h s) = rules s"
  "nodePermitted (stopWaitingLocked h s) = nodePermitted s"
  "handouts (stopWaitingLocked h s) = handouts s"
  "openTickets (stopWaitingLocked h s) = openTickets s"
  "metaTx (stopWaitingLocked h s) = metaTx s"
  "chain_heap (stopWaitingLocked h s) = chain_heap s"
  "timer_heap (stopWaitingLocked h s) = timer_heap s"
  "lock_heap (stopWaitingLocked h s) = lock_heap s"
  "ticket_heap (stopWaitingLocked h s) = ticket_heap s"
  "chan_closes (stopWaitingLocked h s) = chan_closes s"
  "fresh (stopWaitingLocked h s) = fresh s"
  by (simp_all add: stopWaitingLocked_def upd_held_def)

lemma stopWaitingLocked_writes [simp]:
  "held_heap (stopWaitingLocked h s) = (held_heap s)(h := (held_heap s h)\<lparr>wake := None\<rparr>)"
  by (simp add: stopWaitingLocked_def upd_held_def)

lemma waitTurnLocked_wf [intro]:
  assumes "service_wf s" shows "service_wf (snd (waitTurnLocked h s))"
proof (rule service_wfI)
  show "registry_wf (snd (waitTurnLocked h s))"
    by (rule registry_wf_frame [OF assms]) auto
  show "wake_wf (snd (waitTurnLocked h s))"
    by (rule wake_wfI)
      (auto simp: less_Suc_eq service_wf_facts [OF assms] service_wf_dests(7) [OF assms]
        dest: service_wf_dests [OF assms] Suc_leD split: if_splits)
qed (auto intro: chains_wf_frame [OF assms])

lemma stopWaitingLocked_wf [simp, intro]:
  assumes "service_wf s" shows "service_wf (stopWaitingLocked h s)"
proof (rule service_wfI)
  show "registry_wf (stopWaitingLocked h s)"
    by (rule registry_wf_frame [OF assms]) auto
  show "wake_wf (stopWaitingLocked h s)"
    by (rule wake_wfI)
      (auto simp: service_wf_facts [OF assms] dest: service_wf_dests [OF assms] split: if_splits)
qed (auto intro: chains_wf_frame [OF assms])

text \<open>
  Marking a held metatx as evicted breaks the registry for an instant; taking it out of the list
  repairs it. The two happen in one critical section, so only their composition has to keep the
  invariant, and it does when the metatx is registered under that user and nowhere else.
\<close>

lemma evictHeldLocked_wf:
  assumes "service_wf s" "h \<in> set (held_list s key)"
  shows "service_wf (evictHeldLocked key h n s)"
proof (rule service_wfI)
  have "held (evictHeldLocked key h n s) k \<noteq> Some []" for k
    using service_wf_facts(2) [OF assms(1), of k]
    by (auto simp: evictHeldLocked_def unholdLocked_def Let_def upd_held_def)
  then show "registry_wf (evictHeldLocked key h n s)"
    using set_remove1_subset [of h "held_list s key"]
    by (intro registry_wfI)
      (auto simp: service_wf_facts [OF assms(1)] dest: service_wf_dests [OF assms(1)]
        service_wf_dests(3) [OF assms] split: if_splits)
  show "wake_wf (evictHeldLocked key h n s)"
    by (rule wake_wfI)
      (auto simp: evictHeldLocked_closes service_wf_facts [OF assms(1)]
        dest: service_wf_dests [OF assms(1)] split: if_splits)
qed (auto intro: chains_wf_frame [OF assms(1)])

lemma new_grace_timer_frame [simp]:
  "Cfg (new_grace_timer at key c s) = Cfg s"
  "senders (new_grace_timer at key c s) = senders s"
  "held (new_grace_timer at key c s) = held s"
  "userLocks (new_grace_timer at key c s) = userLocks s"
  "rules (new_grace_timer at key c s) = rules s"
  "nodePermitted (new_grace_timer at key c s) = nodePermitted s"
  "handouts (new_grace_timer at key c s) = handouts s"
  "openTickets (new_grace_timer at key c s) = openTickets s"
  "metaTx (new_grace_timer at key c s) = metaTx s"
  "held_heap (new_grace_timer at key c s) = held_heap s"
  "lock_heap (new_grace_timer at key c s) = lock_heap s"
  "ticket_heap (new_grace_timer at key c s) = ticket_heap s"
  "chan_closes (new_grace_timer at key c s) = chan_closes s"
  by (simp_all add: new_grace_timer_def upd_chain_def)

lemma new_grace_timer_writes [simp]:
  "fresh (new_grace_timer at key c s) = Suc (fresh s)"
  "chain_heap (new_grace_timer at key c s) =
     (chain_heap s)(c := (chain_heap s c)\<lparr>expiry := Some (fresh s)\<rparr>)"
  "timer_heap (new_grace_timer at key c s) =
     (timer_heap s)(fresh s := \<lparr>timer_state = Armed at, timer_key = key, timer_chain = c\<rparr>)"
  by (simp_all add: new_grace_timer_def upd_chain_def)

lemma new_grace_timer_wf [intro]:
  assumes "service_wf s" shows "service_wf (new_grace_timer at key c s)"
proof (rule service_wfI)
  show "chains_wf (new_grace_timer at key c s)"
    by (rule chains_wfI)
      (auto simp: less_Suc_eq service_wf_facts [OF assms] dest: service_wf_dests [OF assms]
        split: if_splits)
qed (auto intro: registry_wf_frame [OF assms] wake_wf_frame [OF assms])

lemma pending_decrement_wf:
  assumes "service_wf s" "0 < pending (chain_heap s c)"
  shows "service_wf (upd_chain c (\<lambda>e. e\<lparr>pending := pending e - 1\<rparr>) s)"
proof (rule service_wfI)
  show "chains_wf (upd_chain c (\<lambda>e. e\<lparr>pending := pending e - 1\<rparr>) s)"
    using assms(2)
    by (intro chains_wfI)
      (auto simp: upd_chain_def service_wf_facts [OF assms(1)] dest: service_wf_dests [OF assms(1)]
        split: if_splits)
qed (auto simp: upd_chain_def intro: registry_wf_frame [OF assms(1)] wake_wf_frame [OF assms(1)])

lemma releaseChain_wf [intro]: "service_wf s \<Longrightarrow> service_wf (releaseChain now key chain s)"
  by (auto simp: releaseChain_def Let_def pending_decrement_wf new_grace_timer_wf split: option.split)

lemma upd_timer_state_wf:
  assumes "service_wf s" shows "service_wf (upd_timer t (\<lambda>tm. tm\<lparr>timer_state := x\<rparr>) s)"
  by (rule service_wfI)
    (auto simp: upd_timer_def intro: registry_wf_frame [OF assms] wake_wf_frame [OF assms]
      chains_wf_frame [OF assms])

lemma grace_fires_wf: "service_wf s \<Longrightarrow> grace_fires now t s = Some s' \<Longrightarrow> service_wf s'"
  by (auto simp: grace_fires_def upd_timer_state_wf split: timer_state.splits if_splits)

lemma grace_callback_wf: "service_wf s \<Longrightarrow> grace_callback t s = Some s' \<Longrightarrow> service_wf s'"
  by (auto simp: grace_callback_def Let_def upd_timer_state_wf split: if_splits)

lemma forgetChain_wf [intro]: "service_wf s \<Longrightarrow> service_wf (forgetChain key s)"
  by (auto simp: forgetChain_def split: option.split)

text \<open>The three readers change nothing but the expired chain they drop.\<close>

lemma readers_state [simp]:
  "snd (inflightLocked now key s) = snd (chainLocked now key s)"
  "snd (cachedNonce now from s) = snd (chainLocked now (senderKey from) s)"
  "snd (pendingOf now from s) = snd (chainLocked now (senderKey from) s)"
  by (simp_all add: inflightLocked_def cachedNonce_def pendingOf_def Let_def
      split: prod.splits option.splits)

section \<open>Who is discarded first\<close>

text \<open>
  \<open>highestHeldLocked\<close> scans in order of arrival and replaces its candidate on a nonce that is
  greater or equal, so it ends with the last arrival among the highest nonces.
\<close>

lemma highest_step_simps [simp]:
  "highest_step s None h = Some h"
  "highest_step s (Some g) h =
     (if nonce (held_heap s g) \<le> nonce (held_heap s h) then Some h else Some g)"
  by (simp_all add: highest_step_def)

lemma highest_fold_None: "foldl (highest_step s) None hs = None \<longleftrightarrow> hs = []"
  by (induction hs rule: rev_induct) (auto simp: highest_step_def split: option.splits)

lemma highest_fold_split:
  "foldl (highest_step s) None hs = Some h \<Longrightarrow>
     \<exists>xs ys. hs = xs @ h # ys \<and> (\<forall>g\<in>set xs. nonce (held_heap s g) \<le> nonce (held_heap s h)) \<and>
             (\<forall>g\<in>set ys. nonce (held_heap s g) < nonce (held_heap s h))"
proof (induction hs arbitrary: h rule: rev_induct)
  case Nil
  then show ?case by simp
next
  case (snoc x hs)
  show ?case
  proof (cases "foldl (highest_step s) None hs")
    case None
    then have "hs = []" by (simp add: highest_fold_None)
    with snoc.prems show ?thesis by (auto intro!: exI [of _ "[]"])
  next
    case (Some g)
    from snoc.IH [OF this] obtain xs ys where split: "hs = xs @ g # ys"
        "\<forall>i\<in>set xs. nonce (held_heap s i) \<le> nonce (held_heap s g)"
        "\<forall>i\<in>set ys. nonce (held_heap s i) < nonce (held_heap s g)" by blast
    show ?thesis
    proof (cases "nonce (held_heap s g) \<le> nonce (held_heap s x)")
      case True
      with snoc.prems Some have "h = x" by simp
      with True split show ?thesis
        by (intro exI [of _ hs] exI [of _ "[]"]) (auto intro: order_trans less_imp_le order_less_le_trans)
    next
      case False
      with snoc.prems Some have "h = g" by simp
      with False split show ?thesis
        by (intro exI [of _ xs] exI [of _ "ys @ [x]"]) auto
    qed
  qed
qed

lemma highestHeldLocked_None: "highestHeldLocked key s = None \<longleftrightarrow> held_list s key = []"
  by (simp add: highestHeldLocked_def highest_fold_None)

lemma highestHeldLocked_in: "highestHeldLocked key s = Some h \<Longrightarrow> h \<in> set (held_list s key)"
  unfolding highestHeldLocked_def by (drule highest_fold_split) auto

lemma highestHeldLocked_max:
  "highestHeldLocked key s = Some h \<Longrightarrow> g \<in> set (held_list s key) \<Longrightarrow>
     nonce (held_heap s g) \<le> nonce (held_heap s h)"
  unfolding highestHeldLocked_def by (drule highest_fold_split) (fastforce intro: less_imp_le)

lemma highestHeldLocked_cong:
  assumes "held s' = held s" "\<And>h. nonce (held_heap s' h) = nonce (held_heap s h)"
  shows "highestHeldLocked key s' = highestHeldLocked key s"
proof -
  have "highest_step s' = highest_step s"
    using assms(2) by (auto simp: highest_step_def fun_eq_iff split: option.splits)
  with held_list_cong [OF assms(1)] show ?thesis by (simp add: highestHeldLocked_def)
qed

section \<open>What a reservation does\<close>

text \<open>The chain of a user that is still valid at an instant, and the nonce it expects.\<close>

definition live_chain :: "time \<Rightarrow> RelaySignerService \<Rightarrow> string \<Rightarrow> ref option" where
  "live_chain now s key =
     (case senders s key of
        None \<Rightarrow> None
      | Some c \<Rightarrow> if now - updatedAt (chain_heap s c) > nonceCacheTTL s then None else Some c)"

definition tracker_next :: "time \<Rightarrow> RelaySignerService \<Rightarrow> string \<Rightarrow> uint64 option" where
  "tracker_next now s key = map_option (\<lambda>c. next_nonce (chain_heap s c)) (live_chain now s key)"

definition tracker_pending :: "time \<Rightarrow> RelaySignerService \<Rightarrow> string \<Rightarrow> int" where
  "tracker_pending now s key =
     (case live_chain now s key of None \<Rightarrow> 0 | Some c \<Rightarrow> pending (chain_heap s c))"

lemma fst_chainLocked [simp]: "fst (chainLocked now key s) = live_chain now s key"
  by (auto simp: chainLocked_def live_chain_def split: option.split)

lemma chainLocked_live:
  "chainLocked now key s =
     (live_chain now s key,
      if live_chain now s key = None then (case senders s key of None \<Rightarrow> s | Some c \<Rightarrow> dropLocked key c s) else s)"
  by (auto simp: chainLocked_def live_chain_def split: option.split)

lemma live_chain_sender: "live_chain now s key = Some c \<Longrightarrow> senders s key = Some c"
  by (auto simp: live_chain_def split: option.splits if_splits)

lemma fst_cachedNonce [simp]: "fst (cachedNonce now from s) = tracker_next now s (senderKey from)"
  by (auto simp: cachedNonce_def tracker_next_def chainLocked_live split: option.splits)

lemma fst_inflightLocked [simp]:
  "fst (inflightLocked now key s) = waitingOf key s + tracker_pending now s key"
  by (auto simp: inflightLocked_def tracker_pending_def chainLocked_live split: option.splits)

lemma fst_pendingOf [simp]: "fst (pendingOf now from s) = tracker_pending now s (senderKey from)"
  by (auto simp: pendingOf_def tracker_pending_def chainLocked_live split: option.splits)

lemma cachedNonce_eq:
  "cachedNonce now sender s =
     (tracker_next now s (senderKey sender), snd (chainLocked now (senderKey sender) s))"
  by (rule prod_eqI) simp_all

lemma pendingOf_eq:
  "pendingOf now sender s =
     (tracker_pending now s (senderKey sender), snd (chainLocked now (senderKey sender) s))"
  by (rule prod_eqI) simp_all

lemma nonceCacheTTL_cong: "Cfg s' = Cfg s \<Longrightarrow> nonceCacheTTL s' = nonceCacheTTL s"
  by (simp add: nonceCacheTTL_def)

lemma reserveLocked_live:
  assumes "live_chain now s key = Some c"
  shows "reserveLocked now key n b s =
           (c, touch_chain now c (max (next_nonce (chain_heap s c)) (n + 1)) b s)"
  using assms by (auto simp: reserveLocked_def Let_def chainLocked_live max_def)

lemma reserveLocked_new:
  assumes "live_chain now s key = None"
  shows "reserveLocked now key n b s =
           (fresh s, touch_chain now (fresh s) (n + 1) b (snd (new_chain key (n + 1) (snd (chainLocked now key s)))))"
  using assms by (auto simp: reserveLocked_def Let_def chainLocked_live new_chain_def split: option.splits)

lemma reserveLocked_senders:
  "senders (snd (reserveLocked now key n b s)) =
     (senders s)(key \<mapsto> fst (reserveLocked now key n b s))"
proof (cases "live_chain now s key")
  case None
  then show ?thesis
    by (auto simp: reserveLocked_new new_chain_def chainLocked_live split: option.split)
next
  case (Some c)
  with live_chain_sender [OF this] show ?thesis by (auto simp: reserveLocked_live)
qed

lemma reserveLocked_frame [simp]:
  "Cfg (snd (reserveLocked now key n b s)) = Cfg s"
  "held (snd (reserveLocked now key n b s)) = held s"
  "userLocks (snd (reserveLocked now key n b s)) = userLocks s"
  "rules (snd (reserveLocked now key n b s)) = rules s"
  "nodePermitted (snd (reserveLocked now key n b s)) = nodePermitted s"
  "handouts (snd (reserveLocked now key n b s)) = handouts s"
  "openTickets (snd (reserveLocked now key n b s)) = openTickets s"
  "metaTx (snd (reserveLocked now key n b s)) = metaTx s"
  "held_heap (snd (reserveLocked now key n b s)) = held_heap s"
  "lock_heap (snd (reserveLocked now key n b s)) = lock_heap s"
  "ticket_heap (snd (reserveLocked now key n b s)) = ticket_heap s"
  "chan_closes (snd (reserveLocked now key n b s)) = chan_closes s"
  by (cases "live_chain now s key"; simp add: reserveLocked_live reserveLocked_new new_chain_def)+

lemma reserveLocked_entry:
  assumes "reserveLocked now key n b s = (c, s')"
  shows "chain_heap s' c =
           \<lparr>next_nonce = (case tracker_next now s key of None \<Rightarrow> n + 1 | Some m \<Rightarrow> max m (n + 1)),
            pending = tracker_pending now s key + (if b then 1 else 0), updatedAt = now, expiry = None\<rparr>"
  using assms
  by (cases "live_chain now s key")
    (auto simp: reserveLocked_live reserveLocked_new new_chain_def tracker_next_def tracker_pending_def
      zero_entry_def)

lemma reserveLocked_other_entry:
  assumes "service_wf s" "reserveLocked now key n b s = (c, s')" "senders s k = Some d" "k \<noteq> key"
  shows "chain_heap s' d = chain_heap s d"
proof -
  from assms have "d \<noteq> fresh s" "senders s key \<noteq> Some d" by (auto dest: service_wf_dests)
  with assms(2) show ?thesis
    by (cases "live_chain now s key")
      (auto simp: reserveLocked_live reserveLocked_new new_chain_def chainLocked_live
        dest: live_chain_sender split: option.splits)
qed

text \<open>Reading a chain, which drops it once it expired, changes no answer about any user.\<close>

lemma live_chain_cong:
  "senders s' = senders s \<Longrightarrow> chain_heap s' = chain_heap s \<Longrightarrow> Cfg s' = Cfg s \<Longrightarrow>
     live_chain now s' k = live_chain now s k"
  using nonceCacheTTL_cong [of s' s] by (simp add: live_chain_def split: option.split)

lemma live_chain_chainLocked [simp]:
  assumes "service_wf s"
  shows "live_chain now (snd (chainLocked now key s)) k = live_chain now s k"
proof (cases "k = key")
  case True
  then show ?thesis by (auto simp: live_chain_def chainLocked_def split: option.splits)
next
  case False
  then show ?thesis
    using nonceCacheTTL_cong [of "snd (chainLocked now key s)" s]
    by (auto simp: live_chain_def chainLocked_def split: option.splits dest: service_wf_dests(9) [OF assms])
qed

lemma chain_heap_chainLocked:
  assumes "service_wf s" "live_chain now s k = Some c"
  shows "chain_heap (snd (chainLocked now key s)) c = chain_heap s c"
  using assms(2) live_chain_sender [OF assms(2)]
  by (auto simp: live_chain_def chainLocked_def split: option.splits if_splits
      dest: service_wf_dests(9) [OF assms(1)])

lemma tracker_pending_chainLocked [simp]:
  "service_wf s \<Longrightarrow> tracker_pending now (snd (chainLocked now key s)) k = tracker_pending now s k"
  by (auto simp: tracker_pending_def chain_heap_chainLocked split: option.split)

lemma tracker_next_chainLocked [simp]:
  "service_wf s \<Longrightarrow> tracker_next now (snd (chainLocked now key s)) k = tracker_next now s k"
  by (cases "live_chain now s k") (simp_all add: tracker_next_def chain_heap_chainLocked)

lemma tracker_pending_cong:
  "senders s' = senders s \<Longrightarrow> chain_heap s' = chain_heap s \<Longrightarrow> Cfg s' = Cfg s \<Longrightarrow>
     tracker_pending now s' k = tracker_pending now s k"
  using live_chain_cong [of s' s now k] by (simp add: tracker_pending_def split: option.split)

lemma tracker_next_cong:
  "senders s' = senders s \<Longrightarrow> chain_heap s' = chain_heap s \<Longrightarrow> Cfg s' = Cfg s \<Longrightarrow>
     tracker_next now s' k = tracker_next now s k"
  using live_chain_cong [of s' s now k] by (simp add: tracker_next_def)

section \<open>The tracker as a service to its clients\<close>

text \<open>
  What the code that hands out and checks nonces relies on: reserving moves the expected nonce of
  that user up to one past the reserved one and never down, forgetting makes the tracker silent so
  that the chain of blocks is asked again, and neither touches another user.
\<close>

locale nonce_tracker =
  fixes next_of :: "'s \<Rightarrow> string \<Rightarrow> uint64 option"
    and reserve :: "string \<Rightarrow> uint64 \<Rightarrow> 's \<Rightarrow> 's"
    and forget :: "string \<Rightarrow> 's \<Rightarrow> 's"
    and invar :: "'s \<Rightarrow> bool"
  assumes next_reserve:
      "invar s \<Longrightarrow> next_of (reserve k n s) k =
         Some (case next_of s k of None \<Rightarrow> n + 1 | Some m \<Rightarrow> max m (n + 1))"
    and next_reserve_other: "invar s \<Longrightarrow> k' \<noteq> k \<Longrightarrow> next_of (reserve k n s) k' = next_of s k'"
    and next_forget: "invar s \<Longrightarrow> next_of (forget k s) k = None"
    and next_forget_other: "invar s \<Longrightarrow> k' \<noteq> k \<Longrightarrow> next_of (forget k s) k' = next_of s k'"
    and invar_reserve: "invar s \<Longrightarrow> invar (reserve k n s)"
    and invar_forget: "invar s \<Longrightarrow> invar (forget k s)"
begin

lemma invar_fold_reserve: "invar s \<Longrightarrow> invar (fold (reserve k) ns s)"
  by (induction ns arbitrary: s) (simp_all add: invar_reserve)

text \<open>Reserving never moves the expected nonce down.\<close>

lemma reserve_monotone:
  "invar s \<Longrightarrow> next_of s k = Some m \<Longrightarrow> \<exists>m'. next_of (reserve k n s) k = Some m' \<and> m \<le> m'"
  by (simp add: next_reserve)

text \<open>
  A burst leaves the expected nonce one past its highest, whatever the order of its members and
  however many of them repeat a nonce.
\<close>

lemma next_burst_from:
  assumes "invar s" "next_of s k = Some m"
  shows "next_of (fold (reserve k) ns s) k = Some (fold max (map (\<lambda>n. n + 1) ns) m)"
  using assms
proof (induction ns arbitrary: s m)
  case Nil
  then show ?case by simp
next
  case (Cons n ns)
  have "next_of (reserve k n s) k = Some (max m (n + 1))"
    using Cons.prems by (simp add: next_reserve)
  then show ?case
    using Cons.IH Cons.prems(1) by (simp add: invar_reserve max.commute)
qed

lemma next_burst:
  assumes "invar s" "next_of s k = None"
  shows "next_of (fold (reserve k) (n # ns) s) k = Some (Max (set (map (\<lambda>n. n + 1) (n # ns))))"
proof -
  have "next_of (fold (reserve k) ns (reserve k n s)) k = Some (fold max (map (\<lambda>n. n + 1) ns) (n + 1))"
    using assms by (intro next_burst_from) (simp_all add: next_reserve invar_reserve)
  then show ?thesis by (simp add: Max.set_eq_fold [symmetric] del: Max_insert)
qed

end

definition tracker_ok :: "RelaySignerService \<Rightarrow> bool" where
  "tracker_ok s \<longleftrightarrow> service_wf s \<and> 0 \<le> nonceCacheTTL s"

lemma tracker_next_reserve:
  assumes "tracker_ok s"
  shows "tracker_next now (snd (reserveLocked now k n b s)) k =
           Some (case tracker_next now s k of None \<Rightarrow> n + 1 | Some m \<Rightarrow> max m (n + 1))"
proof -
  obtain c s' where res: "reserveLocked now k n b s = (c, s')" by fastforce
  have cfg: "Cfg s' = Cfg s" and snd': "senders s' = (senders s)(k \<mapsto> c)"
    using reserveLocked_frame(1) [of now k n b s] reserveLocked_senders [of now k n b s]
    by (simp_all add: res)
  from assms nonceCacheTTL_cong [OF cfg] have "0 \<le> nonceCacheTTL s'" by (simp add: tracker_ok_def)
  with reserveLocked_entry [OF res] snd' show ?thesis
    by (auto simp: res tracker_next_def live_chain_def split: option.splits)
qed

lemma tracker_next_reserve_other:
  assumes "tracker_ok s" "k' \<noteq> k"
  shows "tracker_next now (snd (reserveLocked now k n b s)) k' = tracker_next now s k'"
proof -
  obtain c s' where res: "reserveLocked now k n b s = (c, s')" by fastforce
  have cfg: "Cfg s' = Cfg s" and snd': "senders s' = (senders s)(k \<mapsto> c)"
    using reserveLocked_frame(1) [of now k n b s] reserveLocked_senders [of now k n b s]
    by (simp_all add: res)
  have "chain_heap s' d = chain_heap s d" if "senders s k' = Some d" for d
    using reserveLocked_other_entry [OF _ res that] assms by (simp add: tracker_ok_def)
  with assms(2) snd' nonceCacheTTL_cong [OF cfg] show ?thesis
    by (auto simp: res tracker_next_def live_chain_def split: option.splits)
qed

lemma forgetChain_senders [simp]: "senders (forgetChain key s) = (senders s)(key := None)"
  by (auto simp: forgetChain_def split: option.split)

lemma forgetChain_Cfg [simp]: "Cfg (forgetChain key s) = Cfg s"
  by (simp add: forgetChain_def split: option.split)

lemma forgetChain_chain_heap:
  "chain_heap (forgetChain key s) =
     (case senders s key of None \<Rightarrow> chain_heap s
      | Some c \<Rightarrow> (chain_heap s)(c := (chain_heap s c)\<lparr>expiry := None\<rparr>))"
  by (simp add: forgetChain_def split: option.split)

lemma tracker_next_forget: "tracker_next now (forgetChain k s) k = None"
  by (simp add: tracker_next_def live_chain_def)

lemma tracker_next_forget_other: "k' \<noteq> k \<Longrightarrow> tracker_next now (forgetChain k s) k' = tracker_next now s k'"
  using nonceCacheTTL_cong [of "forgetChain k s" s]
  by (auto simp: tracker_next_def live_chain_def forgetChain_chain_heap split: option.splits)

interpretation tracker: nonce_tracker "tracker_next now" "\<lambda>k n s. snd (reserveLocked now k n b s)"
    forgetChain tracker_ok for now :: time and b :: bool
proof unfold_locales
  fix s k n
  assume ok: "tracker_ok s"
  then show "tracker_ok (snd (reserveLocked now k n b s))"
    using nonceCacheTTL_cong [OF reserveLocked_frame(1) [of now k n b s]]
    by (auto simp: tracker_ok_def reserveLocked_wf)
  from ok show "tracker_ok (forgetChain k s)"
    using nonceCacheTTL_cong [OF forgetChain_Cfg [of k s]] by (auto simp: tracker_ok_def forgetChain_wf)
qed (simp_all add: tracker_next_reserve tracker_next_reserve_other tracker_next_forget
    tracker_next_forget_other)

end
