(* ===== verification/Tickets.thy ===== *)
theory Tickets
  imports Service_State
begin

text \<open>
  The tickets of \<open>service/handout.go\<close>: a nonce that was handed out and is not used yet. Closing a
  ticket is what lets the next request of the same user through. The waiting side,
  \<open>HandOutNonce\<close>, is in \<open>Handout\<close>; these operations come first because sending a metatx closes the
  ticket of its nonce.
\<close>

definition ticket_close :: "ref \<Rightarrow> RelaySignerService \<Rightarrow> RelaySignerService" where
  "ticket_close t s = upd_ticket t (\<lambda>tk. tk\<lparr>ticket_closed := True\<rparr>) s"

definition closeTicket :: "string \<Rightarrow> ref \<Rightarrow> RelaySignerService \<Rightarrow> RelaySignerService" where
  "closeTicket key t s =
     (let s1 = ticket_close t s;
          s2 = (if handouts s1 key = Some t then s1\<lparr>handouts := (handouts s1)(key := None)\<rparr> else s1)
      in if openTickets s2 key = Some t then s2\<lparr>openTickets := (openTickets s2)(key := None)\<rparr> else s2)"

definition closeOpenTicket :: "string \<Rightarrow> RelaySignerService \<Rightarrow> RelaySignerService" where
  "closeOpenTicket key s =
     (case openTickets s key of None \<Rightarrow> s | Some t \<Rightarrow> closeTicket key t s)"

definition new_ticket :: "string \<Rightarrow> RelaySignerService \<Rightarrow> ref \<times> RelaySignerService" where
  "new_ticket key s =
     (fresh s,
      s\<lparr>handouts := (handouts s)(key \<mapsto> fresh s),
        ticket_heap := (ticket_heap s)(fresh s := zero_ticket), fresh := Suc (fresh s)\<rparr>)"

lemma closeTicket_frame [simp]:
  "Cfg (closeTicket key t s) = Cfg s"
  "senders (closeTicket key t s) = senders s"
  "held (closeTicket key t s) = held s"
  "userLocks (closeTicket key t s) = userLocks s"
  "rules (closeTicket key t s) = rules s"
  "nodePermitted (closeTicket key t s) = nodePermitted s"
  "metaTx (closeTicket key t s) = metaTx s"
  "chain_heap (closeTicket key t s) = chain_heap s"
  "held_heap (closeTicket key t s) = held_heap s"
  "timer_heap (closeTicket key t s) = timer_heap s"
  "lock_heap (closeTicket key t s) = lock_heap s"
  "chan_closes (closeTicket key t s) = chan_closes s"
  "fresh (closeTicket key t s) = fresh s"
  by (simp_all add: closeTicket_def ticket_close_def upd_ticket_def Let_def)

lemma closeTicket_writes [simp]:
  "handouts (closeTicket key t s) = (if handouts s key = Some t then (handouts s)(key := None) else handouts s)"
  "openTickets (closeTicket key t s) =
     (if openTickets s key = Some t then (openTickets s)(key := None) else openTickets s)"
  "ticket_heap (closeTicket key t s) = (ticket_heap s)(t := (ticket_heap s t)\<lparr>ticket_closed := True\<rparr>)"
  by (simp_all add: closeTicket_def ticket_close_def upd_ticket_def Let_def)

lemma closeOpenTicket_frame [simp]:
  "Cfg (closeOpenTicket key s) = Cfg s"
  "senders (closeOpenTicket key s) = senders s"
  "held (closeOpenTicket key s) = held s"
  "userLocks (closeOpenTicket key s) = userLocks s"
  "rules (closeOpenTicket key s) = rules s"
  "nodePermitted (closeOpenTicket key s) = nodePermitted s"
  "metaTx (closeOpenTicket key s) = metaTx s"
  "chain_heap (closeOpenTicket key s) = chain_heap s"
  "held_heap (closeOpenTicket key s) = held_heap s"
  "timer_heap (closeOpenTicket key s) = timer_heap s"
  "lock_heap (closeOpenTicket key s) = lock_heap s"
  "chan_closes (closeOpenTicket key s) = chan_closes s"
  "fresh (closeOpenTicket key s) = fresh s"
  by (simp_all add: closeOpenTicket_def split: option.split)

end
