(* ===== verification/Rejections.thy ===== *)
theory Rejections
  imports Prelude
begin

text \<open>
  The rejections of \<open>service/prepare.go\<close>: one value that answers in two vocabularies, the numeric
  code of a JSON-RPC client (from the error it wraps) and the symbolic code of a REST client.
\<close>

section \<open>Codes\<close>

definition CodeBadRawTx :: string where "CodeBadRawTx = ''BAD_RAW_TX''"
definition CodeBadMetaTx :: string where "CodeBadMetaTx = ''BAD_META_TX''"
definition CodeSenderNotPermitted :: string where "CodeSenderNotPermitted = ''SENDER_NOT_PERMITTED''"
definition CodePermissioningUnavailable :: string where
  "CodePermissioningUnavailable = ''PERMISSIONING_UNAVAILABLE''"
definition CodeBadNonce :: string where "CodeBadNonce = ''BAD_NONCE''"
definition CodeTooManyInflight :: string where "CodeTooManyInflight = ''TOO_MANY_INFLIGHT''"
definition CodeWrongNodeAddress :: string where "CodeWrongNodeAddress = ''WRONG_NODE_ADDRESS''"
definition CodeExpired :: string where "CodeExpired = ''EXPIRED''"
definition CodeExpirationTooLow :: string where "CodeExpirationTooLow = ''EXPIRATION_TOO_LOW''"
definition CodeSendFailed :: string where "CodeSendFailed = ''SEND_FAILED''"
definition CodeReceiptTimeout :: string where "CodeReceiptTimeout = ''RECEIPT_TIMEOUT''"
definition CodeRelayError :: string where "CodeRelayError = ''RELAY_ERROR''"

lemmas code_defs = CodeBadRawTx_def CodeBadMetaTx_def CodeSenderNotPermitted_def
  CodePermissioningUnavailable_def CodeBadNonce_def CodeTooManyInflight_def CodeWrongNodeAddress_def
  CodeExpired_def CodeExpirationTooLow_def CodeSendFailed_def CodeReceiptTimeout_def CodeRelayError_def

section \<open>Rejections\<close>

text \<open>The values a rejection carries for the client are \<open>fields\<close> of the log vocabulary.\<close>

record Rejection =
  cause :: go_error
  code :: string
  details :: "fields option"

text \<open>An \<open>error\<close> of the relay path: a rejection, or any other error.\<close>

datatype relay_error = Plain go_error | Rejected Rejection

definition Reject :: "go_error \<Rightarrow> string \<Rightarrow> Rejection" where
  "Reject c cd = \<lparr>cause = c, code = cd, details = None\<rparr>"

definition RejectWithDetails :: "go_error \<Rightarrow> string \<Rightarrow> fields \<Rightarrow> Rejection" where
  "RejectWithDetails c cd ds = \<lparr>cause = c, code = cd, details = Some ds\<rparr>"

definition DetailsOf :: "relay_error \<Rightarrow> fields option" where
  "DetailsOf e = (case e of Rejected r \<Rightarrow> details r | Plain _ \<Rightarrow> None)"

definition Error_text :: "relay_error \<Rightarrow> string" where
  "Error_text e = (case e of Rejected r \<Rightarrow> err_text (cause r) | Plain g \<Rightarrow> err_text g)"

definition Unwrap :: "Rejection \<Rightarrow> go_error" where
  "Unwrap r = cause r"

definition ErrorCode :: "Rejection \<Rightarrow> int" where
  "ErrorCode r = (case err_code (cause r) of Some n \<Rightarrow> n | None \<Rightarrow> 0)"

definition CodeOf :: "relay_error \<Rightarrow> string" where
  "CodeOf e = (case e of Rejected r \<Rightarrow> if code r \<noteq> [] then code r else CodeRelayError | Plain _ \<Rightarrow> CodeRelayError)"

lemma CodeOf_Reject [simp]:
  "cd \<noteq> [] \<Longrightarrow> CodeOf (Rejected (Reject c cd)) = cd"
  "cd \<noteq> [] \<Longrightarrow> CodeOf (Rejected (RejectWithDetails c cd ds)) = cd"
  by (simp_all add: CodeOf_def Reject_def RejectWithDetails_def)

lemma DetailsOf_Reject [simp]:
  "DetailsOf (Rejected (Reject c cd)) = None"
  "DetailsOf (Rejected (RejectWithDetails c cd ds)) = Some ds"
  by (simp_all add: DetailsOf_def Reject_def RejectWithDetails_def)

end
