(* ===== verification/Reorder.thy ===== *)
theory Reorder
  imports Tracker Tickets Rejections
begin

text \<open>
  \<open>service/reorder.go\<close>: the gate that bounds how many metatx of a user are in flight or held, the
  check that enforces the bound while waiting, the lock per user, the expected nonce, and the note
  in the tracker once a metatx was sent.
\<close>

section \<open>Prepared metatx\<close>

record PreparedMetaTx =
  From :: Address
  To :: "Address option"
  SigningData :: bytes
  V :: byte
  R :: bytes
  S :: bytes
  Nonce :: uint64
  MetaTxGasLimit :: uint64
  IsDeploy :: bool
  SenderKey :: string

section \<open>Settings and rejections\<close>

definition reorderEnabled :: "RelaySignerService \<Rightarrow> bool" where
  "reorderEnabled s = (case Cfg s of Some c \<Rightarrow> Reorder_Enabled (Reorder c) | None \<Rightarrow> False)"

definition maxInflightPerUser :: "RelaySignerService \<Rightarrow> int" where
  "maxInflightPerUser s =
     (case Cfg s of
        Some c \<Rightarrow> if MaxInflightPerUser (Reorder c) > 0 then MaxInflightPerUser (Reorder c)
                  else DefaultReorderMaxInflightPerUser
      | None \<Rightarrow> DefaultReorderMaxInflightPerUser)"

definition decimal :: "uint64 \<Rightarrow> string" where
  "decimal v = decimal_nat (unat v)"

definition badNonce :: "uint64 \<Rightarrow> uint64 \<Rightarrow> int \<Rightarrow> Rejection" where
  "badNonce expected got pend =
     RejectWithDetails
       (errors_New (''invalid nonce: the RelayHub expects '' @ decimal expected @
          '' for this sender but the metatx carries '' @ decimal got) (- 32000))
       CodeBadNonce
       [(''expected'', DUint expected), (''got'', DUint got), (''pending'', DInt pend)]"

definition tooManyInflight :: "int \<Rightarrow> int \<Rightarrow> Rejection" where
  "tooManyInflight inflight mx =
     RejectWithDetails
       (errors_New (''exceeded the inflight tx limit for this address: '' @ decimal (word_of_int inflight) @
          '' metatx in flight, maximum '' @ decimal (word_of_int mx) @
          ''. Wait for them to be mined before sending more'') (- 32000))
       CodeTooManyInflight
       [(''inflight'', DInt inflight), (''max'', DInt mx)]"

section \<open>The gate and the check while waiting\<close>

definition makeRoomFor ::
    "time \<Rightarrow> string \<Rightarrow> uint64 \<Rightarrow> RelaySignerService \<Rightarrow> (int \<times> bool) \<times> RelaySignerService" where
  "makeRoomFor now key n s =
     (case inflightLocked now key s of
        (inflight, s1) \<Rightarrow>
          if inflight < maxInflightPerUser s1 then ((inflight, True), s1)
          else case highestHeldLocked key s1 of
                 None \<Rightarrow> ((inflight, False), s1)
               | Some highest \<Rightarrow>
                   if n \<ge> nonce (held_heap s1 highest) then ((inflight, False), s1)
                   else ((inflight, True), evictHeldLocked key highest inflight s1))"

definition surplusHeld ::
    "time \<Rightarrow> string \<Rightarrow> ref \<Rightarrow> RelaySignerService \<Rightarrow> (int \<times> bool) \<times> RelaySignerService" where
  "surplusHeld now key h s =
     (case inflightLocked now key s of
        (inflight, s1) \<Rightarrow>
          if inflight \<le> maxInflightPerUser s1 then ((inflight, False), s1)
          else ((inflight, highestHeldLocked key s1 = Some h), s1))"

section \<open>The lock of a user\<close>

text \<open>
  \<open>lockUser\<close> registers the caller under the map's mutex and then blocks on the lock itself; the
  function it returns unlocks and then deregisters. These are the four atomic steps.
\<close>

definition lockUser_enter :: "string \<Rightarrow> RelaySignerService \<Rightarrow> ref \<times> RelaySignerService" where
  "lockUser_enter key s =
     (case userLocks s key of
        Some l \<Rightarrow> (l, upd_lock l (\<lambda>k. k\<lparr>users := users k + 1\<rparr>) s)
      | None \<Rightarrow>
          (fresh s,
           upd_lock (fresh s) (\<lambda>k. k\<lparr>users := users k + 1\<rparr>)
             (s\<lparr>userLocks := (userLocks s)(key \<mapsto> fresh s),
                lock_heap := (lock_heap s)(fresh s := zero_lock), fresh := Suc (fresh s)\<rparr>)))"

definition lockUser_acquire :: "nat \<Rightarrow> ref \<Rightarrow> RelaySignerService \<Rightarrow> RelaySignerService option" where
  "lockUser_acquire pid l s =
     (if holder (lock_heap s l) = None then Some (upd_lock l (\<lambda>k. k\<lparr>holder := Some pid\<rparr>) s) else None)"

definition lockUser_unlock :: "ref \<Rightarrow> RelaySignerService \<Rightarrow> RelaySignerService" where
  "lockUser_unlock l s = upd_lock l (\<lambda>k. k\<lparr>holder := None\<rparr>) s"

definition lockUser_leave :: "string \<Rightarrow> ref \<Rightarrow> RelaySignerService \<Rightarrow> RelaySignerService" where
  "lockUser_leave key l s =
     (let s1 = upd_lock l (\<lambda>k. k\<lparr>users := users k - 1\<rparr>) s
      in if users (lock_heap s1 l) = 0 then s1\<lparr>userLocks := (userLocks s1)(key := None)\<rparr> else s1)"

section \<open>The expected nonce\<close>

text \<open>
  What the node and the Ethereum library answer: the address of the node's key, the result of
  connecting, the nonce of the hub for a user (which may be absent), and the parsing of a hex
  address.
\<close>

record node_env =
  NodeAddress :: "go_error + Address"
  Connect :: "go_error option"
  GetTransactionCount :: "Address \<Rightarrow> Address \<Rightarrow> Address \<Rightarrow> go_error + nat option"
  HexToAddress :: "string \<Rightarrow> Address"

definition hub_not_resolved :: go_error where
  "hub_not_resolved = errors_New ''relayHub contract address not resolved'' (- 32610)"

text \<open>
  The part of \<open>expectedNonce\<close> that asks the chain of blocks. The code dereferences the
  configuration here; \<open>Init\<close> sets it before any request is served, and a missing one reads as a
  hub that was not resolved.
\<close>

definition hub_nonce :: "node_env \<Rightarrow> Config option \<Rightarrow> string \<Rightarrow> go_error + uint64" where
  "hub_nonce env cfg from =
     (case Option.bind cfg (\<lambda>c. RelayHubContractAddress (Application c)) of
        None \<Rightarrow> Inl hub_not_resolved
      | Some hub \<Rightarrow>
          (case NodeAddress env of
             Inl e \<Rightarrow> Inl e
           | Inr node \<Rightarrow>
               (case Connect env of
                  Some e \<Rightarrow> Inl e
                | None \<Rightarrow>
                    (case GetTransactionCount env hub (HexToAddress env from) node of
                       Inl e \<Rightarrow> Inl e
                     | Inr None \<Rightarrow> Inl (errors_New ''could not read the hub nonce'' (- 32000))
                     | Inr (Some n) \<Rightarrow> Inr (word_of_nat n)))))"

definition expectedNonce ::
    "time \<Rightarrow> node_env \<Rightarrow> string \<Rightarrow> RelaySignerService \<Rightarrow> (go_error + uint64) \<times> RelaySignerService" where
  "expectedNonce now env from s =
     (case cachedNonce now from s of
        (Some n, s1) \<Rightarrow> (Inr n, s1)
      | (None, s1) \<Rightarrow> (hub_nonce env (Cfg s1) from, s1))"

section \<open>Noting a sent metatx\<close>

definition noteSent ::
    "time \<Rightarrow> PreparedMetaTx \<Rightarrow> RelaySignerService \<Rightarrow> (ref option \<times> int option) \<times> RelaySignerService" where
  "noteSent now prepared s =
     (if \<not> reorderEnabled s
      then ((None, None), incrementTransactionCount now (SenderKey prepared) (Nonce prepared) s)
      else
        (let key = senderKey (SenderKey prepared);
             s1 = closeOpenTicket key s
         in case reserveLocked now key (Nonce prepared) True s1 of
              (c, s2) \<Rightarrow> ((Some c, Some (pending (chain_heap s2 c))), notifyTurnLocked key s2)))"

section \<open>The operations keep the invariant\<close>

lemma maxInflightPerUser_cong: "Cfg s' = Cfg s \<Longrightarrow> maxInflightPerUser s' = maxInflightPerUser s"
  by (simp add: maxInflightPerUser_def)

lemma maxInflightPerUser_positive: "0 < maxInflightPerUser s"
  by (simp add: maxInflightPerUser_def DefaultReorderMaxInflightPerUser_def split: option.split)

text \<open>How many metatx of a user occupy a place at an instant: held ones and sent ones.\<close>

definition inflight_at :: "time \<Rightarrow> RelaySignerService \<Rightarrow> string \<Rightarrow> int" where
  "inflight_at now s key = int (length (held_list s key)) + tracker_pending now s key"

lemma inflightLocked_eq:
  "inflightLocked now key s = (inflight_at now s key, snd (chainLocked now key s))"
  by (rule prod_eqI) (simp_all add: inflight_at_def waitingOf_def)

lemma highest_chainLocked [simp]:
  "highestHeldLocked key (snd (chainLocked now k s)) = highestHeldLocked key s"
  by (rule highestHeldLocked_cong) simp_all

lemma max_chainLocked [simp]: "maxInflightPerUser (snd (chainLocked now k s)) = maxInflightPerUser s"
  by (rule maxInflightPerUser_cong) simp

lemma makeRoomFor_eq:
  "makeRoomFor now key n s =
     (let s1 = snd (chainLocked now key s); i = inflight_at now s key
      in if i < maxInflightPerUser s then ((i, True), s1)
         else case highestHeldLocked key s of
                None \<Rightarrow> ((i, False), s1)
              | Some h \<Rightarrow> if nonce (held_heap s h) \<le> n then ((i, False), s1)
                          else ((i, True), evictHeldLocked key h i s1))"
  by (simp add: makeRoomFor_def inflightLocked_eq Let_def split: option.split)

lemma surplusHeld_eq:
  "surplusHeld now key h s =
     ((inflight_at now s key,
       inflight_at now s key > maxInflightPerUser s \<and> highestHeldLocked key s = Some h),
      snd (chainLocked now key s))"
  by (auto simp: surplusHeld_def inflightLocked_eq)

lemma makeRoomFor_wf [intro]: "service_wf s \<Longrightarrow> service_wf (snd (makeRoomFor now key n s))"
  by (auto simp: makeRoomFor_eq Let_def split: option.split
      intro!: evictHeldLocked_wf highestHeldLocked_in)

lemma surplusHeld_wf [intro]: "service_wf s \<Longrightarrow> service_wf (snd (surplusHeld now key h s))"
  by (simp add: surplusHeld_eq)

lemma expectedNonce_eq:
  "expectedNonce now env sender s =
     (case tracker_next now s (senderKey sender) of
        Some n \<Rightarrow> Inr n | None \<Rightarrow> hub_nonce env (Cfg s) sender,
      snd (chainLocked now (senderKey sender) s))"
  by (simp add: expectedNonce_def cachedNonce_eq split: option.split)

lemma closeOpenTicket_wf [intro]:
  assumes "service_wf s" shows "service_wf (closeOpenTicket key s)"
  by (rule service_wfI)
    (auto intro: registry_wf_frame [OF assms] wake_wf_frame [OF assms] chains_wf_frame [OF assms])

lemma noteSent_wf [intro]: "service_wf s \<Longrightarrow> service_wf (snd (noteSent now prepared s))"
  by (auto simp: noteSent_def incrementTransactionCount_def Let_def
      intro!: notifyTurnLocked_wf split: prod.split)
    (metis closeOpenTicket_wf reserveLocked_wf snd_conv)

lemma lock_steps_wf:
  assumes "service_wf s"
  shows "service_wf (snd (lockUser_enter key s))"
    and "lockUser_acquire pid l s = Some s' \<Longrightarrow> service_wf s'"
    and "service_wf (lockUser_unlock l s)"
    and "service_wf (lockUser_leave key l s)"
  by (rule service_wfI;
      auto simp: lockUser_enter_def lockUser_acquire_def lockUser_unlock_def lockUser_leave_def
        upd_lock_def Let_def split: option.splits if_splits
        intro: registry_wf_frame [OF assms] wake_wf_frame [OF assms] chains_wf_frame [OF assms])+

section \<open>Values for concrete runs\<close>

text \<open>
  A node that answers 3 as the nonce of the hub for everybody, a metatx of one user with a given
  nonce, a service with the sample configuration, and the same service holding nonces 5 and 7.
\<close>

definition sample_env :: node_env where
  "sample_env =
     \<lparr>NodeAddress = Inr 7, Connect = None, GetTransactionCount = (\<lambda>_ _ _. Inr (Some 3)), HexToAddress = (\<lambda>_. 9)\<rparr>"

definition sample_tx :: "uint64 \<Rightarrow> PreparedMetaTx" where
  "sample_tx n =
     \<lparr>From = 9, To = Some 2, SigningData = [], V = 27, R = [], S = [], Nonce = n, MetaTxGasLimit = 100000,
      IsDeploy = False, SenderKey = ''u''\<rparr>"

definition sample_service :: RelaySignerService where
  "sample_service = new_service (Some sample_config)"

definition sample_holding :: RelaySignerService where
  "sample_holding = snd (hold ''u'' 7 (snd (hold ''u'' 5 sample_service)))"

lemmas sample_defs = sample_env_def sample_tx_def sample_service_def sample_holding_def sample_config_def
  new_service_def config_defaults

lemma senderKey_u [simp]: "senderKey ''u'' = ''u''"
  by (simp add: senderKey_def ToLower_def to_lower_char_def)

lemma sample_service_wf: "service_wf sample_service"
  by (simp add: sample_service_def new_service_wf)

lemma sample_holding_wf: "service_wf sample_holding"
  unfolding sample_holding_def by (intro hold_wf sample_service_wf)

lemma sample_holding_facts [simp]:
  "held_list sample_holding ''u'' = [0, Suc 0]"
  "nonce (held_heap sample_holding 0) = 5" "nonce (held_heap sample_holding (Suc 0)) = 7"
  "maxInflightPerUser sample_holding = 1" "inflight_at now sample_holding ''u'' = 2"
  by (simp_all add: sample_holding_def sample_service_def new_service_def hold_def held_list_def
      maxInflightPerUser_def sample_config_def config_defaults inflight_at_def tracker_pending_def
      live_chain_def)

section \<open>Who is discarded when a user is at the cap\<close>

text \<open>
  C22: with the cap reached, a metatx is let in only by discarding a held one with a strictly higher
  nonce. The victim has the highest nonce of that user, and among equal nonces it is the one that
  arrived last; it leaves the registry, is marked with the count that justified it, and the held
  metatx of every other user stay as they were.
\<close>

theorem makeRoomFor_evicts_highest:
  assumes "service_wf s" "makeRoomFor now key n s = ((inflight, True), s')"
    "maxInflightPerUser s \<le> inflight"
  shows "inflight = inflight_at now s key \<and>
    (\<exists>h xs ys. held_list s key = xs @ h # ys \<and> held_list s' key = xs @ ys \<and>
       n < nonce (held_heap s h) \<and>
       (\<forall>g\<in>set xs. nonce (held_heap s g) \<le> nonce (held_heap s h)) \<and>
       (\<forall>g\<in>set ys. nonce (held_heap s g) < nonce (held_heap s h)) \<and>
       evicted (held_heap s' h) \<and> evictedInflight (held_heap s' h) = inflight) \<and>
    (\<forall>k. k \<noteq> key \<longrightarrow> held_list s' k = held_list s k)"
proof (intro conjI)
  from assms obtain h where i: "inflight = inflight_at now s key"
    and h: "highestHeldLocked key s = Some h" "n < nonce (held_heap s h)"
    and s': "s' = evictHeldLocked key h inflight (snd (chainLocked now key s))"
    by (auto simp: makeRoomFor_eq Let_def split: if_splits option.splits)
  from i show "inflight = inflight_at now s key" .
  from h(1) obtain xs ys where split: "held_list s key = xs @ h # ys"
      "\<forall>g\<in>set xs. nonce (held_heap s g) \<le> nonce (held_heap s h)"
      "\<forall>g\<in>set ys. nonce (held_heap s g) < nonce (held_heap s h)"
    unfolding highestHeldLocked_def by (blast dest: highest_fold_split)
  have "distinct (held_list s key)" by (rule service_wf_facts(1) [OF assms(1)])
  with split(1) have "remove1 h (held_list s key) = xs @ ys" by (auto simp: remove1_append)
  with split h(2) s' show "\<exists>h xs ys. held_list s key = xs @ h # ys \<and> held_list s' key = xs @ ys \<and>
      n < nonce (held_heap s h) \<and>
      (\<forall>g\<in>set xs. nonce (held_heap s g) \<le> nonce (held_heap s h)) \<and>
      (\<forall>g\<in>set ys. nonce (held_heap s g) < nonce (held_heap s h)) \<and>
      evicted (held_heap s' h) \<and> evictedInflight (held_heap s' h) = inflight"
    by (intro exI [of _ h] exI [of _ xs] exI [of _ ys]) simp
  from s' show "\<forall>k. k \<noteq> key \<longrightarrow> held_list s' k = held_list s k" by simp
qed

lemma highest_sample: "highestHeldLocked ''u'' sample_holding = Some 1"
  by (simp add: highestHeldLocked_def)

theorem makeRoomFor_evicts_highest_witness:
  "\<exists>s'. makeRoomFor 0 ''u'' 6 sample_holding = ((2, True), s') \<and> held_list s' ''u'' = [0] \<and>
        evicted (held_heap s' 1)"
proof -
  obtain s' where s': "makeRoomFor 0 ''u'' 6 sample_holding = ((2, True), s')"
    by (simp add: makeRoomFor_eq Let_def highest_sample)
  from makeRoomFor_evicts_highest [OF sample_holding_wf s'] obtain h xs ys where
      "[0, Suc 0] = xs @ h # ys" "held_list s' ''u'' = xs @ ys" "6 < nonce (held_heap sample_holding h)"
      "evicted (held_heap s' h)"
    by auto
  with s' show ?thesis by (auto simp: Cons_eq_append_conv)
qed

text \<open>
  A metatx is turned away at the gate exactly when its user is at the cap and no held metatx of
  that user has a higher nonce, and then nothing is evicted.
\<close>

theorem makeRoomFor_refuses_iff:
  "snd (fst (makeRoomFor now key n s)) = False \<longleftrightarrow>
     maxInflightPerUser s \<le> inflight_at now s key \<and>
     (\<forall>h\<in>set (held_list s key). nonce (held_heap s h) \<le> n)"
proof (cases "highestHeldLocked key s")
  case None
  then have "held_list s key = []" by (simp add: highestHeldLocked_None)
  with None show ?thesis by (auto simp: makeRoomFor_eq Let_def)
next
  case (Some h)
  then have "(\<forall>g\<in>set (held_list s key). nonce (held_heap s g) \<le> n) \<longleftrightarrow> nonce (held_heap s h) \<le> n"
    using highestHeldLocked_in [OF Some] highestHeldLocked_max [OF Some] by (auto intro: order_trans)
  with Some show ?thesis by (auto simp: makeRoomFor_eq Let_def)
qed

theorem makeRoomFor_refuses_iff_witness:
  "snd (fst (makeRoomFor 0 ''u'' 9 sample_holding)) = False \<and> snd (fst (makeRoomFor 0 ''u'' 6 sample_holding)) = True"
  using makeRoomFor_refuses_iff [of 0 "''u''" 9 sample_holding] makeRoomFor_refuses_iff [of 0 "''u''" 6 sample_holding]
  by simp

text \<open>
  C23: the check made while waiting limits itself. Once a user is over the cap and has a held metatx,
  exactly one of the held ones is told that it is the surplus.
\<close>

theorem surplusHeld_exactly_one:
  assumes "maxInflightPerUser s < inflight_at now s key" "held_list s key \<noteq> []"
  shows "\<exists>!h. h \<in> set (held_list s key) \<and> snd (fst (surplusHeld now key h s))"
proof -
  from assms(2) obtain h where "highestHeldLocked key s = Some h"
    using highestHeldLocked_None by blast
  then show ?thesis
    using assms(1) by (intro ex1I [of _ h]) (auto simp: surplusHeld_eq intro: highestHeldLocked_in)
qed

theorem surplusHeld_exactly_one_witness:
  "(1 :: int) < 2 \<and> (\<exists>!h. h \<in> {0, 1} \<and> snd (fst (surplusHeld 0 ''u'' h sample_holding)))"
  using surplusHeld_exactly_one [of sample_holding 0 "''u''"] by simp

section \<open>The cap converges\<close>

text \<open>
  A burst may pass the gate together and leave a user over the cap. One round of the wait of the
  metatx that is the surplus: it asks, is told so, and leaves the registry.
\<close>

inductive cap_step :: "time \<Rightarrow> string \<Rightarrow> RelaySignerService \<Rightarrow> RelaySignerService \<Rightarrow> bool" for now key where
  surplus_leaves: "h \<in> set (held_list s key) \<Longrightarrow> surplusHeld now key h s = ((inflight, True), s1) \<Longrightarrow>
     cap_step now key s (unhold key h s1)"

inductive_cases cap_stepE: "cap_step now key s s'"

lemma held_list_unhold [simp]:
  "held_list (unhold key h s) k = (if k = key then remove1 h (held_list s key) else held_list s k)"
  by (simp add: unhold_def)

lemma unhold_frame [simp]:
  "Cfg (unhold key h s) = Cfg s" "senders (unhold key h s) = senders s"
  "chain_heap (unhold key h s) = chain_heap s" "held_heap (unhold key h s) = held_heap s"
  "fresh (unhold key h s) = fresh s" "chan_closes (unhold key h s) = chan_closes s"
  "userLocks (unhold key h s) = userLocks s" "lock_heap (unhold key h s) = lock_heap s"
  "metaTx (unhold key h s) = metaTx s" "timer_heap (unhold key h s) = timer_heap s"
  by (simp_all add: unhold_def)

lemma unhold_wf [intro]: "service_wf s \<Longrightarrow> service_wf (unhold key h s)"
  by (simp add: unhold_def)

lemma cap_step_facts:
  assumes "service_wf s" "cap_step now key s s'"
  shows "service_wf s'" "maxInflightPerUser s < inflight_at now s key"
    "inflight_at now s' key = inflight_at now s key - 1"
    "maxInflightPerUser s' = maxInflightPerUser s" "held_heap s' = held_heap s"
    "\<exists>h. highestHeldLocked key s = Some h \<and> held_list s' key = remove1 h (held_list s key)"
proof -
  from assms(2) obtain h where h: "h \<in> set (held_list s key)" "highestHeldLocked key s = Some h"
      "maxInflightPerUser s < inflight_at now s key" "s' = unhold key h (snd (chainLocked now key s))"
    by (auto elim!: cap_stepE simp: surplusHeld_eq)
  from h(4) assms(1) show "service_wf s'" by auto
  from h(3) show "maxInflightPerUser s < inflight_at now s key" .
  from h(4) show "maxInflightPerUser s' = maxInflightPerUser s" by (intro maxInflightPerUser_cong) simp
  from h(4) show "held_heap s' = held_heap s" by simp
  from h show "\<exists>h. highestHeldLocked key s = Some h \<and> held_list s' key = remove1 h (held_list s key)"
    by auto
  have "tracker_pending now s' key = tracker_pending now s key"
    using tracker_pending_cong [of s' "snd (chainLocked now key s)" now key] h(4) assms(1) by simp
  moreover have "length (held_list s key) = Suc (length (held_list s' key))"
    using h(1,4) by (simp add: Suc_length_remove1)
  ultimately show "inflight_at now s' key = inflight_at now s key - 1" by (simp add: inflight_at_def)
qed

lemma cap_steps_facts:
  assumes "(cap_step now key)\<^sup>*\<^sup>* s s'" "service_wf s"
  shows "service_wf s' \<and> maxInflightPerUser s' = maxInflightPerUser s \<and> held_heap s' = held_heap s \<and>
    set (held_list s' key) \<subseteq> set (held_list s key) \<and>
    (\<forall>g\<in>set (held_list s' key). \<forall>d\<in>set (held_list s key) - set (held_list s' key).
       nonce (held_heap s g) \<le> nonce (held_heap s d)) \<and>
    min (inflight_at now s key) (maxInflightPerUser s) \<le> inflight_at now s' key"
  using assms
proof (induction rule: rtranclp_induct)
  case base
  then show ?case by simp
next
  case (step s1 s2)
  then have ih: "service_wf s1" "held_heap s1 = held_heap s" "set (held_list s1 key) \<subseteq> set (held_list s key)"
      "maxInflightPerUser s1 = maxInflightPerUser s" 
      "\<forall>g\<in>set (held_list s1 key). \<forall>d\<in>set (held_list s key) - set (held_list s1 key).
         nonce (held_heap s g) \<le> nonce (held_heap s d)" by auto
  note f = cap_step_facts [OF ih(1) step.hyps(2)]
  from f(6) obtain h where h: "highestHeldLocked key s1 = Some h"
      "held_list s2 key = remove1 h (held_list s1 key)" by blast
  have set2: "set (held_list s2 key) = set (held_list s1 key) - {h}"
    using h(2) service_wf_facts(1) [OF ih(1)] by (simp add: set_remove1_eq)
  have "nonce (held_heap s g) \<le> nonce (held_heap s h)" if "g \<in> set (held_list s2 key)" for g
    using highestHeldLocked_max [OF h(1)] that set2 ih(2) by simp
  with ih f set2 show ?case by (auto simp: min_def)
qed

text \<open>
  C24: the cap is enforced while waiting and converges. From any reachable overflow the rounds of the
  wait come to an end, and when none of the held metatx is told any more that it is the surplus,
  the user is within the cap or has nothing held; the ones that were discarded are the ones with the
  highest nonces, so no kept metatx waits for a discarded one.
\<close>

theorem cap_converges_to_lowest_nonces:
  assumes "service_wf s"
  shows "\<exists>s'. (cap_step now key)\<^sup>*\<^sup>* s s' \<and> (\<nexists>s''. cap_step now key s' s'') \<and>
    (inflight_at now s' key \<le> maxInflightPerUser s \<or> held_list s' key = []) \<and>
    min (inflight_at now s key) (maxInflightPerUser s) \<le> inflight_at now s' key \<and>
    (\<forall>g\<in>set (held_list s' key). \<forall>d\<in>set (held_list s key) - set (held_list s' key).
       nonce (held_heap s g) \<le> nonce (held_heap s d))"
proof -
  have "\<exists>s'. (cap_step now key)\<^sup>*\<^sup>* s s' \<and> (\<nexists>s''. cap_step now key s' s'')"
    using assms
  proof (induction "length (held_list s key)" arbitrary: s rule: less_induct)
    case less
    show ?case
    proof (cases "\<exists>s1. cap_step now key s s1")
      case True
      then obtain s1 where s1: "cap_step now key s s1" by blast
      from cap_step_facts(6) [OF less.prems s1]
      have "length (held_list s1 key) < length (held_list s key)"
        by (metis highestHeldLocked_in Suc_length_remove1 lessI)
      from less.hyps [OF this cap_step_facts(1) [OF less.prems s1]] s1 show ?thesis
        by (blast intro: converse_rtranclp_into_rtranclp)
    qed blast
  qed
  then obtain s' where s': "(cap_step now key)\<^sup>*\<^sup>* s s'" "\<nexists>s''. cap_step now key s' s''" by blast
  note f = cap_steps_facts [OF s'(1) assms]
  have "inflight_at now s' key \<le> maxInflightPerUser s" if "held_list s' key \<noteq> []"
  proof (rule ccontr)
    assume "\<not> ?thesis"
    moreover from that obtain h where h: "highestHeldLocked key s' = Some h"
      using highestHeldLocked_None by blast
    ultimately have "surplusHeld now key h s' = ((inflight_at now s' key, True), snd (chainLocked now key s'))"
      using f by (simp add: surplusHeld_eq)
    with s'(2) highestHeldLocked_in [OF h] show False by (blast intro: cap_step.intros)
  qed
  with s' f show ?thesis by blast
qed

theorem cap_converges_to_lowest_nonces_witness:
  "\<exists>s'. (cap_step 0 ''u'')\<^sup>*\<^sup>* sample_holding s' \<and> 1 \<le> inflight_at 0 s' ''u''"
  using cap_converges_to_lowest_nonces [OF sample_holding_wf, of 0 "''u''"] by auto

end
