(* ===== verification/Revert.thy ===== *)
theory Revert
  imports Prelude
begin

text \<open>
  Reading why a metatx failed (\<open>service/relaySignerService.go\<close>): the revert reason in the output
  of the inner call and the name of the hub's error code.

  The functions of go-ethereum the sources call on bytes, addresses and hashes are not part of the
  repository. They are the fields of \<open>eth_lib\<close>, and \<open>encode_ok\<close> is what the documentation of \<open>hexutil.Encode\<close>
  promises.
\<close>

section \<open>The Ethereum library\<close>

record eth_lib =
  hexutil_Encode :: "bytes \<Rightarrow> string"
  Address_Hex :: "Address \<Rightarrow> string"
  Hash_Hex :: "Hash \<Rightarrow> string"
  BytesToAddress :: "bytes \<Rightarrow> Address"
  HexToHash :: "string \<Rightarrow> Hash"
  Keccak256 :: "bytes \<Rightarrow> bytes"
  unpack_TransactionRelayed :: "bytes \<Rightarrow> bool \<times> bytes"
  unpack_BadTransactionSent :: "bytes \<Rightarrow> byte \<times> Address"

text \<open>\<open>hexutil.Encode\<close> renders bytes in hexadecimal with a \<open>0x\<close> in front.\<close>

definition encode_ok :: "eth_lib \<Rightarrow> bool" where
  "encode_ok lib \<longleftrightarrow> (\<forall>bs. hexutil_Encode lib bs = ''0x'' @ hex_EncodeToString bs)"

text \<open>\<open>copy_slice xs lo hi\<close> is the Go slice expression \<open>xs[lo:hi]\<close>, which panics out of range.\<close>

definition copy_slice :: "'a list \<Rightarrow> nat \<Rightarrow> nat \<Rightarrow> 'a list go_result" where
  "copy_slice xs lo hi =
     (if lo \<le> hi \<and> hi \<le> length xs then Returns (take (hi - lo) (drop lo xs))
      else Panics ''slice bounds out of range'')"

section \<open>Custom errors\<close>

datatype arg_type = ArgAddress | ArgUint256

definition knownCustomErrors :: "string \<Rightarrow> (string \<times> arg_type list) option" where
  "knownCustomErrors =
     map_of
       [(''0xe450d38c'', (''ERC20InsufficientBalance'', [ArgAddress, ArgUint256, ArgUint256])),
        (''0xfb8f41b2'', (''ERC20InsufficientAllowance'', [ArgAddress, ArgUint256, ArgUint256])),
        (''0x96c6fd1e'', (''ERC20InvalidSender'', [ArgAddress])),
        (''0xec442f05'', (''ERC20InvalidReceiver'', [ArgAddress])),
        (''0xe602df05'', (''ERC20InvalidApprover'', [ArgAddress])),
        (''0x94280d62'', (''ERC20InvalidSpender'', [ArgAddress])),
        (''0x118cdaa7'', (''OwnableUnauthorizedAccount'', [ArgAddress])),
        (''0x1e4fbdf7'', (''OwnableInvalidOwner'', [ArgAddress]))]"

definition format_arg :: "eth_lib \<Rightarrow> arg_type \<Rightarrow> bytes \<Rightarrow> string" where
  "format_arg lib t word =
     (case t of
        ArgAddress \<Rightarrow> Address_Hex lib (BytesToAddress lib word)
      | ArgUint256 \<Rightarrow> decimal_nat (big_of_bytes word))"

fun format_args :: "eth_lib \<Rightarrow> arg_type list \<Rightarrow> bytes \<Rightarrow> string list" where
  "format_args lib [] args = []"
| "format_args lib (t # ts) args = format_arg lib t (take 32 args) # format_args lib ts (drop 32 args)"

definition decodeKnownCustomError :: "eth_lib \<Rightarrow> string \<Rightarrow> bytes \<Rightarrow> string" where
  "decodeKnownCustomError lib selector out =
     (case knownCustomErrors selector of
        None \<Rightarrow> []
      | Some (name, types) \<Rightarrow>
          (let args = drop 4 out
           in if length args < length types * 32 then []
              else name @ ''('' @ Join '', '' (format_args lib types args) @ '')''))"

section \<open>Revert reasons\<close>

definition reverted :: string where "reverted = ''execution reverted''"

text \<open>The part after the switch on the selector.\<close>

definition decode_custom :: "eth_lib \<Rightarrow> bytes \<Rightarrow> string" where
  "decode_custom lib out =
     (let selector = hexutil_Encode lib (take 4 out);
          decoded = decodeKnownCustomError lib selector out
      in if decoded \<noteq> [] then reverted @ '': '' @ decoded
         else reverted @ '' (custom error '' @ selector @ ''): '' @ hexutil_Encode lib out)"

definition string_of_bytes :: "bytes \<Rightarrow> string" where
  "string_of_bytes bs = map (\<lambda>b. char_of (unat b)) bs"

definition decodeRevertReason :: "eth_lib \<Rightarrow> bytes \<Rightarrow> string go_result" where
  "decodeRevertReason lib out =
     (if out = [] then Returns (reverted @ '' (sin motivo)'')
      else if length out < 4 then Returns (reverted @ '': '' @ hexutil_Encode lib out)
      else
        let selector = hexutil_Encode lib (take 4 out) in
        if selector = ''0x08c379a0'' then
          (if 68 \<le> length out then
             (let len = (word_of_nat (big_of_bytes (take 32 (drop 36 out))) :: uint64);
                  hi = 68 + len
              in if word_of_nat (length out) \<ge> hi
                 then (case copy_slice out 68 (unat hi) of
                         Returns text \<Rightarrow> Returns (reverted @ '': '' @ string_of_bytes text)
                       | Panics why \<Rightarrow> Panics why)
                 else Returns (decode_custom lib out))
           else Returns (decode_custom lib out))
        else if selector = ''0x4e487b71'' then
          (if 36 \<le> length out
           then Returns (reverted @ '': panic(0x'' @ hex_nat (big_of_bytes (take 32 (drop 4 out))) @ '')'')
           else Returns (decode_custom lib out))
        else Returns (decode_custom lib out))"

section \<open>Error codes of the hub\<close>

definition error_names :: "string list" where
  "error_names =
     [''MaxBlockGasLimit'', ''BadOriginalSender'', ''BadNonce'', ''NotEnoughGas'', ''IsNotContract'',
      ''EmptyCode'', ''InvalidSignature'', ''InvalidDestination'', ''OK'']"

definition errorCodeName :: "byte \<Rightarrow> string" where
  "errorCodeName code =
     (if unat code < length error_names then error_names ! unat code
      else ''Unknown('' @ decimal_nat (unat code) @ '')'')"

section \<open>When the decoder panics\<close>

lemma copy_slice_panics: "(\<exists>why. copy_slice xs lo hi = Panics why) \<longleftrightarrow> \<not> (lo \<le> hi \<and> hi \<le> length xs)"
  by (simp add: copy_slice_def)

text \<open>
  The length word of an \<open>Error(string)\<close> output is cut to 64 bits and 68 is added to it with
  wrap-around, so a length close to the top passes the check of the bounds and then slices backwards.
\<close>

lemma length_check_wraps:
  fixes len :: uint64
  assumes "68 \<le> n" "n < 2 ^ 64"
  shows "word_of_nat n \<ge> 68 + len \<and> \<not> (68 \<le> unat (68 + len) \<and> unat (68 + len) \<le> n) \<longleftrightarrow>
         2 ^ 64 - 68 \<le> unat len"
proof -
  have n: "unat (word_of_nat n :: uint64) = n" using assms(2) by (simp add: unat_of_nat)
  have lt: "unat len < 2 ^ 64" using unsigned_less [of len] by simp
  show ?thesis
  proof (cases "2 ^ 64 - 68 \<le> unat len")
    case True
    have "(68 + unat len) mod 2 ^ 64 = 68 + unat len - 2 ^ 64"
      using True lt by (simp add: mod_if)
    then have "unat (68 + len) = 68 + unat len - 2 ^ 64"
      by (simp add: unat_word_ariths(1))
    with True lt n assms(1) show ?thesis by (simp add: word_le_nat_alt) arith
  next
    case False
    then have "unat (68 + len) = 68 + unat len"
      by (simp add: unat_word_ariths(1))
    with False n show ?thesis by (simp add: word_le_nat_alt)
  qed
qed

text \<open>
  C32: reading the revert reason of a metatx panics exactly when the output starts with the selector of
  \<open>Error(string)\<close>, is long enough to have a length word, and that word, cut to 64 bits, is one of
  the 68 largest values. Every other output, however malformed, is turned into text.
\<close>

theorem decodeRevertReason_panics_iff:
  assumes "length out < 2 ^ 64"
  shows "(\<exists>why. decodeRevertReason lib out = Panics why) \<longleftrightarrow>
    68 \<le> length out \<and> hexutil_Encode lib (take 4 out) = ''0x08c379a0'' \<and>
    2 ^ 64 - 68 \<le> unat (word_of_nat (big_of_bytes (take 32 (drop 36 out))) :: uint64)"
proof (cases "68 \<le> length out \<and> hexutil_Encode lib (take 4 out) = ''0x08c379a0''")
  case True
  let ?len = "word_of_nat (big_of_bytes (take 32 (drop 36 out))) :: uint64"
  have "(\<exists>why. decodeRevertReason lib out = Panics why) \<longleftrightarrow>
      word_of_nat (length out) \<ge> 68 + ?len \<and> (\<exists>why. copy_slice out 68 (unat (68 + ?len)) = Panics why)"
    using True by (auto simp: decodeRevertReason_def Let_def split: go_result.split)
  then show ?thesis
    using True length_check_wraps [OF _ assms, of ?len] by (simp only: copy_slice_panics) simp
next
  case False
  then show ?thesis by (auto simp: decodeRevertReason_def Let_def)
qed

text \<open>A library for concrete runs: hexadecimal as documented, addresses by their
  last twenty bytes, and a digest that keeps one byte.\<close>

definition sample_lib :: eth_lib where
  "sample_lib =
     \<lparr>hexutil_Encode = (\<lambda>bs. ''0x'' @ hex_EncodeToString bs),
      Address_Hex = (\<lambda>a. ''0x'' @ hex_EncodeToString (be_bytes 20 (unat a))),
      Hash_Hex = (\<lambda>h. ''0x'' @ hex_EncodeToString [ucast h]),
      BytesToAddress = (\<lambda>bs. word_of_nat (big_of_bytes bs)),
      HexToHash = (\<lambda>s. 0), Keccak256 = take 1,
      unpack_TransactionRelayed = (\<lambda>bs. (bs \<noteq> [], [])),
      unpack_BadTransactionSent = (\<lambda>bs. (2, 9))\<rparr>"

lemma encode_ok_sample: "encode_ok sample_lib"
  by (simp add: encode_ok_def sample_lib_def)

definition error_selector :: bytes where
  "error_selector = [0x08, 0xc3, 0x79, 0xa0]"

lemma hex_error_selector: "hex_EncodeToString error_selector = ''08c379a0''"
  by code_simp

text \<open>An output of 68 bytes whose length word is the largest 64 bit number.\<close>

definition hostile_output :: bytes where
  "hostile_output = error_selector @ be_bytes 32 32 @ be_bytes 32 (2 ^ 64 - 1)"

theorem decodeRevertReason_panics_iff_witness:
  "length hostile_output < 2 ^ 64 \<and> (\<exists>why. decodeRevertReason sample_lib hostile_output = Panics why)"
proof
  show len: "length hostile_output < 2 ^ 64" by (simp add: hostile_output_def error_selector_def)
  have "take 4 hostile_output = error_selector" by (simp add: hostile_output_def error_selector_def)
  moreover have "take 32 (drop 36 hostile_output) = be_bytes 32 (2 ^ 64 - 1)"
    by (simp add: hostile_output_def error_selector_def)
  moreover have "unat (word_of_nat (big_of_bytes (be_bytes 32 (2 ^ 64 - 1))) :: uint64) = 2 ^ 64 - 1"
    unfolding big_of_be_bytes by (simp add: unat_of_nat)
  moreover have "68 \<le> length hostile_output" by (simp add: hostile_output_def error_selector_def)
  moreover have "hexutil_Encode sample_lib error_selector = ''0x08c379a0''"
    by (simp add: sample_lib_def hex_error_selector)
  ultimately show "\<exists>why. decodeRevertReason sample_lib hostile_output = Panics why"
    using decodeRevertReason_panics_iff [OF len, of sample_lib] by simp
qed

section \<open>Round trip\<close>

text \<open>The ABI encoding of \<open>Error(string)\<close>: selector, offset of the string, its length, its bytes.\<close>

definition encode_Error :: "bytes \<Rightarrow> bytes \<Rightarrow> bytes" where
  "encode_Error message padding =
     error_selector @ be_bytes 32 32 @ be_bytes 32 (length message) @ message @ padding"

text \<open>
  A reason that a contract gave is read back unchanged, with any padding behind it.
\<close>

theorem decodeRevertReason_roundtrip:
  assumes "encode_ok lib" "length message + length padding < 2 ^ 63"
  shows "decodeRevertReason lib (encode_Error message padding) =
           Returns (reverted @ '': '' @ string_of_bytes message)"
proof -
  let ?out = "encode_Error message padding"
  have sel: "hexutil_Encode lib (take 4 ?out) = ''0x08c379a0''"
    using assms(1) hex_error_selector by (simp add: encode_ok_def encode_Error_def error_selector_def)
  have len: "length ?out = 68 + length message + length padding"
    by (simp add: encode_Error_def error_selector_def)
  have word: "big_of_bytes (take 32 (drop 36 ?out)) = length message"
    using assms(2) by (simp add: encode_Error_def error_selector_def big_of_be_bytes del: be_bytes.simps)
  have small: "length message < 2 ^ 63" "length ?out < 2 ^ 64" using assms(2) len by simp_all
  have hi: "unat (68 + word_of_nat (length message) :: uint64) = 68 + length message"
    using small by (simp add: unat_word_ariths(1) unat_of_nat)
  have guard: "word_of_nat (length ?out) \<ge> (68 + word_of_nat (length message) :: uint64)"
  proof -
    have "unat (word_of_nat (length ?out) :: uint64) = length ?out"
      using small(2) by (simp only: unat_of_nat) simp
    then show ?thesis using len by (simp add: word_le_nat_alt hi del: of_nat_add of_nat_numeral)
  qed
  have "copy_slice ?out 68 (68 + length message) = Returns message"
    using len by (simp add: copy_slice_def encode_Error_def error_selector_def)
  then show ?thesis
    using sel len word guard hi by (auto simp: decodeRevertReason_def Let_def)
qed

theorem decodeRevertReason_roundtrip_witness:
  "decodeRevertReason sample_lib (encode_Error [72, 105] []) = Returns ''execution reverted: Hi''"
proof -
  have "string_of_bytes [72, 105] = ''Hi''" by (simp add: string_of_bytes_def char_of_def bit_iff_odd)
  then show ?thesis
    using decodeRevertReason_roundtrip [OF encode_ok_sample, of "[72, 105]" "[]"] by (simp add: reverted_def)
qed

text \<open>
  Every code of the hub's enumeration has its own name, and any other byte is named by its number,
  so that no two codes share a name.
\<close>

theorem errorCodeName_known_inj:
  "inj_on errorCodeName {c. c < 9} \<and> (\<forall>c. 9 \<le> c \<longrightarrow> errorCodeName c = ''Unknown('' @ decimal_nat (unat c) @ '')'')"
proof
  have "distinct error_names" by (simp add: error_names_def)
  moreover have "unat c < length error_names" if "c < 9" for c :: byte
    using that by (simp add: error_names_def word_less_nat_alt)
  ultimately show "inj_on errorCodeName {c. c < 9}"
    by (auto simp: inj_on_def errorCodeName_def nth_eq_iff_index_eq word_unat_eq_iff)
  show "\<forall>c. 9 \<le> c \<longrightarrow> errorCodeName c = ''Unknown('' @ decimal_nat (unat c) @ '')''"
    by (auto simp: errorCodeName_def error_names_def word_le_nat_alt)
qed


theorem errorCodeName_known_inj_witness:
  "errorCodeName 2 \<noteq> errorCodeName 8 \<and> errorCodeName 200 = ''Unknown('' @ decimal_nat 200 @ '')''"
proof
  show "errorCodeName 2 \<noteq> errorCodeName 8"
    using inj_onD [OF conjunct1 [OF errorCodeName_known_inj], of 2 8] by auto
  show "errorCodeName 200 = ''Unknown('' @ decimal_nat 200 @ '')''"
    using conjunct2 [OF errorCodeName_known_inj, THEN spec, of 200] by simp
qed

end
