(* ===== verification/Events.thy ===== *)
theory Events
  imports Prelude
begin

text \<open>
  Package \<open>events\<close> (\<open>events/events.go\<close>): the bus that keeps the last published log lines in a
  ring and hands each new one to whoever is subscribed. Every operation holds the mutex of the bus,
  so each is a function of the bus; the goroutine of a subscriber takes one event at a time from its
  channel (\<open>deliver\<close>).
\<close>

section \<open>The bus\<close>

definition subscriberBuffer :: nat where "subscriberBuffer = 256"

definition noReplay :: uint64 where "noReplay = - 1"

record Event =
  Seq :: uint64
  Line :: fields

text \<open>\<open>draining\<close> are the closed channels of cancelled subscriptions, which still hold what was sent before.\<close>

record Bus =
  enabled :: bool
  capacity :: nat
  ring :: "Event list"
  start :: nat
  size_of :: nat
  sequence :: uint64
  subscribers :: "uint64 \<rightharpoonup> Event list"
  draining :: "uint64 \<rightharpoonup> Event list"
  nextID :: uint64

definition zero_event :: Event where
  "zero_event = \<lparr>Seq = 0, Line = []\<rparr>"

definition New :: "bool \<Rightarrow> int \<Rightarrow> Bus" where
  "New on cap =
     (let c = nat cap
      in \<lparr>enabled = (on \<and> c > 0), capacity = c, ring = replicate c zero_event, start = 0, size_of = 0,
          sequence = 0, subscribers = Map.empty, draining = Map.empty, nextID = 0\<rparr>)"

definition Event_text :: "string \<Rightarrow> Event \<Rightarrow> string" where
  "Event_text key e = (case map_of (Line e) key of Some (DText t) \<Rightarrow> t | _ \<Rightarrow> [])"

definition Event_Name :: "Event \<Rightarrow> string" where "Event_Name e = Event_text ''event'' e"
definition Event_Level :: "Event \<Rightarrow> string" where "Event_Level e = Event_text ''level'' e"
definition Event_Ts :: "Event \<Rightarrow> string" where "Event_Ts e = Event_text ''ts'' e"

definition retain :: "Event \<Rightarrow> Bus \<Rightarrow> Bus" where
  "retain e b =
     (let b1 = b\<lparr>ring := (ring b)[(start b + size_of b) mod capacity b := e]\<rparr>
      in if size_of b < capacity b then b1\<lparr>size_of := size_of b + 1\<rparr>
         else b1\<lparr>start := (start b + 1) mod capacity b\<rparr>)"

text \<open>The non-blocking send: a full channel loses the event, for that subscriber only.\<close>

definition offer :: "Event \<Rightarrow> Event list \<Rightarrow> Event list" where
  "offer e q = (if length q < subscriberBuffer then q @ [e] else q)"

definition Publish :: "fields \<Rightarrow> Bus \<Rightarrow> Bus" where
  "Publish line b =
     (if \<not> enabled b then b
      else
        (let sq = sequence b + 1;
             e = \<lparr>Seq = sq, Line = AList.update ''seq'' (DUint sq) line\<rparr>;
             b1 = retain e (b\<lparr>sequence := sq\<rparr>)
         in b1\<lparr>subscribers := (\<lambda>sid. map_option (offer e) (subscribers b1 sid))\<rparr>))"

definition replayLocked :: "uint64 \<Rightarrow> Bus \<Rightarrow> Event list" where
  "replayLocked afterSeq b =
     filter (\<lambda>e. afterSeq < Seq e) (map (\<lambda>offset. ring b ! ((start b + offset) mod capacity b)) [0..<size_of b])"

definition Replay :: "uint64 \<Rightarrow> Bus \<Rightarrow> Event list" where
  "Replay afterSeq b = replayLocked afterSeq b"

definition ReplayAndSubscribe :: "uint64 \<Rightarrow> Bus \<Rightarrow> (Event list \<times> uint64) \<times> Bus" where
  "ReplayAndSubscribe afterSeq b =
     (let retained = (if afterSeq \<noteq> noReplay then replayLocked afterSeq b else []);
          sid = nextID b + 1
      in ((retained, sid), b\<lparr>nextID := sid, subscribers := (subscribers b)(sid \<mapsto> [])\<rparr>))"

definition Subscribe :: "Bus \<Rightarrow> uint64 \<times> Bus" where
  "Subscribe b = (case ReplayAndSubscribe noReplay b of ((_, sid), b1) \<Rightarrow> (sid, b1))"

definition cancel :: "uint64 \<Rightarrow> Bus \<Rightarrow> Bus" where
  "cancel sid b =
     (case subscribers b sid of
        None \<Rightarrow> b
      | Some q \<Rightarrow> b\<lparr>subscribers := (subscribers b)(sid := None), draining := (draining b)(sid \<mapsto> q)\<rparr>)"

text \<open>
  One round of \<open>deliver\<close>: the next event of that channel, handed to the observer. \<open>call\<close> recovers a
  panic of the observer, so whatever it does the loop goes on.
\<close>

definition deliver :: "uint64 \<Rightarrow> Bus \<Rightarrow> (Event \<times> Bus) option" where
  "deliver sid b =
     (case subscribers b sid of
        Some (e # q) \<Rightarrow> Some (e, b\<lparr>subscribers := (subscribers b)(sid \<mapsto> q)\<rparr>)
      | Some [] \<Rightarrow> None
      | None \<Rightarrow>
          (case draining b sid of
             Some (e # q) \<Rightarrow> Some (e, b\<lparr>draining := (draining b)(sid \<mapsto> q)\<rparr>)
           | _ \<Rightarrow> None))"

definition call :: "(Event \<Rightarrow> unit go_result) \<Rightarrow> Event \<Rightarrow> unit" where
  "call notify e = (case notify e of Returns u \<Rightarrow> u | Panics _ \<Rightarrow> ())"

section \<open>The ring holds the last events\<close>

text \<open>A log that keeps only its newest entries: what appending does to the contents.\<close>

locale bounded_log =
  fixes contents :: "'s \<Rightarrow> 'e list"
    and append_entry :: "'e \<Rightarrow> 's \<Rightarrow> 's"
    and cap :: "'s \<Rightarrow> nat"
    and invar :: "'s \<Rightarrow> bool"
  assumes append_contents:
      "invar s \<Longrightarrow> contents (append_entry e s) = lastn (cap s) (contents s @ [e])"
    and append_cap: "invar s \<Longrightarrow> cap (append_entry e s) = cap s"
    and append_invar: "invar s \<Longrightarrow> invar (append_entry e s)"
    and contents_bound: "invar s \<Longrightarrow> length (contents s) \<le> cap s"
begin

lemma invar_appends: "invar s \<Longrightarrow> invar (fold append_entry es s)"
  by (induction es arbitrary: s) (simp_all add: append_invar)

lemma cap_appends: "invar s \<Longrightarrow> cap (fold append_entry es s) = cap s"
  by (induction es arbitrary: s) (simp_all add: append_invar append_cap)

text \<open>After any burst the log holds exactly the newest entries, in order.\<close>

lemma contents_appends:
  "invar s \<Longrightarrow> contents (fold append_entry es s) = lastn (cap s) (contents s @ es)"
proof (induction es arbitrary: s)
  case Nil
  then show ?case by (simp add: contents_bound lastn_all)
next
  case (Cons e es)
  then show ?case by (simp add: append_invar append_cap append_contents lastn_lastn_append)
qed

end

definition retained :: "Bus \<Rightarrow> Event list" where
  "retained b = map (\<lambda>offset. ring b ! ((start b + offset) mod capacity b)) [0..<size_of b]"

definition ring_wf :: "Bus \<Rightarrow> bool" where
  "ring_wf b \<longleftrightarrow> 0 < capacity b \<and> length (ring b) = capacity b \<and> start b < capacity b \<and>
     size_of b \<le> capacity b \<and> (size_of b < capacity b \<longrightarrow> start b = 0)"

lemma length_retained [simp]: "length (retained b) = size_of b"
  by (simp add: retained_def)

lemma mod_add_inj_le:
  assumes "j \<le> i" "i < (c :: nat)" "(a + i) mod c = (a + j) mod c"
  shows "i = j"
proof -
  have "c dvd (a + i) - (a + j)"
    using assms by (subst mod_eq_dvd_iff_nat [symmetric]) simp_all
  then have "c dvd i - j" by simp
  moreover have "i - j < c" using assms(2) by simp
  ultimately have "i - j = 0" using nat_dvd_not_less [of "i - j" c] by blast
  with assms(1) show ?thesis by simp
qed

lemma mod_add_inj:
  assumes "i < (c :: nat)" "j < c" "(a + i) mod c = (a + j) mod c"
  shows "i = j"
proof (cases "j \<le> i")
  case True
  then show ?thesis using assms(1,3) by (rule mod_add_inj_le)
next
  case False
  then have "i \<le> j" by simp
  then have "j = i" using assms(2) assms(3) [symmetric] by (rule mod_add_inj_le)
  then show ?thesis by simp
qed

lemma retained_retain:
  assumes "ring_wf b"
  shows "retained (retain e b) = lastn (capacity b) (retained b @ [e])"
proof (cases "size_of b < capacity b")
  case True
  with assms have "start b = 0" by (simp add: ring_wf_def)
  with True assms show ?thesis
    by (intro nth_equalityI)
      (auto simp: lastn_def retained_def retain_def Let_def ring_wf_def nth_append nth_list_update)
next
  case False
  with assms have full: "size_of b = capacity b" by (simp add: ring_wf_def)
  let ?c = "capacity b" and ?s = "start b"
  have wf: "0 < ?c" "length (ring b) = ?c" "?s < ?c" using assms by (simp_all add: ring_wf_def)
  show ?thesis
  proof (rule nth_equalityI)
    show "length (retained (retain e b)) = length (lastn (capacity b) (retained b @ [e]))"
      using full by (simp add: retain_def Let_def)
    fix i
    assume "i < length (retained (retain e b))"
    then have i: "i < ?c" using full by (simp add: retain_def Let_def split: if_splits)
    have pos: "((?s + 1) mod ?c + i) mod ?c = (?s + Suc i) mod ?c" by (simp add: mod_add_left_eq)
    have hit: "(?s + Suc i) mod ?c = ?s mod ?c \<longleftrightarrow> Suc i = ?c"
    proof
      assume eq: "(?s + Suc i) mod ?c = ?s mod ?c"
      show "Suc i = ?c"
        using mod_add_inj [of "Suc i" ?c 0 ?s] i wf eq by (cases "Suc i < ?c") simp_all
    qed (metis mod_add_self2)
    show "retained (retain e b) ! i = lastn (capacity b) (retained b @ [e]) ! i"
      using i full wf pos hit
      by (auto simp: lastn_def retained_def retain_def Let_def nth_append nth_list_update)
  qed
qed

lemma retain_frame [simp]:
  "enabled (retain e b) = enabled b" "capacity (retain e b) = capacity b" "sequence (retain e b) = sequence b"
  "subscribers (retain e b) = subscribers b" "draining (retain e b) = draining b" "nextID (retain e b) = nextID b"
  by (simp_all add: retain_def Let_def)

lemma retain_wf: "ring_wf b \<Longrightarrow> ring_wf (retain e b)"
  by (auto simp: ring_wf_def retain_def Let_def)

interpretation ring: bounded_log retained retain capacity ring_wf
  by unfold_locales (simp_all add: retained_retain retain_wf, simp add: ring_wf_def)

section \<open>Runs of the bus\<close>

text \<open>A bus that was created on and used in any way, with the number of lines published so far.\<close>

inductive bus_reach :: "nat \<Rightarrow> nat \<Rightarrow> Bus \<Rightarrow> bool" for cap where
  bus_new: "0 < cap \<Longrightarrow> bus_reach cap 0 (New True (int cap))"
| bus_publish: "bus_reach cap n b \<Longrightarrow> bus_reach cap (Suc n) (Publish line b)"
| bus_subscribe: "bus_reach cap n b \<Longrightarrow> bus_reach cap n (snd (ReplayAndSubscribe a b))"
| bus_cancel: "bus_reach cap n b \<Longrightarrow> bus_reach cap n (cancel sid b)"
| bus_deliver: "bus_reach cap n b \<Longrightarrow> deliver sid b = Some (e, b') \<Longrightarrow> bus_reach cap n b'"

definition bus_ok :: "nat \<Rightarrow> nat \<Rightarrow> Bus \<Rightarrow> bool" where
  "bus_ok cap n b \<longleftrightarrow> enabled b \<and> ring_wf b \<and> capacity b = cap \<and> sequence b = word_of_nat n \<and>
     map Seq (retained b) = lastn cap (map word_of_nat [1..<Suc n])"

lemma retained_cong:
  "ring b' = ring b \<Longrightarrow> start b' = start b \<Longrightarrow> size_of b' = size_of b \<Longrightarrow> capacity b' = capacity b \<Longrightarrow>
     retained b' = retained b \<and> ring_wf b' = ring_wf b"
  by (simp add: retained_def ring_wf_def)

lemma bus_ok_cong:
  "enabled b' = enabled b \<Longrightarrow> ring b' = ring b \<Longrightarrow> start b' = start b \<Longrightarrow> size_of b' = size_of b \<Longrightarrow>
   capacity b' = capacity b \<Longrightarrow> sequence b' = sequence b \<Longrightarrow> bus_ok cap n b' = bus_ok cap n b"
  using retained_cong [of b' b] by (simp add: bus_ok_def)

lemma deliver_frame:
  assumes "deliver sid b = Some (e, b')"
  shows "enabled b' = enabled b" "ring b' = ring b" "start b' = start b" "size_of b' = size_of b"
    "capacity b' = capacity b" "sequence b' = sequence b"
  using assms by (auto simp: deliver_def split: option.splits list.splits)

lemma Publish_ok:
  assumes "bus_ok cap n b"
  shows "bus_ok cap (Suc n) (Publish line b)"
    and "\<exists>e. Seq e = word_of_nat (Suc n) \<and>
           subscribers (Publish line b) = (\<lambda>sid. map_option (offer e) (subscribers b sid))"
proof -
  define e where "e = \<lparr>Seq = sequence b + 1, Line = AList.update ''seq'' (DUint (sequence b + 1)) line\<rparr>"
  define b0 where "b0 = b\<lparr>sequence := sequence b + 1\<rparr>"
  have pub: "Publish line b = (retain e b0)\<lparr>subscribers := (\<lambda>sid. map_option (offer e) (subscribers b sid))\<rparr>"
    using assms by (simp add: Publish_def Let_def bus_ok_def e_def b0_def)
  have b0: "retained b0 = retained b" "ring_wf b0" "capacity b0 = cap" "enabled b0"
    using assms retained_cong [of b0 b] by (simp_all add: bus_ok_def b0_def)
  have e: "Seq e = word_of_nat (Suc n)" using assms by (simp add: e_def bus_ok_def)
  have same: "retained (Publish line b) = retained (retain e b0)" "ring_wf (Publish line b) = ring_wf (retain e b0)"
    using retained_cong [of "Publish line b" "retain e b0"] pub by simp_all
  have "map Seq (retained (Publish line b)) = lastn cap (map Seq (retained b) @ [Seq e])"
    using b0 by (simp add: same retained_retain map_lastn)
  also have "\<dots> = lastn cap (map word_of_nat [1..<Suc n] @ [word_of_nat (Suc n)])"
    using assms e by (simp only: bus_ok_def lastn_lastn_append)
  also have "map word_of_nat [1..<Suc n] @ [word_of_nat (Suc n)] = (map word_of_nat [1..<Suc (Suc n)] :: uint64 list)"
    by simp
  finally have "map Seq (retained (Publish line b)) = lastn cap (map word_of_nat [1..<Suc (Suc n)])" .
  moreover have "sequence (Publish line b) = word_of_nat (Suc n)" "enabled (Publish line b)"
      "capacity (Publish line b) = cap"
    using assms pub b0 by (simp_all add: b0_def bus_ok_def)
  ultimately show "bus_ok cap (Suc n) (Publish line b)"
    using retain_wf [OF b0(2), of e] by (simp only: bus_ok_def same(2))
  show "\<exists>e. Seq e = word_of_nat (Suc n) \<and>
           subscribers (Publish line b) = (\<lambda>sid. map_option (offer e) (subscribers b sid))"
    using pub e by (intro exI [of _ e]) simp
qed

lemma bus_reach_ok: "bus_reach cap n b \<Longrightarrow> bus_ok cap n b"
proof (induction rule: bus_reach.induct)
  case bus_new
  then show ?case by (simp add: New_def Let_def bus_ok_def ring_wf_def retained_def lastn_def)
next
  case (bus_publish n b line)
  then show ?case by (simp only: Publish_ok(1))
next
  case (bus_subscribe n b a)
  have "bus_ok cap n (snd (ReplayAndSubscribe a b)) = bus_ok cap n b"
    by (rule bus_ok_cong) (simp_all add: ReplayAndSubscribe_def Let_def)
  with bus_subscribe show ?case by simp
next
  case (bus_cancel n b sid)
  have "bus_ok cap n (cancel sid b) = bus_ok cap n b"
    by (rule bus_ok_cong) (simp_all add: cancel_def split: option.split)
  with bus_cancel show ?case by simp
next
  case (bus_deliver n b sid e b')
  then show ?case using bus_ok_cong [of b' b] deliver_frame [OF bus_deliver.hyps(2)] by simp
qed

lemma lastn_upt: "lastn k [1..<Suc n] = [Suc (n - k)..<Suc n]"
  by (simp add: lastn_def del: upt_Suc)

lemma filter_greater_upt: "filter (\<lambda>k. a < k) [l..<m] = [max l (Suc a)..<m]"
  by (induction m) (auto simp: max_def)

lemma replay_seqs:
  assumes "bus_ok cap n b" "n < 2 ^ 64"
  shows "map (\<lambda>e. unat (Seq e)) (replayLocked a b) = [Suc (max (n - cap) (unat a))..<Suc n]"
proof -
  have "map (\<lambda>e. unat (Seq e)) (retained b) = map unat (map Seq (retained b))" by simp
  also have "\<dots> = map (\<lambda>k. unat (word_of_nat k :: uint64)) (lastn cap [1..<Suc n])"
    using assms(1) by (simp add: bus_ok_def map_lastn [symmetric] del: upt_Suc)
  also have "\<dots> = [Suc (n - cap)..<Suc n]"
    unfolding lastn_upt using assms(2) by (intro map_idI) (auto simp: unat_of_nat)
  finally have seqs: "map (\<lambda>e. unat (Seq e)) (retained b) = [Suc (n - cap)..<Suc n]" .
  have "map (\<lambda>e. unat (Seq e)) (replayLocked a b) =
      filter (\<lambda>k. unat a < k) (map (\<lambda>e. unat (Seq e)) (retained b))"
    by (simp add: replayLocked_def retained_def [symmetric] filter_map comp_def word_less_nat_alt)
  then show ?thesis by (simp add: seqs filter_greater_upt max_def del: upt_Suc)
qed

text \<open>
  C33: whoever resumes from a sequence number gets exactly the events after it that the bus still
  keeps, in increasing order, with no gap and no repetition. The bus keeps the last \<open>cap\<close> of the
  \<open>n\<close> published lines, whatever subscriptions came and went.
\<close>

theorem Replay_returns_the_tail:
  assumes "bus_reach cap n b" "n < 2 ^ 64"
  shows "map (\<lambda>e. unat (Seq e)) (Replay a b) = [Suc (max (n - cap) (unat a))..<Suc n]"
  using replay_seqs [OF bus_reach_ok [OF assms(1)] assms(2)] by (simp add: Replay_def)

definition sample_bus :: Bus where
  "sample_bus = fold Publish [[], [], []] (New True 2)"

lemma sample_bus_reach: "bus_reach 2 3 sample_bus"
proof -
  have "bus_reach 2 (Suc (Suc (Suc 0))) (Publish [] (Publish [] (Publish [] (New True (int 2)))))"
    by (intro bus_reach.intros) simp
  then show ?thesis by (simp add: sample_bus_def eval_nat_numeral)
qed

theorem Replay_returns_the_tail_witness:
  "map (\<lambda>e. unat (Seq e)) (Replay 0 sample_bus) = [2, 3] \<and> map (\<lambda>e. unat (Seq e)) (Replay 2 sample_bus) = [3]"
  using Replay_returns_the_tail [OF sample_bus_reach, of 0] Replay_returns_the_tail [OF sample_bus_reach, of 2]
  by (simp add: upt_rec)

lemma channel_after_publish:
  assumes "bus_ok cap n b" "subscribers b sid = Some q" "length q + length lines \<le> subscriberBuffer"
  shows "\<exists>es. subscribers (fold Publish lines b) sid = Some (q @ es) \<and>
    map Seq es = map word_of_nat [Suc n..<Suc (n + length lines)]"
  using assms
proof (induction lines arbitrary: b n q)
  case Nil
  then show ?case by simp
next
  case (Cons line lines)
  from Publish_ok [OF Cons.prems(1), of line] obtain e where e: "Seq e = word_of_nat (Suc n)"
      "bus_ok cap (Suc n) (Publish line b)"
      "subscribers (Publish line b) = (\<lambda>sid. map_option (offer e) (subscribers b sid))"
    by blast
  from e(3) Cons.prems(2,3) have sub: "subscribers (Publish line b) sid = Some (q @ [e])"
    by (simp add: offer_def)
  from Cons.IH [OF e(2) sub] Cons.prems(3) obtain es where
      "subscribers (fold Publish lines (Publish line b)) sid = Some ((q @ [e]) @ es)"
      "map Seq es = map word_of_nat [Suc (Suc n)..<Suc (Suc n + length lines)]"
    by auto
  then show ?case
    using e(1) by (intro exI [of _ "e # es"]) (simp add: upt_conv_Cons del: upt_Suc)
qed

text \<open>
  C34: between what is replayed and what arrives live nothing is lost and nothing is repeated. The
  retained events an observer receives when it subscribes, followed by what its channel holds after
  up to 256 more lines, are consecutive from the first event after the requested one that the bus
  still had.
\<close>

theorem ReplayAndSubscribe_no_gap:
  assumes "bus_reach cap n b" "ReplayAndSubscribe a b = ((missed, sid), b1)" "a \<noteq> noReplay"
    "length lines \<le> subscriberBuffer" "n + length lines < 2 ^ 64" "unat a \<le> n"
  shows "\<exists>live. subscribers (fold Publish lines b1) sid = Some live \<and>
    map (\<lambda>e. unat (Seq e)) (missed @ live) =
      [Suc (max (n - cap) (unat a))..<Suc (n + length lines)]"
proof -
  have ok: "bus_ok cap n b1"
    using bus_reach_ok [OF bus_reach.bus_subscribe [OF assms(1), of a]] assms(2) by simp
  have "subscribers b1 sid = Some []" using assms(2) by (auto simp: ReplayAndSubscribe_def Let_def)
  from channel_after_publish [OF ok this, of lines] assms(4) obtain live where
      live: "subscribers (fold Publish lines b1) sid = Some live"
      "map Seq live = map word_of_nat [Suc n..<Suc (n + length lines)]"
    by auto
  have "map (\<lambda>e. unat (Seq e)) live = map unat (map Seq live)" by simp
  also have "\<dots> = map (\<lambda>k. unat (word_of_nat k :: uint64)) [Suc n..<Suc (n + length lines)]"
    unfolding live(2) by (simp del: upt_Suc)
  also have "\<dots> = [Suc n..<Suc (n + length lines)]"
    using assms(5) by (intro map_idI) (auto simp: unat_of_nat)
  finally have seqs: "map (\<lambda>e. unat (Seq e)) live = [Suc n..<Suc (n + length lines)]" .
  have "missed = replayLocked a b"
    using assms(2,3) by (auto simp: ReplayAndSubscribe_def Let_def)
  then have "map (\<lambda>e. unat (Seq e)) missed = [Suc (max (n - cap) (unat a))..<Suc n]"
    using replay_seqs [OF bus_reach_ok [OF assms(1)]] assms(5) by simp
  moreover have "Suc (max (n - cap) (unat a)) \<le> Suc n" using assms(6) by simp
  ultimately show ?thesis
    using live(1) seqs upt_add_eq_append [of "Suc (max (n - cap) (unat a))" "Suc n" "length lines"]
    by (simp del: upt_Suc)
qed

theorem ReplayAndSubscribe_no_gap_witness:
  "\<exists>missed sid b1 live. ReplayAndSubscribe 2 sample_bus = ((missed, sid), b1) \<and>
     subscribers (fold Publish [[], []] b1) sid = Some live \<and>
     map (\<lambda>e. unat (Seq e)) (missed @ live) = [3, 4, 5]"
proof -
  obtain missed sid b1 where r: "ReplayAndSubscribe 2 sample_bus = ((missed, sid), b1)"
    by (cases "ReplayAndSubscribe 2 sample_bus") auto
  from ReplayAndSubscribe_no_gap [OF sample_bus_reach r, of "[[], []]"] r show ?thesis
    by (auto simp: noReplay_def subscriberBuffer_def upt_rec)
qed

end
