(* ===== verification/Audit_Log.thy ===== *)
theory Audit_Log
  imports Events
begin

text \<open>
  Package \<open>audit\<close>: the correlation that travels in a context (\<open>audit/context.go\<close>) and the
  structured log (\<open>audit/structured.go\<close>), which publishes every line on the event bus and then
  decides whether to write it. \<open>json.Marshal\<close>, the random source and the clock are arguments.
\<close>

section \<open>The context\<close>

text \<open>The two values the service keeps in a \<open>context.Context\<close>; a nil context reads as an empty one.\<close>

record Context =
  requestIDKey :: "string option"
  metaTxIDKey :: "string option"
  cancelled :: bool

definition Background :: Context where
  "Background = \<lparr>requestIDKey = None, metaTxIDKey = None, cancelled = False\<rparr>"

definition contextText :: "string option \<Rightarrow> string" where
  "contextText v = (case v of Some t \<Rightarrow> t | None \<Rightarrow> [])"

definition WithRequestID :: "Context \<Rightarrow> string \<Rightarrow> Context" where
  "WithRequestID ctx i = ctx\<lparr>requestIDKey := Some i\<rparr>"

definition RequestID :: "Context \<Rightarrow> string" where
  "RequestID ctx = contextText (requestIDKey ctx)"

definition WithMetaTxID :: "Context \<Rightarrow> string \<Rightarrow> Context" where
  "WithMetaTxID ctx i = ctx\<lparr>metaTxIDKey := Some i\<rparr>"

definition MetaTxID :: "Context \<Rightarrow> string" where
  "MetaTxID ctx = contextText (metaTxIDKey ctx)"

definition Detach :: "Context \<Rightarrow> Context" where
  "Detach ctx = ctx\<lparr>cancelled := False\<rparr>"

lemma ids_of_context [simp]:
  "RequestID (WithRequestID ctx i) = i" "MetaTxID (WithMetaTxID ctx i) = i"
  "RequestID (WithMetaTxID ctx i) = RequestID ctx" "MetaTxID (WithRequestID ctx i) = MetaTxID ctx"
  "RequestID (Detach ctx) = RequestID ctx" "MetaTxID (Detach ctx) = MetaTxID ctx"
  by (simp_all add: RequestID_def WithRequestID_def MetaTxID_def WithMetaTxID_def Detach_def contextText_def)

section \<open>The structured log\<close>

datatype Level = LevelDebug | LevelInfo | LevelWarn | LevelError

definition Level_string :: "Level \<Rightarrow> string" where
  "Level_string l =
     (case l of LevelDebug \<Rightarrow> ''debug'' | LevelInfo \<Rightarrow> ''info'' | LevelWarn \<Rightarrow> ''warn'' | LevelError \<Rightarrow> ''error'')"

definition severity :: "Level \<Rightarrow> nat" where
  "severity l = (case l of LevelDebug \<Rightarrow> 10 | LevelInfo \<Rightarrow> 20 | LevelWarn \<Rightarrow> 30 | LevelError \<Rightarrow> 40)"

text \<open>Levels are ordered by their severity.\<close>

instantiation Level :: linorder
begin

definition less_eq_Level :: "Level \<Rightarrow> Level \<Rightarrow> bool" where
  "less_eq_Level l m \<longleftrightarrow> severity l \<le> severity m"

definition less_Level :: "Level \<Rightarrow> Level \<Rightarrow> bool" where
  "less_Level l m \<longleftrightarrow> severity l < severity m"

instance
  by standard (auto simp: less_eq_Level_def less_Level_def severity_def split: Level.splits)

end

definition severity_of_text :: "string \<Rightarrow> nat option" where
  "severity_of_text t =
     map_of [(''debug'', 10), (''info'', 20), (''warn'', 30), (''error'', 40)] t"

text \<open>
  The emitter: the level that reaches the outputs, the flag for raw transactions, the bus of the
  process and the lines written to each output.
\<close>

record audit =
  configuredLevel :: nat
  logRawTx :: bool
  instanceID :: string
  defaultBus :: Bus
  stdout :: "string list"
  stderr :: "string list"

definition audit_init :: "string \<Rightarrow> audit" where
  "audit_init inst =
     \<lparr>configuredLevel = severity LevelInfo, logRawTx = False, instanceID = inst, defaultBus = New False 0,
      stdout = [], stderr = []\<rparr>"

definition InitStructured :: "string \<Rightarrow> bool \<Rightarrow> audit \<Rightarrow> audit" where
  "InitStructured level rawTx a =
     (case severity_of_text (ToLower (TrimSpace level)) of
        Some v \<Rightarrow> a\<lparr>configuredLevel := v, logRawTx := rawTx\<rparr>
      | None \<Rightarrow> a\<lparr>logRawTx := rawTx\<rparr>)"

definition ShouldLogRawTx :: "audit \<Rightarrow> bool" where
  "ShouldLogRawTx a = logRawTx a"

definition InstanceID :: "audit \<Rightarrow> string" where
  "InstanceID a = instanceID a"

text \<open>
  An event that cannot be serialised is replaced by a reduced line that says so, and by nothing when
  even that fails.
\<close>

type_synonym marshal = "fields \<Rightarrow> go_error + string"

definition field_of :: "fields \<Rightarrow> string \<Rightarrow> detail" where
  "field_of line k = (case map_of line k of Some v \<Rightarrow> v | None \<Rightarrow> DNull)"

definition reduced_line :: "fields \<Rightarrow> go_error \<Rightarrow> fields" where
  "reduced_line line e =
     [(''ts'', field_of line ''ts''), (''level'', field_of line ''level''), (''event'', field_of line ''event''),
      (''logError'', DText (''no se pudo serializar el evento: '' @ err_text e))]"

definition serialised :: "marshal \<Rightarrow> fields \<Rightarrow> string option" where
  "serialised Marshal line =
     (case Marshal line of
        Inr t \<Rightarrow> Some t
      | Inl e \<Rightarrow> (case Marshal (reduced_line line e) of Inr t \<Rightarrow> Some t | Inl _ \<Rightarrow> None))"

definition write_line :: "marshal \<Rightarrow> Level \<Rightarrow> fields \<Rightarrow> audit \<Rightarrow> audit" where
  "write_line Marshal level line a =
     (case serialised Marshal line of
        None \<Rightarrow> a
      | Some t \<Rightarrow>
          if level = LevelWarn \<or> level = LevelError then a\<lparr>stderr := stderr a @ [t]\<rparr>
          else a\<lparr>stdout := stdout a @ [t]\<rparr>)"

definition log_line :: "string \<Rightarrow> string \<Rightarrow> Context \<Rightarrow> Level \<Rightarrow> string \<Rightarrow> fields \<Rightarrow> fields" where
  "log_line ts inst ctx level event fs =
     (let line = [(''ts'', DText ts), (''level'', DText (Level_string level)), (''event'', DText event),
                  (''instanceId'', DText inst)];
          line = (if RequestID ctx \<noteq> [] then AList.update ''reqId'' (DText (RequestID ctx)) line else line);
          line = (if MetaTxID ctx \<noteq> [] then AList.update ''metaTxId'' (DText (MetaTxID ctx)) line else line)
      in fold (\<lambda>(k, v). AList.update k v) fs line)"

definition emit :: "marshal \<Rightarrow> string \<Rightarrow> Context \<Rightarrow> Level \<Rightarrow> string \<Rightarrow> fields \<Rightarrow> audit \<Rightarrow> audit" where
  "emit Marshal ts ctx level event fs a =
     (let line = log_line ts (instanceID a) ctx level event fs;
          a1 = a\<lparr>defaultBus := Publish line (defaultBus a)\<rparr>
      in if severity level < configuredLevel a1 then a1 else write_line Marshal level line a1)"

definition Debug where "Debug Marshal ts ctx event fs a = emit Marshal ts ctx LevelDebug event fs a"
definition Info where "Info Marshal ts ctx event fs a = emit Marshal ts ctx LevelInfo event fs a"
definition Warn where "Warn Marshal ts ctx event fs a = emit Marshal ts ctx LevelWarn event fs a"
definition Error where "Error Marshal ts ctx event fs a = emit Marshal ts ctx LevelError event fs a"

section \<open>Identifiers\<close>

text \<open>
  \<open>newID\<close>: the random bytes in hexadecimal, or the clock padded to the same width when the random
  source fails. \<open>rand\<close> is what \<open>rand.Read\<close> left in a buffer of the given size.
\<close>

definition newID :: "(nat \<Rightarrow> bytes option) \<Rightarrow> nat \<Rightarrow> nat \<Rightarrow> string" where
  "newID rand unixNano sz =
     (case rand sz of
        Some buffer \<Rightarrow> hex_EncodeToString buffer
      | None \<Rightarrow> (let t = hex_nat unixNano in replicate (sz * 2 - length t) CHR ''0'' @ t))"

definition NewRequestID :: "(nat \<Rightarrow> bytes option) \<Rightarrow> nat \<Rightarrow> string" where
  "NewRequestID rand unixNano = newID rand unixNano 6"

definition NewMetaTxID :: "(nat \<Rightarrow> bytes option) \<Rightarrow> nat \<Rightarrow> string" where
  "NewMetaTxID rand unixNano = newID rand unixNano 4"

text \<open>An identifier is never empty, so every request and every metatx can be told apart from none.\<close>

lemma newID_not_empty:
  assumes "\<And>buffer. rand sz = Some buffer \<Longrightarrow> length buffer = sz" and "0 < sz"
  shows "newID rand unixNano sz \<noteq> [] \<and> 2 * sz \<le> length (newID rand unixNano sz)"
proof (cases "rand sz")
  case (Some buffer)
  with assms show ?thesis
    by (auto simp: newID_def dest: arg_cong [of _ _ length])
qed (use assms(2) in \<open>auto simp: newID_def Let_def dest: arg_cong [of _ _ length]\<close>)

section \<open>Errors as fields\<close>

definition maxStackFrames :: nat where "maxStackFrames = 6"

text \<open>The loop of \<open>flatten\<close>: the fragments collected so far and whether it stopped early.\<close>

fun flatten_loop :: "string list \<Rightarrow> string list \<Rightarrow> string list \<times> bool" where
  "flatten_loop fragments [] = (fragments, False)"
| "flatten_loop fragments (raw # rest) =
     (let fragment = TrimSpace raw
      in if fragment = [] then flatten_loop fragments rest
         else if length fragments = maxStackFrames then (fragments, True)
         else flatten_loop (fragments @ [fragment]) rest)"

definition newline :: char where "newline = char_of (10 :: nat)"

definition flatten :: "string \<Rightarrow> string" where
  "flatten msg =
     (case flatten_loop [] (Split newline msg) of
        (fragments, truncated) \<Rightarrow> Join '' | '' fragments @ (if truncated then '' | ...'' else []))"

text \<open>
  \<open>ErrorFields\<close> of a non-nil error: its text, its dynamic type, its code when it has one and its
  stack, which is the verbose rendering when that differs from the text.
\<close>

definition stackOf :: "string \<Rightarrow> go_error \<Rightarrow> string" where
  "stackOf verbose err = (if verbose = err_text err then [] else flatten verbose)"

definition ErrorFields :: "string \<Rightarrow> string \<Rightarrow> go_error \<Rightarrow> fields" where
  "ErrorFields errorType verbose err =
     [(''error'', DText (flatten (err_text err))), (''errorType'', DText errorType)] @
     (case err_code err of Some c \<Rightarrow> [(''code'', DInt c)] | None \<Rightarrow> []) @
     (if stackOf verbose err \<noteq> [] then [(''stack'', DText (stackOf verbose err))] else [])"

section \<open>Facts\<close>

lemma flatten_loop_spec:
  "length fs \<le> maxStackFrames \<Longrightarrow>
     (let all = fs @ filter (\<lambda>f. f \<noteq> []) (map TrimSpace raws)
      in flatten_loop fs raws = (take maxStackFrames all, length all > maxStackFrames))"
proof (induction fs raws rule: flatten_loop.induct)
  case (1 fragments)
  then show ?case by simp
next
  case (2 fragments raw rest)
  then show ?case by (auto simp: Let_def)
qed

text \<open>
  An error text of any number of lines is flattened to one line, made of at most six non-blank
  fragments in their order, with a mark when more were left out.
\<close>

theorem flatten_single_line:
  "newline \<notin> set (flatten msg) \<and>
   (let all = filter (\<lambda>f. f \<noteq> []) (map TrimSpace (Split newline msg))
    in flatten msg = Join '' | '' (take 6 all) @ (if 6 < length all then '' | ...'' else []))"
proof -
  define all where "all = filter (\<lambda>f. f \<noteq> []) (map TrimSpace (Split newline msg))"
  have fl: "flatten msg = Join '' | '' (take 6 all) @ (if 6 < length all then '' | ...'' else [])"
    using flatten_loop_spec [of "[]" "Split newline msg"]
    by (simp add: flatten_def all_def Let_def maxStackFrames_def)
  have "newline \<notin> set f" if "f \<in> set all" for f
    using that Split_pieces [of _ newline msg] TrimSpace_subset by (auto simp: all_def)
  then have "newline \<notin> \<Union> (set ` set (take 6 all))" using set_take_subset [of 6 all] by auto
  moreover have "newline \<notin> set '' | ''" "newline \<notin> set '' | ...''" by (simp_all add: newline_def char_of_def)
  ultimately have "newline \<notin> set (flatten msg)" by (auto simp: fl dest: subsetD [OF set_Join])
  with fl show ?thesis by (simp add: all_def Let_def)
qed

lemma map_of_fold_update:
  "distinct (map fst fs) \<Longrightarrow>
     map_of (fold (\<lambda>(k, v). AList.update k v) fs line) x =
       (case map_of fs x of Some v \<Rightarrow> Some v | None \<Rightarrow> map_of line x)"
proof (induction fs arbitrary: line)
  case Nil
  then show ?case by simp
next
  case (Cons f fs)
  then have "map_of fs (fst f) = None" by (simp add: map_of_eq_None_iff)
  with Cons show ?case by (cases f) (auto simp: AList.update_conv split: option.split)
qed

text \<open>
  Every event reaches the bus, whatever level the outputs are configured for; the level only
  decides whether the line is also written, and warnings and errors go to the error output. The line
  carries the identifiers of its context, unless the event itself names those fields.
\<close>

theorem emit_publishes_before_filtering:
  assumes "distinct (map fst fs)" "RequestID ctx \<noteq> []" "map_of fs ''reqId'' = None"
  shows "\<exists>line. defaultBus (emit Marshal ts ctx level event fs a) = Publish line (defaultBus a) \<and>
    map_of line ''reqId'' = Some (DText (RequestID ctx)) \<and>
    stdout (emit Marshal ts ctx level event fs a) =
      stdout a @ (if configuredLevel a \<le> severity level \<and> level < LevelWarn
                  then (case serialised Marshal line of Some t \<Rightarrow> [t] | None \<Rightarrow> []) else []) \<and>
    stderr (emit Marshal ts ctx level event fs a) =
      stderr a @ (if configuredLevel a \<le> severity level \<and> LevelWarn \<le> level
                  then (case serialised Marshal line of Some t \<Rightarrow> [t] | None \<Rightarrow> []) else [])"
proof -
  let ?line = "log_line ts (instanceID a) ctx level event fs"
  have "map_of ?line ''reqId'' = Some (DText (RequestID ctx))"
    using assms by (simp add: log_line_def Let_def map_of_fold_update AList.update_conv)
  then show ?thesis
    by (intro exI [of _ ?line])
      (cases level; simp add: emit_def Let_def write_line_def not_less less_eq_Level_def less_Level_def severity_def split: option.split)
qed

theorem emit_publishes_before_filtering_witness:
  "\<exists>line. defaultBus (emit (\<lambda>_. Inr ''x'') ''t'' (WithRequestID Background ''r'') LevelDebug ''e'' [] (audit_init ''i'')) =
      Publish line (New False 0) \<and> map_of line ''reqId'' = Some (DText ''r'') \<and>
     stdout (emit (\<lambda>_. Inr ''x'') ''t'' (WithRequestID Background ''r'') LevelDebug ''e'' [] (audit_init ''i'')) = []"
  using emit_publishes_before_filtering [of "[]" "WithRequestID Background ''r''" "\<lambda>_. Inr ''x''" "''t''" LevelDebug "''e''" "audit_init ''i''"]
  by (auto simp: audit_init_def severity_def)

end
