(* ===== verification/Permissioning.thy ===== *)
theory Permissioning
  imports Reorder Audit_Log
begin

text \<open>
  \<open>service/permissioning.go\<close> and \<open>VerifySender\<close>: where the contract of account rules comes from, and
  whether an account is on its allowlist, with a cache whose entries expire. The Ethereum client, the
  binding of the contracts and the parsing of addresses are a record of functions; what is logged is
  returned as a list of level, event name and fields.
\<close>

section \<open>What the network answers\<close>

record rules_env =
  pe_Connect :: "go_error option"
  HasCode :: "Address \<Rightarrow> go_error + bool"
  pe_ResolveAccountRules :: "Address \<Rightarrow> go_error + Address"
  pe_AccountPermitted :: "Address \<Rightarrow> Address \<Rightarrow> go_error + bool"
  IsHexAddress :: "string \<Rightarrow> bool"
  pe_HexToAddress :: "string \<Rightarrow> Address"
  pe_Hex :: "Address \<Rightarrow> string"
  pe_NodeAddress :: "go_error + Address"
  pe_ErrorFields :: "go_error \<Rightarrow> fields"

type_synonym log_entry = "Level \<times> string \<times> fields"

section \<open>The cache of one contract of rules\<close>

definition rulesFromConfig :: string where "rulesFromConfig = ''config''"
definition rulesFromIngress :: string where "rulesFromIngress = ''ingress''"

definition newAccountRules :: "Address \<Rightarrow> string \<Rightarrow> accountRules" where
  "newAccountRules address source = \<lparr>rules_address = address, rules_source = source, rules_cache = Map.empty\<rparr>"

text \<open>\<open>cached\<close>: the value and whether it is still valid, as one option.\<close>

definition cached :: "accountRules \<Rightarrow> Address \<Rightarrow> time \<Rightarrow> bool option" where
  "cached r account now =
     (case rules_cache r account of
        None \<Rightarrow> None
      | Some e \<Rightarrow> if \<not> expiresAt e > now then None else Some (permitted e))"

definition remember :: "Address \<Rightarrow> bool \<Rightarrow> time \<Rightarrow> accountRules \<Rightarrow> accountRules" where
  "remember account p expires r =
     r\<lparr>rules_cache := (rules_cache r)(account \<mapsto> \<lparr>permitted = p, expiresAt = expires\<rparr>)\<rparr>"

text \<open>What a client of a cache with expiring entries may rely on.\<close>

locale expiring_cache =
  fixes lookup :: "'c \<Rightarrow> 'k \<Rightarrow> time \<Rightarrow> 'v option"
    and store :: "'k \<Rightarrow> 'v \<Rightarrow> time \<Rightarrow> 'c \<Rightarrow> 'c"
  assumes lookup_store: "lookup (store k v t c) k now = (if now < t then Some v else None)"
    and lookup_store_other: "k' \<noteq> k \<Longrightarrow> lookup (store k v t c) k' now = lookup c k' now"
    and lookup_earlier: "lookup c k now = Some v \<Longrightarrow> earlier \<le> now \<Longrightarrow> lookup c k earlier = Some v"
begin

text \<open>An answer found in the cache was stored with an expiry that has not come yet, or was there before.\<close>

lemma lookup_stored:
  "lookup (store k v t c) k' now = Some w \<Longrightarrow> (k' = k \<and> w = v \<and> now < t) \<or> lookup c k' now = Some w"
  by (cases "k' = k") (auto simp: lookup_store lookup_store_other split: if_splits)

text \<open>
  Running through a history of stored answers, whatever the cache answers is one of them that is
  still valid, or was there at the start.
\<close>

lemma lookup_history:
  "lookup (fold (\<lambda>(k, v, t). store k v t) h c) k now = Some w \<Longrightarrow>
     (\<exists>t. (k, w, t) \<in> set h \<and> now < t) \<or> lookup c k now = Some w"
proof (induction h arbitrary: c)
  case (Cons x h)
  obtain k1 v1 t1 where x: "x = (k1, v1, t1)" by (cases x)
  from Cons.IH [of "store k1 v1 t1 c"] Cons.prems lookup_stored [of k1 v1 t1 c k now w] show ?case
    by (auto simp: x)
qed simp

end

interpretation rules_cache: expiring_cache cached remember
  by unfold_locales (auto simp: cached_def remember_def split: option.splits if_splits)

section \<open>Where the rules come from\<close>

definition configuredRulesAddress :: "rules_env \<Rightarrow> RelaySignerService \<Rightarrow> Address option" where
  "configuredRulesAddress env s =
     (case Cfg s of
        None \<Rightarrow> None
      | Some c \<Rightarrow>
          (let a = AccountContractAddress (Security c)
           in if a = [] then None
              else if \<not> IsHexAddress env a then None
              else Some (pe_HexToAddress env a)))"

definition ingressAddress :: "rules_env \<Rightarrow> RelaySignerService \<Rightarrow> Address option" where
  "ingressAddress env s =
     (case Cfg s of
        None \<Rightarrow> None
      | Some c \<Rightarrow>
          (let a = AccountIngressAddress (Permissioning c)
           in if a = [] then None else Some (pe_HexToAddress env a)))"

definition resolve_failed :: "rules_env \<Rightarrow> go_error \<Rightarrow> log_entry" where
  "resolve_failed env e = (LevelWarn, ''permissioning.resolve_failed'', pe_ErrorFields env e)"

definition no_code :: "rules_env \<Rightarrow> Address \<Rightarrow> log_entry" where
  "no_code env a =
     (LevelWarn, ''permissioning.no_code'',
      [(''accountRules'', DText (pe_Hex env a)), (''note'', DText ''la direccion configurada no tiene codigo en esta red'')])"

definition resolveRules :: "rules_env \<Rightarrow> RelaySignerService \<Rightarrow> accountRules option \<times> log_entry list" where
  "resolveRules env s =
     (case (configuredRulesAddress env s, ingressAddress env s) of
        (None, None) \<Rightarrow> (None, [])
      | (configured, ingress) \<Rightarrow>
          (case pe_Connect env of
             Some e \<Rightarrow> (map_option (\<lambda>a. newAccountRules a rulesFromConfig) configured, [resolve_failed env e])
           | None \<Rightarrow>
               (case configured of
                  Some a \<Rightarrow>
                    (Some (newAccountRules a rulesFromConfig),
                     if HasCode env a = Inr False then [no_code env a] else [])
                | None \<Rightarrow>
                    (case HasCode env (the ingress) of
                       Inl e \<Rightarrow> (None, [resolve_failed env e])
                     | Inr False \<Rightarrow> (None, [])
                     | Inr True \<Rightarrow>
                         (case pe_ResolveAccountRules env (the ingress) of
                            Inl e \<Rightarrow> (None, [resolve_failed env e])
                          | Inr resolved \<Rightarrow>
                              if resolved = 0 then (None, [])
                              else (Some (newAccountRules resolved rulesFromIngress), []))))))"

definition accountRulesOf :: "RelaySignerService \<Rightarrow> accountRules option" where
  "accountRulesOf s = rules s"

definition rulesCacheTTL :: "RelaySignerService \<Rightarrow> duration" where
  "rulesCacheTTL s =
     (case Cfg s of
        Some c \<Rightarrow> if AccountRulesCacheMs (Permissioning c) > 0 then go_int64 (AccountRulesCacheMs (Permissioning c) * millisecond)
                  else DefaultAccountRulesCacheMs * millisecond
      | None \<Rightarrow> DefaultAccountRulesCacheMs * millisecond)"

section \<open>Is an account permitted?\<close>

definition permissionsEnabled :: "RelaySignerService \<Rightarrow> bool" where
  "permissionsEnabled s = (case Cfg s of Some c \<Rightarrow> PermissionsEnabled (Security c) | None \<Rightarrow> False)"

definition no_rules_error :: go_error where
  "no_rules_error =
     errors_New
       (''the sender permission check is enabled but no account rules contract could be resolved: '' @
        ''set security.accountContractAddress, or security.accountIngressAddress on a chain that '' @
        ''publishes one, or turn permissionsEnabled off'') (- 32603)"

text \<open>The clock is read before looking the account up and again when the answer of the chain is stored.\<close>

definition AccountPermitted ::
    "time \<Rightarrow> time \<Rightarrow> rules_env \<Rightarrow> Address \<Rightarrow> RelaySignerService \<Rightarrow> (go_error + bool) \<times> RelaySignerService" where
  "AccountPermitted now answered env account s =
     (case accountRulesOf s of
        None \<Rightarrow> (if permissionsEnabled s then Inl no_rules_error else Inr True, s)
      | Some r \<Rightarrow>
          (case cached r account now of
             Some p \<Rightarrow> (Inr p, s)
           | None \<Rightarrow>
               (case pe_Connect env of
                  Some e \<Rightarrow> (Inl e, s)
                | None \<Rightarrow>
                    (case pe_AccountPermitted env (rules_address r) account of
                       Inl e \<Rightarrow> (Inl e, s)
                     | Inr p \<Rightarrow> (Inr p, s\<lparr>rules := Some (remember account p (answered + rulesCacheTTL s) r)\<rparr>)))))"

definition VerifySender ::
    "time \<Rightarrow> time \<Rightarrow> rules_env \<Rightarrow> Address \<Rightarrow> RelaySignerService \<Rightarrow> (go_error + bool) \<times> RelaySignerService" where
  "VerifySender now answered env sender s =
     (case AccountPermitted now answered env sender s of
        (Inl e, s1) \<Rightarrow> (Inl e, s1)
      | (Inr isPermitted, s1) \<Rightarrow> (Inr isPermitted, s1))"

section \<open>The node's own permission\<close>

definition node_not_permitted :: "rules_env \<Rightarrow> Address \<Rightarrow> accountRules option \<Rightarrow> log_entry" where
  "node_not_permitted env node r =
     (LevelWarn, ''permissioning.node_not_permitted'',
      [(''nodeAddress'', DText (pe_Hex env node)),
       (''accountRules'', DText (case r of None \<Rightarrow> [] | Some r \<Rightarrow> pe_Hex env (rules_address r))),
       (''note'', DText (''este nodo no esta dado de alta en AccountRules: todas sus metatx van a fallar. '' @
          ''Darlo de alta con addAccount en el contrato de reglas, y con addNode en el hub''))])"

definition checkNodePermitted ::
    "time \<Rightarrow> time \<Rightarrow> rules_env \<Rightarrow> RelaySignerService \<Rightarrow> log_entry list \<times> RelaySignerService" where
  "checkNodePermitted now answered env s =
     (case pe_NodeAddress env of
        Inl _ \<Rightarrow> ([], s)
      | Inr node \<Rightarrow>
          (case AccountPermitted now answered env node s of
             (Inl e, s1) \<Rightarrow> ([(LevelWarn, ''permissioning.node_check_failed'', pe_ErrorFields env e)], s1)
           | (Inr p, s1) \<Rightarrow>
               (let s2 = s1\<lparr>nodePermitted := Some p\<rparr>
                in (if p then [] else [node_not_permitted env node (accountRulesOf s2)], s2))))"

definition NodePermitted :: "RelaySignerService \<Rightarrow> bool option" where
  "NodePermitted s = nodePermitted s"

definition AccountRulesAddress :: "rules_env \<Rightarrow> RelaySignerService \<Rightarrow> string option" where
  "AccountRulesAddress env s = map_option (\<lambda>r. pe_Hex env (rules_address r)) (accountRulesOf s)"

definition AccountRulesSource :: "RelaySignerService \<Rightarrow> string option" where
  "AccountRulesSource s = map_option rules_source (accountRulesOf s)"

definition ResolveAccountRules ::
    "time \<Rightarrow> time \<Rightarrow> rules_env \<Rightarrow> RelaySignerService \<Rightarrow> log_entry list \<times> RelaySignerService" where
  "ResolveAccountRules now answered env s =
     (if \<not> permissionsEnabled s then ([], s)
      else case resolveRules env s of
             (None, lg) \<Rightarrow>
               (lg @ [(LevelInfo, ''permissioning.absent'',
                   [(''note'', DText ''esta red no expone contrato de reglas: no se aplica permisionado de cuentas'')])],
                s\<lparr>rules := None\<rparr>)
           | (Some r, lg) \<Rightarrow>
               (case checkNodePermitted now answered env (s\<lparr>rules := Some r\<rparr>) of
                  (lg2, s1) \<Rightarrow>
                    (lg @ [(LevelInfo, ''permissioning.resolved'',
                        [(''accountRules'', DText (pe_Hex env (rules_address r))),
                         (''accountRulesSource'', DText (rules_source r))])] @ lg2, s1)))"

section \<open>Facts\<close>

text \<open>
  The contract of rules comes from the configuration whenever an address is written there, and
  from the network only when none is; in that case only a registry that could be asked, has code and
  publishes an address gives one. No failure of the network replaces one by the other.
\<close>

theorem resolveRules_precedence:
  "fst (resolveRules env s) =
     (case configuredRulesAddress env s of
        Some a \<Rightarrow> Some (newAccountRules a rulesFromConfig)
      | None \<Rightarrow>
          Option.bind (ingressAddress env s)
            (\<lambda>i. if pe_Connect env = None \<and> HasCode env i = Inr True then
                   (case pe_ResolveAccountRules env i of
                      Inr a \<Rightarrow> if a = 0 then None else Some (newAccountRules a rulesFromIngress)
                    | Inl _ \<Rightarrow> None)
                 else None))"
  by (cases "configuredRulesAddress env s"; cases "ingressAddress env s")
    (auto simp: resolveRules_def split: option.split sum.split bool.split)

text \<open>
  C18: the check of senders fails closed. With permissions enabled an account is let through only on a
  cached answer that has not expired or on what the contract answers now; a contract that could not be
  resolved, a node that does not answer and a failed call all end in an error, never in a permission.
\<close>

theorem VerifySender_fails_closed:
  assumes "permissionsEnabled s" "VerifySender now answered env account s = (Inr True, s')"
  shows "\<exists>r. rules s = Some r \<and>
    ((\<exists>e. rules_cache r account = Some e \<and> permitted e \<and> now < expiresAt e) \<or>
     (pe_Connect env = None \<and> pe_AccountPermitted env (rules_address r) account = Inr True))"
  using assms
  by (auto simp: VerifySender_def AccountPermitted_def accountRulesOf_def cached_def
      split: option.splits sum.splits if_splits prod.splits)

section \<open>How old an answer can be\<close>

fun queries :: "(time \<times> time \<times> rules_env \<times> Address) list \<Rightarrow> RelaySignerService \<Rightarrow> (go_error + bool) list \<times> RelaySignerService" where
  "queries [] s = ([], s)"
| "queries ((now, answered, env, account) # qs) s =
     (case AccountPermitted now answered env account s of
        (a, s1) \<Rightarrow> (case queries qs s1 of (as, s2) \<Rightarrow> (a # as, s2)))"

definition remembered :: "(Address \<times> bool \<times> time) list \<Rightarrow> accountRules \<Rightarrow> accountRules" where
  "remembered h r = fold (\<lambda>(k, v, t). remember k v t) h r"

lemma remembered_frame: "rules_address (remembered h r) = rules_address r"
  unfolding remembered_def by (induction h arbitrary: r) (auto simp: remember_def)

lemma remembered_snoc: "remembered (h @ [(k, v, t)]) r = remember k v t (remembered h r)"
  by (simp add: remembered_def)

lemma AccountPermitted_history:
  assumes "rules s = Some (remembered h (newAccountRules a src))"
    "AccountPermitted now answered env account s = (ans, s1)"
  shows "\<exists>h1. rules s1 = Some (remembered h1 (newAccountRules a src)) \<and> Cfg s1 = Cfg s \<and>
      set h1 \<subseteq> set h \<union> {(k, b, t). k = account \<and> pe_Connect env = None \<and>
         pe_AccountPermitted env a account = Inr b \<and> t = answered + rulesCacheTTL s}"
    and "ans = Inr b \<Longrightarrow> (pe_Connect env = None \<and> pe_AccountPermitted env a account = Inr b) \<or>
      (\<exists>t. (account, b, t) \<in> set h \<and> now < t)"
proof -
  have addr: "rules_address (remembered h (newAccountRules a src)) = a"
    by (simp add: remembered_frame newAccountRules_def)
  note unfolded = assms(2) [unfolded AccountPermitted_def accountRulesOf_def assms(1), simplified addr option.case]
  show "\<exists>h1. rules s1 = Some (remembered h1 (newAccountRules a src)) \<and> Cfg s1 = Cfg s \<and>
      set h1 \<subseteq> set h \<union> {(k, b, t). k = account \<and> pe_Connect env = None \<and>
         pe_AccountPermitted env a account = Inr b \<and> t = answered + rulesCacheTTL s}"
  proof (cases "s1 = s")
    case True
    with assms(1) show ?thesis by (intro exI [of _ h]) auto
  next
    case False
    with unfolded obtain p where "pe_Connect env = None" "pe_AccountPermitted env a account = Inr p"
        "s1 = s\<lparr>rules := Some (remember account p (answered + rulesCacheTTL s) (remembered h (newAccountRules a src)))\<rparr>"
      by (auto split: option.splits sum.splits)
    then show ?thesis
      by (intro exI [of _ "h @ [(account, p, answered + rulesCacheTTL s)]"]) (auto simp: remembered_snoc)
  qed
  show "(pe_Connect env = None \<and> pe_AccountPermitted env a account = Inr b) \<or> (\<exists>t. (account, b, t) \<in> set h \<and> now < t)"
    if "ans = Inr b"
  proof (cases "cached (remembered h (newAccountRules a src)) account now")
    case None
    with unfolded that show ?thesis by (auto split: option.splits sum.splits)
  next
    case (Some p)
    then have "\<exists>t. (account, p, t) \<in> set h \<and> now < t"
      using rules_cache.lookup_history [of h "newAccountRules a src" account now p]
      by (auto simp: remembered_def cached_def newAccountRules_def)
    with Some unfolded that show ?thesis by simp
  qed
qed

lemma queries_history:
  assumes "rules s = Some (remembered h (newAccountRules a src))" "queries qs s = (answers, s')"
    "i < length qs" "qs ! i = (now, answered, env, account)" "answers ! i = Inr b"
  shows "(\<exists>j\<le>i. \<exists>now0 t0 env0. qs ! j = (now0, t0, env0, account) \<and> pe_Connect env0 = None \<and>
      pe_AccountPermitted env0 a account = Inr b \<and> (j = i \<or> now < t0 + rulesCacheTTL s)) \<or>
    (\<exists>t. (account, b, t) \<in> set h \<and> now < t)"
  using assms
proof (induction qs arbitrary: s h i answers)
  case (Cons q qs)
  obtain now1 ans1 env1 acc1 where q: "q = (now1, ans1, env1, acc1)" by (metis surj_pair)
  obtain a1 s1 where ap: "AccountPermitted now1 ans1 env1 acc1 s = (a1, s1)" by fastforce
  obtain as where rest: "queries qs s1 = (as, s')" "answers = a1 # as"
    using Cons.prems(2) by (auto simp: q ap split: prod.splits)
  from AccountPermitted_history(1) [OF Cons.prems(1) ap] obtain h1 where h1:
      "rules s1 = Some (remembered h1 (newAccountRules a src))" "Cfg s1 = Cfg s"
      "set h1 \<subseteq> set h \<union> {(k, b, t). k = acc1 \<and> pe_Connect env1 = None \<and>
         pe_AccountPermitted env1 a acc1 = Inr b \<and> t = ans1 + rulesCacheTTL s}" by blast
  have ttl: "rulesCacheTTL s1 = rulesCacheTTL s" by (simp add: rulesCacheTTL_def h1(2))
  show ?case
  proof (cases i)
    case 0
    with Cons.prems rest q have "(now1, ans1, env1, acc1) = (now, answered, env, account)" "a1 = Inr b" by simp_all
    with AccountPermitted_history(2) [OF Cons.prems(1) ap, of b] 0 q show ?thesis by auto
  next
    case (Suc i')
    with Cons.prems rest have i': "i' < length qs" "qs ! i' = (now, answered, env, account)" "as ! i' = Inr b" by simp_all
    from Cons.IH [OF h1(1) rest(1) i'] show ?thesis
    proof
      assume "\<exists>j\<le>i'. \<exists>now0 t0 env0. qs ! j = (now0, t0, env0, account) \<and> pe_Connect env0 = None \<and>
        pe_AccountPermitted env0 a account = Inr b \<and> (j = i' \<or> now < t0 + rulesCacheTTL s1)"
      then obtain j now0 t0 env0 where "j \<le> i'" "qs ! j = (now0, t0, env0, account)" "pe_Connect env0 = None"
        "pe_AccountPermitted env0 a account = Inr b" "j = i' \<or> now < t0 + rulesCacheTTL s1" by blast
      with Suc ttl show ?thesis by (intro disjI1 exI [of _ "Suc j"]) auto
    next
      assume "\<exists>t. (account, b, t) \<in> set h1 \<and> now < t"
      with h1(3) show ?thesis using q Suc by (force intro: exI [of _ 0])
    qed
  qed
qed simp

text \<open>
  C19: no answer is older than the lifetime of the cache. Whatever the service was asked before, an
  answer about an account is what the contract itself said, in this query or in an earlier one whose
  answer was stored less than that lifetime ago.
\<close>

theorem answers_are_recent:
  assumes "rules s = Some (newAccountRules a src)" "queries qs s = (answers, s')"
    "i < length qs" "qs ! i = (now, answered, env, account)" "answers ! i = Inr b"
  shows "\<exists>j\<le>i. \<exists>now0 t0 env0. qs ! j = (now0, t0, env0, account) \<and> pe_Connect env0 = None \<and>
      pe_AccountPermitted env0 a account = Inr b \<and> (j = i \<or> now < t0 + rulesCacheTTL s)"
  using queries_history [of s "[]" a src qs answers s' i now answered env account b] assms
  by (auto simp: remembered_def)

section \<open>Concrete queries\<close>

text \<open>A network that permits the account 7 and then cannot be reached.\<close>

definition sample_rules_env :: rules_env where
  "sample_rules_env =
     \<lparr>pe_Connect = None, HasCode = (\<lambda>_. Inr True), pe_ResolveAccountRules = (\<lambda>_. Inr 5),
      pe_AccountPermitted = (\<lambda>_ account. Inr (account = 7)), IsHexAddress = (\<lambda>_. True), pe_HexToAddress = (\<lambda>_. 5),
      pe_Hex = (\<lambda>_. ''0x05''), pe_NodeAddress = Inr 1, pe_ErrorFields = (\<lambda>_. [])\<rparr>"

definition unreachable_rules_env :: rules_env where
  "unreachable_rules_env = sample_rules_env\<lparr>pe_Connect := Some (errors_New ''unreachable'' (- 32000))\<rparr>"

definition enforcing_service :: RelaySignerService where
  "enforcing_service =
     (new_service (Some (sample_config\<lparr>Security := \<lparr>PermissionsEnabled = True, AccountContractAddress = ''0x05''\<rparr>\<rparr>)))
       \<lparr>rules := Some (newAccountRules 5 rulesFromConfig)\<rparr>"

lemmas enforcing_defs = enforcing_service_def new_service_def sample_config_def sample_rules_env_def unreachable_rules_env_def
  newAccountRules_def

theorem VerifySender_fails_closed_witness:
  "\<exists>s'. VerifySender 0 0 sample_rules_env 7 enforcing_service = (Inr True, s') \<and>
     pe_AccountPermitted sample_rules_env 5 7 = Inr True"
proof -
  obtain s' where v: "VerifySender 0 0 sample_rules_env 7 enforcing_service = (Inr True, s')"
    by (simp add: VerifySender_def AccountPermitted_def accountRulesOf_def cached_def enforcing_defs)
  have "permissionsEnabled enforcing_service" by (simp add: permissionsEnabled_def enforcing_defs)
  from VerifySender_fails_closed [OF this v] v show ?thesis by (auto simp: enforcing_defs)
qed

theorem answers_are_recent_witness:
  "\<exists>answers s'. queries [(0, 0, sample_rules_env, 7), (second, second, unreachable_rules_env, 7)] enforcing_service = (answers, s') \<and>
     answers ! 1 = Inr True \<and> second < rulesCacheTTL enforcing_service"
proof -
  let ?qs = "[(0, 0, sample_rules_env, 7), (second, second, unreachable_rules_env, 7)]"
  obtain answers s' where q: "queries ?qs enforcing_service = (answers, s')" "answers ! 1 = Inr True"
    by (simp add: AccountPermitted_def accountRulesOf_def cached_def remember_def rulesCacheTTL_def config_defaults
        durations go_int64_def enforcing_defs)
  have "rules enforcing_service = Some (newAccountRules 5 rulesFromConfig)" by (simp add: enforcing_service_def)
  from answers_are_recent [OF this q(1), of 1 second second unreachable_rules_env 7 True] q
  have "second < rulesCacheTTL enforcing_service"
    by (auto simp: enforcing_defs less_Suc_eq_le le_Suc_eq)
  with q show ?thesis by blast
qed

end
