(* ===== verification/Metatx.thy ===== *)
theory Metatx
  imports Hex Reorder Revert Permissioning
begin

text \<open>
  What a raw transaction says about itself: its hash and size (\<open>service/metatx.go\<close>), the suffix the
  gas model puts behind its data, and the validation of that suffix (\<open>service/validation.go\<close>). Also
  the address of the node (\<open>service/info.go\<close>) and the decoding of a raw transaction
  (\<open>service/transaction.go\<close>), which both rest on it.
\<close>

section \<open>The libraries\<close>

text \<open>
  \<open>types.Transaction\<close> as the sources read it. The signature values may be missing; a transaction
  that could not be decoded is whatever the library leaves in the value.
\<close>

record Transaction =
  tx_to :: "Address option"
  tx_nonce :: uint64
  tx_gas :: uint64
  tx_gasPrice :: nat
  tx_value :: nat
  tx_data :: bytes
  tx_v :: "nat option"
  tx_r :: "nat option"
  tx_s :: "nat option"

text \<open>The payload that is signed again (\<open>model/RawTransaction.go\<close>).\<close>

record txdata =
  AccountNonce :: uint64
  Price :: nat
  GasLimit :: uint64
  Recipient :: "Address option"
  Amount :: nat
  Payload :: bytes

definition newTransaction :: "uint64 \<Rightarrow> Address option \<Rightarrow> nat \<Rightarrow> uint64 \<Rightarrow> nat \<Rightarrow> bytes \<Rightarrow> txdata" where
  "newTransaction n to amount gasLimit gasPrice dat =
     \<lparr>AccountNonce = n, Price = gasPrice, GasLimit = gasLimit, Recipient = to, Amount = amount, Payload = dat\<rparr>"

definition NewTransaction :: "uint64 \<Rightarrow> Address \<Rightarrow> nat \<Rightarrow> uint64 \<Rightarrow> nat \<Rightarrow> bytes \<Rightarrow> txdata" where
  "NewTransaction n to amount gasLimit gasPrice dat = newTransaction n (Some to) amount gasLimit gasPrice dat"

definition NewContractCreation :: "uint64 \<Rightarrow> nat \<Rightarrow> uint64 \<Rightarrow> nat \<Rightarrow> bytes \<Rightarrow> txdata" where
  "NewContractCreation n amount gasLimit gasPrice dat = newTransaction n None amount gasLimit gasPrice dat"

text \<open>
  The functions of go-ethereum on top of those that read a receipt: parsing a hexadecimal address,
  RLP in both directions, the recovery of the signer, and the curve.
\<close>

record meta_lib = eth_lib +
  lib_HexToAddress :: "string \<Rightarrow> Address"
  rlp_DecodeBytes :: "bytes \<Rightarrow> Transaction"
  rlp_EncodeToBytes :: "txdata \<Rightarrow> go_error + bytes"
  AsMessage_From :: "Transaction \<Rightarrow> go_error + Address"
  lib_HexToECDSA :: "string \<Rightarrow> go_error + nat"
  lib_Public :: "nat \<Rightarrow> nat option"
  PubkeyToAddress :: "nat \<Rightarrow> Address"
  hex_error_text :: "hex_error \<Rightarrow> string"

text \<open>\<open>common.HexToAddress\<close> reads back what \<open>Address.Hex\<close> writes.\<close>

definition hex_address_ok :: "meta_lib \<Rightarrow> bool" where
  "hex_address_ok lib \<longleftrightarrow> (\<forall>a. lib_HexToAddress lib (Address_Hex lib a) = a)"

section \<open>The raw transaction\<close>

definition RawTxHash :: "meta_lib \<Rightarrow> string \<Rightarrow> string" where
  "RawTxHash lib rawTx =
     (case hex_DecodeString (TrimPrefix rawTx ''0x'') of
        (_, Some e) \<Rightarrow> []
      | (raw, None) \<Rightarrow> ''0x'' @ hex_EncodeToString (Keccak256 lib raw))"

definition RawTxBytes :: "string \<Rightarrow> nat" where
  "RawTxBytes rawTx = length (TrimPrefix rawTx ''0x'') div 2"

definition trimHexPrefix :: "string \<Rightarrow> string" where
  "trimHexPrefix v =
     (if length v \<ge> 2 \<and> v ! 0 = CHR ''0'' \<and> (v ! 1 = CHR ''x'' \<or> v ! 1 = CHR ''X'') then drop 2 v else v)"

definition GetTransaction :: "meta_lib \<Rightarrow> string \<Rightarrow> go_error + Transaction" where
  "GetTransaction lib rawTx =
     (case hex_DecodeString rawTx of
        (_, Some e) \<Rightarrow> Inl (errors_New (''Error Decoding Raw Transaction: '' @ hex_error_text lib e) (- 32012))
      | (rawTxBytes, None) \<Rightarrow> Inr (rlp_DecodeBytes lib rawTxBytes))"

section \<open>The suffix of the gas model\<close>

definition gasModelSuffixBytes :: nat where "gasModelSuffixBytes = 64"

record GasModelFields =
  Decoded :: bool
  gm_NodeAddress :: string
  Expiration :: "nat option"
  InnerData :: bytes
  Selector :: string

definition DecodeGasModelSuffix :: "meta_lib \<Rightarrow> bytes \<Rightarrow> GasModelFields" where
  "DecodeGasModelSuffix lib dat =
     (if length dat < gasModelSuffixBytes
      then \<lparr>Decoded = False, gm_NodeAddress = [], Expiration = None, InnerData = [], Selector = []\<rparr>
      else
        (let suffix = drop (length dat - gasModelSuffixBytes) dat;
             inner = take (length dat - gasModelSuffixBytes) dat
         in \<lparr>Decoded = True,
             gm_NodeAddress = Address_Hex lib (BytesToAddress lib (take 20 (drop 12 suffix))),
             Expiration = Some (big_of_bytes (take 32 (drop 32 suffix))),
             InnerData = inner,
             Selector = (if length inner \<ge> 4 then ''0x'' @ hex_EncodeToString (take 4 inner) else [])\<rparr>))"

text \<open>\<open>ExpirationSeconds\<close>: the value and whether it is representable, as one option.\<close>

definition ExpirationSeconds :: "GasModelFields \<Rightarrow> uint64 option" where
  "ExpirationSeconds f =
     (case Expiration f of
        Some e \<Rightarrow> if Decoded f \<and> e < 2 ^ 64 then Some (word_of_nat e) else None
      | None \<Rightarrow> None)"

section \<open>The node\<close>

definition NodeAddress_of :: "meta_lib \<Rightarrow> Config \<Rightarrow> go_error + Address" where
  "NodeAddress_of lib c =
     (case lib_HexToECDSA lib (Key (Application c)) of
        Inl e \<Rightarrow> Inl e
      | Inr privateKey \<Rightarrow>
          (case lib_Public lib privateKey of
             None \<Rightarrow> Inl (errors_New ''error casting public key to ECDSA'' (- 32602))
           | Some publicKey \<Rightarrow> Inr (PubkeyToAddress lib publicKey)))"

section \<open>Validating the suffix\<close>

definition validationConfig :: "RelaySignerService \<Rightarrow> ValidationConfig" where
  "validationConfig s =
     (case Cfg s of
        None \<Rightarrow> \<lparr>EnforceNodeAddress = False, EnforceExpiration = False, MinExpirationSeconds = 0, ExpirationToleranceSeconds = 0\<rparr>
      | Some c \<Rightarrow> Validation c)"

text \<open>\<open>-value\<close> is computed in 64 bits, so the least integer is its own opposite.\<close>

definition decimalInt :: "int \<Rightarrow> string" where
  "decimalInt v = (if v < 0 then ''-'' @ decimal (word_of_int (go_int64 (- v))) else decimal (word_of_int v))"

definition checkNodeAddress :: "meta_lib \<Rightarrow> go_error + Address \<Rightarrow> GasModelFields \<Rightarrow> Rejection option" where
  "checkNodeAddress lib nodeAddress f =
     (case nodeAddress of
        Inl e \<Rightarrow> Some (Reject e CodeRelayError)
      | Inr mine \<Rightarrow>
          (let target = lib_HexToAddress lib (gm_NodeAddress f)
           in if target = mine then None
              else Some (RejectWithDetails
                     (errors_New (''The metatx targets node '' @ Address_Hex lib target @ '' but this relayer is '' @
                        Address_Hex lib mine) (- 32000))
                     CodeWrongNodeAddress
                     [(''nodeAddress'', DText (Address_Hex lib target)), (''relayerNodeAddress'', DText (Address_Hex lib mine))])))"

definition expired :: "uint64 \<Rightarrow> int \<Rightarrow> Rejection" where
  "expired expiration now =
     RejectWithDetails
       (errors_New (''The metatx has expired (expiration='' @ decimalInt (int64_of_uint64 expiration) @
          '', now='' @ decimalInt now @ '')'') (- 32000))
       CodeExpired
       [(''expiration'', DUint expiration), (''now'', DInt now)]"

definition expiration_too_low :: "uint64 \<Rightarrow> int \<Rightarrow> ValidationConfig \<Rightarrow> Rejection" where
  "expiration_too_low expiration now validation =
     (let remaining = go_int64 (int64_of_uint64 expiration - now)
      in RejectWithDetails
           (errors_New (''expiration too low: the metatx expires in '' @ decimalInt remaining @
              '' s and the minimum is '' @ decimalInt (MinExpirationSeconds validation) @
              '' s ('' @ decimalInt (ExpirationToleranceSeconds validation) @
              '' s tolerance for latency; expiration='' @ decimalInt (int64_of_uint64 expiration) @
              '', now='' @ decimalInt now @ '')'') (- 32000))
           CodeExpirationTooLow
           [(''expiration'', DUint expiration), (''remainingSeconds'', DInt remaining),
            (''minimumSeconds'', DInt (MinExpirationSeconds validation)),
            (''toleranceSeconds'', DInt (ExpirationToleranceSeconds validation))])"

definition checkExpiration :: "GasModelFields \<Rightarrow> int \<Rightarrow> ValidationConfig \<Rightarrow> Rejection option" where
  "checkExpiration f now validation =
     (case ExpirationSeconds f of
        None \<Rightarrow> None
      | Some expiration \<Rightarrow>
          if int64_of_uint64 expiration \<le> now then Some (expired expiration now)
          else if go_int64 (int64_of_uint64 expiration - now) \<ge> ExpirationFloor validation then None
          else Some (expiration_too_low expiration now validation))"

definition validateGasModelSuffix ::
    "meta_lib \<Rightarrow> go_error + Address \<Rightarrow> int \<Rightarrow> bytes \<Rightarrow> RelaySignerService \<Rightarrow> Rejection option \<times> log_entry list" where
  "validateGasModelSuffix lib nodeAddress now dat s =
     (let validation = validationConfig s
      in if \<not> EnforceNodeAddress validation \<and> \<not> EnforceExpiration validation then (None, [])
         else
           (let f = DecodeGasModelSuffix lib dat
            in if \<not> Decoded f
               then (None, [(LevelDebug, ''relay.suffix_absent'', [(''dataBytes'', DInt (int (length dat)))])])
               else
                 (case if EnforceNodeAddress validation then checkNodeAddress lib nodeAddress f else None of
                    Some r \<Rightarrow> (Some r, [])
                  | None \<Rightarrow> (if EnforceExpiration validation then checkExpiration f now validation else None, []))))"

section \<open>Facts\<close>

text \<open>
  C21: the suffix is read back as it was written: data followed by a padded address and an expiration
  of 256 bits decodes to that data, that address and that expiration, whatever the data ends with.
\<close>

theorem suffix_roundtrip:
  assumes "length node = 20" "expiration < 2 ^ 256"
  shows "DecodeGasModelSuffix lib (inner @ replicate 12 0 @ node @ be_bytes 32 expiration) =
    \<lparr>Decoded = True, gm_NodeAddress = Address_Hex lib (BytesToAddress lib node), Expiration = Some expiration,
     InnerData = inner, Selector = (if length inner \<ge> 4 then ''0x'' @ hex_EncodeToString (take 4 inner) else [])\<rparr>"
proof -
  have "drop 32 (replicate 12 0 @ node @ be_bytes 32 expiration) = be_bytes 32 expiration"
    using assms(1) by simp
  moreover have "take 20 (drop 12 (replicate 12 0 @ node @ be_bytes 32 expiration)) = node"
    using assms(1) by simp
  moreover have "big_of_bytes (be_bytes 32 expiration) = expiration"
    using assms(2) by (simp add: big_of_be_bytes)
  ultimately show ?thesis
    using assms(1) by (simp add: DecodeGasModelSuffix_def gasModelSuffixBytes_def Let_def del: be_bytes.simps)
qed

lemma checkExpiration_accepts:
  assumes "Decoded f" "Expiration f = Some e" "0 \<le> now" "now < 2 ^ 63"
  shows "checkExpiration f now v = None \<longleftrightarrow>
    2 ^ 64 \<le> e \<or> (e < 2 ^ 63 \<and> now < int e \<and> now + ExpirationFloor v \<le> int e)"
proof (cases "e < 2 ^ 64")
  case True
  then have u: "uint (word_of_nat e :: uint64) = int e"
    by (simp add: unsigned_of_nat take_bit_nat_eq_self flip: of_nat_take_bit)
  show ?thesis
  proof (cases "e < 2 ^ 63")
    case True
    then have "int e < 2 ^ 63" by (simp flip: of_nat_less_iff)
    then have "int64_of_uint64 (word_of_nat e) = int e" "now < int e \<Longrightarrow> go_int64 (int e - now) = int e - now"
      using assms(3,4) by (simp_all add: int64_of_uint64_small u go_int64_def)
    with True \<open>e < 2 ^ 64\<close> assms show ?thesis by (auto simp: checkExpiration_def ExpirationSeconds_def)
  next
    case False
    then have "2 ^ 63 \<le> int e" "int e < 2 ^ 64" using \<open>e < 2 ^ 64\<close> by (simp_all flip: of_nat_less_iff of_nat_le_iff)
    then have "int64_of_uint64 (word_of_nat e) = int e - 2 ^ 64" by (simp add: int64_of_uint64_big u)
    with False \<open>e < 2 ^ 64\<close> \<open>int e < 2 ^ 64\<close> assms show ?thesis by (simp add: checkExpiration_def ExpirationSeconds_def)
  qed
next
  case False
  with assms show ?thesis by (simp add: checkExpiration_def ExpirationSeconds_def)
qed

text \<open>
  C20: with both demands on, a metatx with a readable suffix is accepted exactly when the suffix names
  this node and its expiration is either beyond 64 bits, and so compared with nothing, or lies in the
  future by at least the floor. In particular every expiration from \<open>2 ^ 63\<close> up to \<open>2 ^ 64\<close>, however
  far in the future, is refused as expired.
\<close>

theorem suffix_accepted_iff:
  assumes "hex_address_ok lib" "EnforceNodeAddress (validationConfig s)" "EnforceExpiration (validationConfig s)"
    "64 \<le> length dat" "0 \<le> now" "now < 2 ^ 63"
  shows "fst (validateGasModelSuffix lib (Inr mine) now dat s) = None \<longleftrightarrow>
    BytesToAddress lib (take 20 (drop (length dat - 52) dat)) = mine \<and>
    (let e = big_of_bytes (drop (length dat - 32) dat)
     in 2 ^ 64 \<le> e \<or> (e < 2 ^ 63 \<and> now < int e \<and> now + ExpirationFloor (validationConfig s) \<le> int e))"
proof -
  let ?f = "DecodeGasModelSuffix lib dat"
  have f: "Decoded ?f" "gm_NodeAddress ?f = Address_Hex lib (BytesToAddress lib (take 20 (drop (length dat - 52) dat)))"
    "Expiration ?f = Some (big_of_bytes (drop (length dat - 32) dat))"
    using assms(4) by (simp_all add: DecodeGasModelSuffix_def gasModelSuffixBytes_def Let_def)
  have node: "checkNodeAddress lib (Inr mine) ?f = None \<longleftrightarrow> BytesToAddress lib (take 20 (drop (length dat - 52) dat)) = mine"
    using assms(1) by (simp add: checkNodeAddress_def hex_address_ok_def f Let_def)
  show ?thesis
    using assms(2,3) node checkExpiration_accepts [OF f(1,3) assms(5,6), of "validationConfig s"] f(1)
    by (auto simp: validateGasModelSuffix_def Let_def split: option.split)
qed


section \<open>Concrete suffixes\<close>

definition sample_meta_lib :: meta_lib where
  "sample_meta_lib =
     eth_lib.extend sample_lib
       \<lparr>lib_HexToAddress = (\<lambda>v. word_of_nat (big_of_bytes (fst (hex_DecodeString (drop 2 v))))),
        rlp_DecodeBytes = (\<lambda>bs. \<lparr>tx_to = Some 3, tx_nonce = 5, tx_gas = 21000, tx_gasPrice = 0, tx_value = 0, tx_data = bs,
          tx_v = Some 27, tx_r = Some 1, tx_s = Some 2\<rparr>),
        rlp_EncodeToBytes = (\<lambda>d. Inr (Payload d)), AsMessage_From = (\<lambda>_. Inr 7),
        lib_HexToECDSA = (\<lambda>_. Inr 1), lib_Public = Some, PubkeyToAddress = word_of_nat, hex_error_text = (\<lambda>_. [])\<rparr>"

lemma sample_meta_lib_simps [simp]:
  "Address_Hex sample_meta_lib = Address_Hex sample_lib" "BytesToAddress sample_meta_lib = BytesToAddress sample_lib"
  "lib_HexToAddress sample_meta_lib v = word_of_nat (big_of_bytes (fst (hex_DecodeString (drop 2 v))))"
  by (simp_all add: sample_meta_lib_def eth_lib.defs)

lemma hex_address_ok_sample: "hex_address_ok sample_meta_lib"
proof -
  have "unat (a :: Address) < 256 ^ 20" for a
    using unsigned_less [of a, where ?'a = nat] by simp
  then show ?thesis
    by (simp add: hex_address_ok_def sample_lib_def hex_Decode_Encode big_of_be_bytes del: be_bytes.simps)
qed

definition demanding_service :: RelaySignerService where
  "demanding_service = new_service (Some (sample_config\<lparr>Validation := DefaultValidationConfig
     \<lparr>EnforceNodeAddress := True, EnforceExpiration := True\<rparr>\<rparr>))"

theorem suffix_roundtrip_witness:
  "DecodeGasModelSuffix sample_meta_lib ([1, 2, 3, 4] @ replicate 12 0 @ replicate 20 9 @ be_bytes 32 1700000000) =
    \<lparr>Decoded = True, gm_NodeAddress = Address_Hex sample_meta_lib (BytesToAddress sample_meta_lib (replicate 20 9)),
     Expiration = Some 1700000000, InnerData = [1, 2, 3, 4], Selector = ''0x'' @ hex_EncodeToString [1, 2, 3, 4]\<rparr>"
proof -
  have "length (replicate 20 9 :: bytes) = 20" "(1700000000 :: nat) < 2 ^ 256" "take 4 [1, 2, 3, 4] = [1, 2, 3, 4 :: byte]"
    "4 \<le> length [1, 2, 3, 4 :: byte]" by simp_all
  from suffix_roundtrip [OF this(1,2), of sample_meta_lib "[1, 2, 3, 4]"] this(3,4) show ?thesis by (simp only: if_True)
qed

text \<open>Two suffixes for the node 9: one valid until 1700000300, one until \<open>2 ^ 63\<close>.\<close>

theorem suffix_accepted_iff_witness:
  "fst (validateGasModelSuffix sample_meta_lib (Inr 9) 1700000000 (be_bytes 32 9 @ be_bytes 32 1700000300) demanding_service) = None \<and>
   fst (validateGasModelSuffix sample_meta_lib (Inr 9) 1700000000 (be_bytes 32 9 @ be_bytes 32 (2 ^ 63)) demanding_service) \<noteq> None"
proof -
  have on: "EnforceNodeAddress (validationConfig demanding_service)" "EnforceExpiration (validationConfig demanding_service)"
    "ExpirationFloor (validationConfig demanding_service) = 298"
    by (simp_all add: validationConfig_def demanding_service_def new_service_def DefaultValidationConfig_def
        ExpirationFloor_def config_defaults)
  have cut: "length (be_bytes 32 9 @ be_bytes 32 e) = 64" "drop (64 - 32) (be_bytes 32 9 @ be_bytes 32 e) = be_bytes 32 e"
    "take 20 (drop (64 - 52) (be_bytes 32 9 @ be_bytes 32 e)) = drop 12 (be_bytes 32 9)" for e
    by (simp_all del: be_bytes.simps)
  have "big_of_bytes (drop 12 (be_bytes 32 9)) = 9" by code_simp
  then have node: "BytesToAddress sample_lib (drop 12 (be_bytes 32 9)) = 9"
    by (simp add: sample_lib_def del: be_bytes.simps)
  show ?thesis
    using suffix_accepted_iff [OF hex_address_ok_sample on(1,2), of "be_bytes 32 9 @ be_bytes 32 1700000300" 1700000000 9]
      suffix_accepted_iff [OF hex_address_ok_sample on(1,2), of "be_bytes 32 9 @ be_bytes 32 (2 ^ 63)" 1700000000 9]
    by (simp add: cut node big_of_be_bytes on(3) del: be_bytes.simps)
qed

end
