(* ===== verification/Turn.thy ===== *)
theory Turn
  imports Reorder
begin

text \<open>
  \<open>service/reorder_turn.go\<close>: a metatx whose nonce is ahead of the expected one waits for its turn.
  \<open>awaitTurn\<close> is a loop in the goroutine of the request that takes and drops \<open>sendersLock\<close> several
  times per round, so it is a state machine here: a program counter for the next critical section,
  the local variables of the function, and a step function whose inputs are what the goroutine
  observes (the clock, the node and which case of its \<open>select\<close> is ready). Other goroutines run
  between any two steps; \<open>Send\<close> interleaves them.
\<close>

section \<open>The machine\<close>

definition turnInTurn :: string where "turnInTurn = ''in_turn''"
definition turnWindowExpired :: string where "turnWindowExpired = ''window_expired''"
definition turnTooManyInflight :: string where "turnTooManyInflight = ''too_many_inflight''"
definition turnClientGone :: string where "turnClientGone = ''client_gone''"

definition reorderWindow :: "RelaySignerService \<Rightarrow> duration" where
  "reorderWindow s =
     (case Cfg s of
        Some c \<Rightarrow> if WindowMs (Reorder c) > 0 then go_int64 (WindowMs (Reorder c) * millisecond)
                  else DefaultReorderWindowMs * millisecond
      | None \<Rightarrow> DefaultReorderWindowMs * millisecond)"

text \<open>What the wait leaves in the log.\<close>

datatype turn_event =
    RelayHeld uint64 uint64 uint64 int
  | RelayTurn int string uint64 uint64

text \<open>
  How the wait ends: nil lets the metatx go on to the send path, a rejection ends the request. The
  program counter names the critical section that comes next; \<open>TurnRelease\<close> is the closure
  \<open>release\<close> followed by the return.
\<close>

datatype turn_result = TurnOver | TurnRejected Rejection

datatype turn_pc =
    TurnExpect
  | TurnHold
  | TurnWindow
  | TurnSurplus duration
  | TurnWait duration
  | TurnSelect ref time
  | TurnGone
  | TurnWoken
  | TurnRelease string uint64 turn_result
  | TurnDone turn_result

record turn =
  turn_pc :: turn_pc
  turn_window :: duration
  turn_deadline :: time
  turn_startedAt :: time
  turn_lastExpected :: uint64
  turn_seenExpected :: bool
  turn_entry :: "ref option"
  turn_expected :: uint64
  turn_log :: "turn_event list"

datatype select_case = SelectWake | SelectTimer | SelectCtxDone

record turn_input =
  in_now :: time
  in_env :: node_env
  in_case :: select_case

definition awaitTurn_init :: "time \<Rightarrow> RelaySignerService \<Rightarrow> turn" where
  "awaitTurn_init now s =
     \<lparr>turn_pc = TurnExpect, turn_window = reorderWindow s, turn_deadline = now + reorderWindow s,
      turn_startedAt = now, turn_lastExpected = 0, turn_seenExpected = False, turn_entry = None,
      turn_expected = 0, turn_log = []\<rparr>"

definition client_gone :: Rejection where
  "client_gone =
     Reject (errors_New ''the client closed the connection while the metatx waited for its turn'' (- 32000))
       CodeRelayError"

text \<open>The closure \<open>release\<close>: it only acts, and only logs, when the metatx was held.\<close>

definition turn_release ::
    "turn_input \<Rightarrow> PreparedMetaTx \<Rightarrow> string \<Rightarrow> uint64 \<Rightarrow> turn \<Rightarrow> RelaySignerService \<Rightarrow>
     turn \<times> RelaySignerService" where
  "turn_release i p reason expected t s =
     (case turn_entry t of
        None \<Rightarrow> (t, s)
      | Some h \<Rightarrow>
          (t\<lparr>turn_entry := None,
             turn_log := turn_log t @
               [RelayTurn (Milliseconds (in_now i - turn_startedAt t)) reason (Nonce p) expected]\<rparr>,
           unhold (senderKey (SenderKey p)) h s))"

text \<open>
  One step. The select proceeds on the wake-up channel only when it was closed, and on the timer
  only once the instant passed; the context may end at any moment.
\<close>

definition turn_step ::
    "turn_input \<Rightarrow> PreparedMetaTx \<Rightarrow> turn \<Rightarrow> RelaySignerService \<Rightarrow> (turn \<times> RelaySignerService) option" where
  "turn_step i p t s =
     (let key = senderKey (SenderKey p) in
      case turn_pc t of
        TurnExpect \<Rightarrow>
          (case expectedNonce (in_now i) (in_env i) (SenderKey p) s of
             (Inl e, s1) \<Rightarrow>
               Some (t\<lparr>turn_pc := TurnRelease turnWindowExpired 0 (TurnRejected (Reject e CodeRelayError))\<rparr>, s1)
           | (Inr expected, s1) \<Rightarrow>
               if Nonce p \<le> expected then Some (t\<lparr>turn_pc := TurnRelease turnInTurn expected TurnOver\<rparr>, s1)
               else Some (t\<lparr>turn_pc := (if turn_entry t = None then TurnHold else TurnWindow),
                            turn_expected := expected\<rparr>, s1))
      | TurnHold \<Rightarrow>
          (case hold key (Nonce p) s of
             (h, s1) \<Rightarrow>
               Some (t\<lparr>turn_pc := TurnWindow, turn_entry := Some h,
                       turn_log := turn_log t @
                         [RelayHeld (Nonce p) (turn_expected t) (Nonce p - turn_expected t)
                            (Milliseconds (turn_window t))]\<rparr>, s1))
      | TurnWindow \<Rightarrow>
          (let t1 = (if \<not> turn_seenExpected t \<or> turn_expected t > turn_lastExpected t
                     then t\<lparr>turn_seenExpected := True, turn_lastExpected := turn_expected t,
                            turn_deadline := in_now i + turn_window t\<rparr>
                     else t);
               remaining = turn_deadline t1 - in_now i
           in if remaining \<le> 0
              then Some (t1\<lparr>turn_pc := TurnRelease turnWindowExpired (turn_expected t1) TurnOver\<rparr>, s)
              else Some (t1\<lparr>turn_pc := TurnSurplus remaining\<rparr>, s))
      | TurnSurplus remaining \<Rightarrow>
          (case turn_entry t of
             None \<Rightarrow> None
           | Some h \<Rightarrow>
               (case surplusHeld (in_now i) key h s of
                  ((inflight, surplus), s1) \<Rightarrow>
                    if surplus
                    then Some (t\<lparr>turn_pc := TurnRelease turnTooManyInflight (turn_expected t)
                                   (TurnRejected (tooManyInflight inflight (maxInflightPerUser s1)))\<rparr>, s1)
                    else Some (t\<lparr>turn_pc := TurnWait remaining\<rparr>, s1)))
      | TurnWait remaining \<Rightarrow>
          (case turn_entry t of
             None \<Rightarrow> None
           | Some h \<Rightarrow>
               (case waitTurnLocked h s of
                  (ch, s1) \<Rightarrow> Some (t\<lparr>turn_pc := TurnSelect ch (in_now i + remaining)\<rparr>, s1)))
      | TurnSelect ch at \<Rightarrow>
          (case in_case i of
             SelectWake \<Rightarrow> if chan_closes s ch > 0 then Some (t\<lparr>turn_pc := TurnWoken\<rparr>, s) else None
           | SelectTimer \<Rightarrow> if at \<le> in_now i then Some (t\<lparr>turn_pc := TurnWoken\<rparr>, s) else None
           | SelectCtxDone \<Rightarrow> Some (t\<lparr>turn_pc := TurnGone\<rparr>, s))
      | TurnGone \<Rightarrow>
          (case turn_entry t of
             None \<Rightarrow> None
           | Some h \<Rightarrow>
               Some (t\<lparr>turn_pc := TurnRelease turnClientGone (turn_expected t) (TurnRejected client_gone)\<rparr>,
                     stopWaitingLocked h s))
      | TurnWoken \<Rightarrow>
          (case turn_entry t of
             None \<Rightarrow> None
           | Some h \<Rightarrow>
               (let s1 = stopWaitingLocked h s
                in case inflightLocked (in_now i) key s1 of
                     (_, s2) \<Rightarrow>
                       if evicted (held_heap s1 h)
                       then Some (t\<lparr>turn_pc := TurnRelease turnTooManyInflight (turn_expected t)
                                      (TurnRejected (tooManyInflight (evictedInflight (held_heap s1 h))
                                         (maxInflightPerUser s2)))\<rparr>, s2)
                       else Some (t\<lparr>turn_pc := TurnExpect\<rparr>, s2)))
      | TurnRelease reason expected result \<Rightarrow>
          (case turn_release i p reason expected t s of
             (t1, s1) \<Rightarrow> Some (t1\<lparr>turn_pc := TurnDone result\<rparr>, s1))
      | TurnDone _ \<Rightarrow> None)"

section \<open>What one goroutine can rely on\<close>

text \<open>
  The local states of a wait when the rest of the service does anything at all between two of its
  steps: the shared state each step runs on is unconstrained. The counter says how often the window
  was renewed.
\<close>

inductive turn_reach :: "PreparedMetaTx \<Rightarrow> nat \<Rightarrow> turn \<Rightarrow> bool" for p where
  turn_start: "turn_reach p 0 (awaitTurn_init now s)"
| turn_next: "turn_reach p n t \<Longrightarrow> turn_step i p t s = Some (t', s') \<Longrightarrow>
    turn_reach p (if turn_seenExpected t' \<and> (turn_seenExpected t \<longrightarrow> turn_lastExpected t < turn_lastExpected t')
                  then Suc n else n) t'"

definition release_ok :: "PreparedMetaTx \<Rightarrow> string \<Rightarrow> uint64 \<Rightarrow> turn_result \<Rightarrow> bool" where
  "release_ok p reason expected result =
     (case result of
        TurnOver \<Rightarrow> (reason = turnInTurn \<and> Nonce p \<le> expected) \<or>
                    (reason = turnWindowExpired \<and> expected < Nonce p)
      | TurnRejected r \<Rightarrow> (reason = turnTooManyInflight \<and> code r = CodeTooManyInflight) \<or>
                          (reason \<noteq> turnTooManyInflight \<and> code r = CodeRelayError))"

definition turn_pc_ok :: "PreparedMetaTx \<Rightarrow> turn \<Rightarrow> bool" where
  "turn_pc_ok p t =
     (case turn_pc t of
        TurnExpect \<Rightarrow> True
      | TurnHold \<Rightarrow> turn_entry t = None \<and> turn_expected t < Nonce p
      | TurnRelease reason expected result \<Rightarrow> release_ok p reason expected result
      | TurnDone result \<Rightarrow>
          turn_entry t = None \<and>
          (turn_log t = [] \<or> (\<exists>ms reason expected h. turn_log t = [h, RelayTurn ms reason (Nonce p) expected] \<and>
              release_ok p reason expected result))
      | _ \<Rightarrow> turn_entry t \<noteq> None \<and> turn_expected t < Nonce p)"

definition turn_log_ok :: "PreparedMetaTx \<Rightarrow> turn \<Rightarrow> bool" where
  "turn_log_ok p t \<longleftrightarrow>
     (case turn_entry t of
        Some h \<Rightarrow> \<exists>e w. turn_log t = [RelayHeld (Nonce p) e (Nonce p - e) w] \<and> e < Nonce p
      | None \<Rightarrow> turn_log t = [] \<or> (\<exists>r. turn_pc t = TurnDone r))"

definition turn_window_ok :: "PreparedMetaTx \<Rightarrow> nat \<Rightarrow> turn \<Rightarrow> bool" where
  "turn_window_ok p n t \<longleftrightarrow>
     (if turn_seenExpected t then n \<le> Suc (unat (turn_lastExpected t)) \<and> turn_lastExpected t < Nonce p else n = 0)"

lemmas turn_ok_defs = turn_pc_ok_def turn_log_ok_def release_ok_def turn_release_def client_gone_def
  Reject_def RejectWithDetails_def tooManyInflight_def
  turnInTurn_def turnWindowExpired_def turnTooManyInflight_def turnClientGone_def

lemma turn_step_ok:
  assumes "turn_step i p t s = Some (t', s')" "turn_pc_ok p t" "turn_log_ok p t"
  shows "turn_pc_ok p t' \<and> turn_log_ok p t'"
  using assms
  by (cases "turn_pc t")
    (auto simp: turn_step_def Let_def turn_ok_defs code_defs split: prod.splits sum.splits option.splits if_splits select_case.splits turn_result.splits)

lemma turn_step_seen:
  assumes "turn_step i p t s = Some (t', s')" "turn_pc t \<noteq> TurnWindow"
  shows "turn_seenExpected t' = turn_seenExpected t" "turn_lastExpected t' = turn_lastExpected t"
  using assms
  by (cases "turn_pc t"; auto simp: turn_step_def turn_release_def Let_def
      split: prod.splits sum.splits option.splits if_splits select_case.splits)+

lemma turn_step_window:
  assumes "turn_step i p t s = Some (t', s')" "turn_pc t = TurnWindow"
  shows "turn_seenExpected t'"
    and "turn_lastExpected t' =
           (if turn_seenExpected t then max (turn_lastExpected t) (turn_expected t) else turn_expected t)"
  using assms by (auto simp: turn_step_def Let_def max_def split: if_splits)

lemma turn_window_step:
  assumes "turn_step i p t s = Some (t', s')" "turn_pc_ok p t" "turn_window_ok p n t"
  shows "turn_window_ok p (if turn_seenExpected t' \<and> (turn_seenExpected t \<longrightarrow> turn_lastExpected t < turn_lastExpected t')
                  then Suc n else n) t'"
proof (cases "turn_pc t = TurnWindow")
  case True
  with assms(2) have "turn_expected t < Nonce p" by (simp add: turn_pc_ok_def)
  moreover have "unat (turn_lastExpected t) < unat (turn_expected t)" if "turn_lastExpected t < turn_expected t"
    using that by (simp add: word_less_nat_alt)
  ultimately show ?thesis
    using assms(3) turn_step_window [OF assms(1) True]
    by (auto simp: turn_window_ok_def max_def not_le split: if_splits)
next
  case False
  then show ?thesis using assms(3) turn_step_seen [OF assms(1)] by (auto simp: turn_window_ok_def)
qed

lemma turn_reach_ok: "turn_reach p n t \<Longrightarrow> turn_pc_ok p t \<and> turn_log_ok p t \<and> turn_window_ok p n t"
proof (induction rule: turn_reach.induct)
  case (turn_start now s)
  then show ?case by (simp add: awaitTurn_init_def turn_pc_ok_def turn_log_ok_def turn_window_ok_def)
next
  case (turn_next n t i s t' s')
  then show ?case using turn_step_ok turn_window_step by blast
qed

section \<open>How a wait ends\<close>

text \<open>
  Whatever the rest of the service does meanwhile, a wait that ended left the log either empty,
  when the metatx was never held, or with exactly one \<open>relay.held\<close>, for a nonce ahead of the
  expected one, followed by exactly one \<open>relay.turn\<close>. A wait that lets the metatx go on says
  \<open>in_turn\<close> only when the expected nonce reached its nonce and \<open>window_expired\<close> only when it did
  not, and a wait that rejects gives \<open>TOO_MANY_INFLIGHT\<close> exactly when it logs that reason and never
  hides it behind a bad nonce.
\<close>

theorem awaitTurn_log_tells_the_outcome:
  assumes "turn_reach p n t" "turn_pc t = TurnDone result"
  shows "turn_log t = [] \<or>
    (\<exists>e w ms reason expected.
       turn_log t = [RelayHeld (Nonce p) e (Nonce p - e) w, RelayTurn ms reason (Nonce p) expected] \<and>
       e < Nonce p \<and> release_ok p reason expected result)"
  using assms
proof (induction rule: turn_reach.induct)
  case (turn_start now s)
  then show ?case by (simp add: awaitTurn_init_def)
next
  case (turn_next n t i s t' s')
  from turn_reach_ok [OF turn_next.hyps(1)] have ok: "turn_pc_ok p t" "turn_log_ok p t" by simp_all
  from turn_next.hyps(2) turn_next.prems obtain reason expected where pc: "turn_pc t = TurnRelease reason expected result"
    by (cases "turn_pc t")
      (auto simp: turn_step_def turn_release_def Let_def
        split: prod.splits sum.splits option.splits if_splits select_case.splits)
  with ok turn_next.hyps(2) show ?case
    by (auto simp: turn_step_def turn_release_def turn_pc_ok_def turn_log_ok_def split: option.splits)
qed

text \<open>
  C26: the window measures stagnation. It is renewed only when the expected nonce moved up, so a
  metatx with nonce \<open>n\<close> renews it at most \<open>n\<close> times, whatever wakes it up and however often.
\<close>

theorem awaitTurn_renewals_bounded:
  assumes "turn_reach p n t"
  shows "n \<le> unat (Nonce p)"
proof -
  have "turn_window_ok p n t" using turn_reach_ok [OF assms] by simp
  then show ?thesis
    by (auto simp: turn_window_ok_def word_less_nat_alt split: if_splits)
qed

text \<open>
  C25: a wait never depends on being notified. From every state of a wait that has not ended, and on
  whatever state of the service, the clock alone lets it take its next step.
\<close>

theorem awaitTurn_never_stuck:
  assumes "turn_reach p n t" "\<forall>r. turn_pc t \<noteq> TurnDone r"
  shows "\<exists>T. \<forall>now\<ge>T. turn_step \<lparr>in_now = now, in_env = env, in_case = SelectTimer\<rparr> p t s \<noteq> None"
proof -
  have "turn_pc_ok p t" using turn_reach_ok [OF assms(1)] by simp
  then show ?thesis
  proof (cases "turn_pc t")
    case (TurnSelect ch at)
    then show ?thesis by (intro exI [of _ at]) (simp add: turn_step_def)
  qed (use assms(2) in \<open>auto simp: turn_step_def turn_pc_ok_def Let_def split: prod.split sum.split\<close>)
qed

section \<open>A concrete wait\<close>

fun turn_run :: "turn_input list \<Rightarrow> PreparedMetaTx \<Rightarrow> turn \<Rightarrow> RelaySignerService \<Rightarrow>
    (turn \<times> RelaySignerService) option" where
  "turn_run [] p t s = Some (t, s)"
| "turn_run (i # is) p t s =
     (case turn_step i p t s of None \<Rightarrow> None | Some (t', s') \<Rightarrow> turn_run is p t' s')"

lemma turn_run_reach: "turn_reach p n t \<Longrightarrow> turn_run is p t s = Some (t', s') \<Longrightarrow> \<exists>m. turn_reach p m t'"
proof (induction "is" arbitrary: n t s)
  case Nil
  then show ?case by auto
next
  case (Cons i "is")
  then show ?case by (fastforce split: option.splits dest: turn_reach.turn_next)
qed

text \<open>Nonce 5 arrives while 3 is expected, is held, and its client leaves.\<close>

definition sample_inputs :: "turn_input list" where
  "sample_inputs = replicate 8 \<lparr>in_now = 0, in_env = sample_env, in_case = SelectCtxDone\<rparr>"

definition sample_turn :: turn where
  "sample_turn = awaitTurn_init 0 sample_service"

lemma sample_turn_run:
  "map_option (\<lambda>(t, s). (turn_pc t, turn_log t, held_list s ''u'')) (turn_run sample_inputs (sample_tx 5) sample_turn sample_service) =
     Some (TurnDone (TurnRejected client_gone),
           [RelayHeld 5 3 2 3000, RelayTurn 0 turnClientGone 5 3], [])"
  by code_simp

lemma sample_turn_reach:
  obtains n t where "turn_reach (sample_tx 5) n t" "turn_pc t = TurnDone (TurnRejected client_gone)"
    "turn_log t = [RelayHeld 5 3 2 3000, RelayTurn 0 turnClientGone 5 3]"
proof -
  from sample_turn_run obtain t s where run: "turn_run sample_inputs (sample_tx 5) sample_turn sample_service = Some (t, s)"
      "turn_pc t = TurnDone (TurnRejected client_gone)"
      "turn_log t = [RelayHeld 5 3 2 3000, RelayTurn 0 turnClientGone 5 3]"
    by auto
  have "turn_reach (sample_tx 5) 0 sample_turn" unfolding sample_turn_def by (rule turn_reach.turn_start)
  from turn_run_reach [OF this run(1)] run(2,3) that show ?thesis by blast
qed

lemma Nonce_sample [simp]: "Nonce (sample_tx n) = n"
  by (simp add: sample_tx_def)

theorem awaitTurn_log_tells_the_outcome_witness:
  "\<exists>n t. turn_reach (sample_tx 5) n t \<and> turn_pc t = TurnDone (TurnRejected client_gone) \<and>
     (\<exists>ms. RelayTurn ms turnClientGone 5 3 \<in> set (turn_log t)) \<and>
     release_ok (sample_tx 5) turnClientGone 3 (TurnRejected client_gone)"
proof -
  obtain n t where t: "turn_reach (sample_tx 5) n t" "turn_pc t = TurnDone (TurnRejected client_gone)"
      "turn_log t = [RelayHeld 5 3 2 3000, RelayTurn 0 turnClientGone 5 3]"
    by (rule sample_turn_reach)
  from awaitTurn_log_tells_the_outcome [OF t(1,2)] t show ?thesis
    by (intro exI [of _ n] exI [of _ t]) auto
qed

theorem awaitTurn_renewals_bounded_witness:
  "\<exists>n t. turn_reach (sample_tx 5) n t \<and> turn_pc t = TurnDone (TurnRejected client_gone) \<and> n \<le> 5"
proof -
  obtain n t where t: "turn_reach (sample_tx 5) n t" "turn_pc t = TurnDone (TurnRejected client_gone)"
      "turn_log t = [RelayHeld 5 3 2 3000, RelayTurn 0 turnClientGone 5 3]"
    by (rule sample_turn_reach)
  from awaitTurn_renewals_bounded [OF t(1)] t show ?thesis by auto
qed

theorem awaitTurn_never_stuck_witness:
  "\<exists>T. \<forall>now\<ge>T. turn_step \<lparr>in_now = now, in_env = sample_env, in_case = SelectTimer\<rparr> (sample_tx 5)
      sample_turn sample_service \<noteq> None"
proof (rule awaitTurn_never_stuck)
  show "turn_reach (sample_tx 5) 0 sample_turn" unfolding sample_turn_def by (rule turn_reach.turn_start)
  show "\<forall>r. turn_pc sample_turn \<noteq> TurnDone r" by (simp add: sample_turn_def awaitTurn_init_def)
qed

end
