(* ===== verification/Correlation.thy ===== *)
theory Correlation
  imports Reorder Audit_Log
begin

text \<open>
  \<open>service/correlation.go\<close> and the closing half of \<open>service/settle.go\<close>: what the service
  remembers of each sent transaction by its hash, so that a receipt read in another request still
  belongs to its metatx, and who gets to close a metatx and release its place.

  The runtime iterates over a map in an arbitrary order, which decides between entries of the same
  age; that order is an argument that enumerates the domain of the map.
\<close>

section \<open>Remembering\<close>

definition metaTxMemoryTTL :: duration where "metaTxMemoryTTL = 10 * minute"
definition metaTxMemoryMax :: nat where "metaTxMemoryMax = 4096"

definition drop_expired :: "time \<Rightarrow> (Hash \<rightharpoonup> metaTxEntry) \<Rightarrow> (Hash \<rightharpoonup> metaTxEntry)" where
  "drop_expired now m =
     (\<lambda>h. case m h of None \<Rightarrow> None
          | Some e \<Rightarrow> if now - rememberedAt e > metaTxMemoryTTL then None else Some e)"

definition oldest_step ::
    "(Hash \<rightharpoonup> metaTxEntry) \<Rightarrow> (Hash \<times> time) option \<Rightarrow> Hash \<Rightarrow> (Hash \<times> time) option" where
  "oldest_step m oldest h =
     (case m h of
        None \<Rightarrow> oldest
      | Some e \<Rightarrow>
          (case oldest of
             None \<Rightarrow> Some (h, rememberedAt e)
           | Some (g, t) \<Rightarrow> if rememberedAt e < t then Some (h, rememberedAt e) else Some (g, t)))"

definition evictLocked :: "time \<Rightarrow> Hash list \<Rightarrow> RelaySignerService \<Rightarrow> RelaySignerService" where
  "evictLocked now order s =
     (let m = drop_expired now (metaTx s);
          live = filter (\<lambda>h. m h \<noteq> None) order
      in if length live < metaTxMemoryMax then s\<lparr>metaTx := m\<rparr>
         else case foldl (oldest_step m) None live of
                None \<Rightarrow> s\<lparr>metaTx := m\<rparr>
              | Some (h, _) \<Rightarrow> s\<lparr>metaTx := m(h := None)\<rparr>)"

definition rememberMetaTx ::
    "time \<Rightarrow> Hash list \<Rightarrow> Context \<Rightarrow> Hash \<Rightarrow> string \<Rightarrow> ref option \<Rightarrow> RelaySignerService \<Rightarrow> RelaySignerService" where
  "rememberMetaTx now order ctx hash key chain s =
     (if MetaTxID ctx = [] \<and> chain = None then s
      else
        (let s1 = evictLocked now order s
         in s1\<lparr>metaTx := (metaTx s1)(hash \<mapsto>
              \<lparr>reqID = RequestID ctx, metaTxID = MetaTxID ctx, rememberedAt = now, entry_senderKey = key,
               entry_chain = chain, settled = False\<rparr>)\<rparr>))"

definition recallMetaTx :: "time \<Rightarrow> Context \<Rightarrow> Hash \<Rightarrow> RelaySignerService \<Rightarrow> Context \<times> RelaySignerService" where
  "recallMetaTx now ctx hash s =
     (case metaTx s hash of
        None \<Rightarrow> (ctx, s)
      | Some e \<Rightarrow>
          if now - rememberedAt e > metaTxMemoryTTL
          then (ctx, s\<lparr>metaTx := (metaTx s)(hash := None)\<rparr>)
          else (WithMetaTxID (if reqID e \<noteq> [] then WithRequestID ctx (reqID e) else ctx) (metaTxID e), s))"

definition forgetMetaTx :: "Hash \<Rightarrow> RelaySignerService \<Rightarrow> RelaySignerService" where
  "forgetMetaTx hash s = s\<lparr>metaTx := (metaTx s)(hash := None)\<rparr>"

section \<open>Closing\<close>

definition claimSettled :: "Hash \<Rightarrow> RelaySignerService \<Rightarrow> bool \<times> RelaySignerService" where
  "claimSettled hash s =
     (case metaTx s hash of
        None \<Rightarrow> (True, s)
      | Some e \<Rightarrow>
          if settled e then (False, s)
          else (True, s\<lparr>metaTx := (metaTx s)(hash \<mapsto> e\<lparr>settled := True\<rparr>)\<rparr>))"

text \<open>\<open>releaseSent\<close> takes the chain out of the entry under one lock and releases it under another.\<close>

definition take_chain :: "Hash \<Rightarrow> RelaySignerService \<Rightarrow> (string \<times> ref option) \<times> RelaySignerService" where
  "take_chain hash s =
     (case metaTx s hash of
        None \<Rightarrow> (([], None), s)
      | Some e \<Rightarrow> ((entry_senderKey e, entry_chain e),
                   s\<lparr>metaTx := (metaTx s)(hash \<mapsto> e\<lparr>entry_chain := None\<rparr>)\<rparr>))"

definition releaseSent :: "time \<Rightarrow> Hash \<Rightarrow> bool \<Rightarrow> RelaySignerService \<Rightarrow> RelaySignerService" where
  "releaseSent now hash rejectedByHub s =
     (case take_chain hash s of
        ((key, chain), s1) \<Rightarrow>
          if chain = None \<or> key = [] then s1
          else if rejectedByHub then s1
          else releaseChain now key chain s1)"

section \<open>The invariant\<close>

lemma wf_metaTx_update:
  assumes "service_wf s" shows "service_wf (s\<lparr>metaTx := m\<rparr>)"
  by (rule service_wfI)
    (auto intro: registry_wf_frame [OF assms] wake_wf_frame [OF assms] chains_wf_frame [OF assms])

lemma correlation_wf:
  assumes "service_wf s"
  shows "service_wf (rememberMetaTx now order ctx hash key chain s)"
    and "service_wf (snd (recallMetaTx now ctx hash s))"
    and "service_wf (forgetMetaTx hash s)"
    and "service_wf (snd (claimSettled hash s))"
    and "service_wf (snd (take_chain hash s))"
  using assms
  by (auto simp: rememberMetaTx_def evictLocked_def recallMetaTx_def forgetMetaTx_def claimSettled_def
      take_chain_def Let_def wf_metaTx_update split: option.split)

lemma releaseSent_wf [intro]: "service_wf s \<Longrightarrow> service_wf (releaseSent now hash rejected s)"
  using correlation_wf(5) [of s hash] by (auto simp: releaseSent_def split: prod.split)

section \<open>The memory is bounded\<close>

lemma dom_drop_expired: "dom (drop_expired now m) \<subseteq> dom m"
  by (auto simp: drop_expired_def dom_def split: option.splits if_splits)

lemma oldest_step_simps:
  "m x = Some ex \<Longrightarrow> oldest_step m None x = Some (x, rememberedAt ex)"
  "m x = Some ex \<Longrightarrow> oldest_step m (Some (g, t)) x =
     (if rememberedAt ex < t then Some (x, rememberedAt ex) else Some (g, t))"
  by (simp_all add: oldest_step_def)

lemma oldest_fold:
  assumes "\<forall>h\<in>set hs. m h \<noteq> None" "hs \<noteq> []"
  shows "\<exists>h e. foldl (oldest_step m) None hs = Some (h, rememberedAt e) \<and> m h = Some e \<and> h \<in> set hs \<and>
     (\<forall>g\<in>set hs. \<forall>e'. m g = Some e' \<longrightarrow> rememberedAt e \<le> rememberedAt e')"
  using assms
proof (induction hs rule: rev_induct)
  case Nil
  then show ?case by simp
next
  case (snoc x hs)
  from snoc.prems obtain ex where x: "m x = Some ex" by auto
  show ?case
  proof (cases "hs = []")
    case True
    with x show ?thesis by (auto simp: oldest_step_simps)
  next
    case False
    with snoc obtain h e where "foldl (oldest_step m) None hs = Some (h, rememberedAt e)" "m h = Some e"
        "h \<in> set hs" "\<forall>g\<in>set hs. \<forall>e'. m g = Some e' \<longrightarrow> rememberedAt e \<le> rememberedAt e'"
      by auto
    note ih = this
    show ?thesis
    proof (cases "rememberedAt ex < rememberedAt e")
      case True
      with ih x show ?thesis
        by (intro exI [of _ x] exI [of _ ex]) (auto simp: oldest_step_simps)
    next
      case False
      with ih x show ?thesis by (intro exI [of _ h] exI [of _ e]) (auto simp: oldest_step_simps)
    qed
  qed
qed

lemma live_order:
  assumes "distinct order" "set order = dom (metaTx s)" "m = drop_expired now (metaTx s)"
  shows "set (filter (\<lambda>h. m h \<noteq> None) order) = dom m" "length (filter (\<lambda>h. m h \<noteq> None) order) = card (dom m)"
proof -
  show eq: "set (filter (\<lambda>h. m h \<noteq> None) order) = dom m"
    using assms(2,3) dom_drop_expired [of now "metaTx s"] by auto
  show "length (filter (\<lambda>h. m h \<noteq> None) order) = card (dom m)"
    using distinct_card [of "filter (\<lambda>h. m h \<noteq> None) order"] assms(1) eq by simp
qed

lemma evictLocked_card:
  assumes "distinct order" "set order = dom (metaTx s)" "card (dom (metaTx s)) \<le> metaTxMemoryMax"
  shows "card (dom (metaTx (evictLocked now order s))) < metaTxMemoryMax"
proof -
  define m where "m = drop_expired now (metaTx s)"
  define live where "live = filter (\<lambda>h. m h \<noteq> None) order"
  note lo = live_order [OF assms(1,2) m_def, folded live_def]
  have le: "card (dom m) \<le> metaTxMemoryMax"
    using card_mono [OF finite dom_drop_expired [of now "metaTx s"]] assms(3) by (simp add: m_def)
  show ?thesis
  proof (cases "length live < metaTxMemoryMax")
    case True
    then show ?thesis using lo by (simp add: evictLocked_def Let_def m_def live_def)
  next
    case False
    then have "live \<noteq> []" by (auto simp: metaTxMemoryMax_def)
    then obtain h e where h: "foldl (oldest_step m) None live = Some (h, rememberedAt e)" "m h = Some e"
      using oldest_fold [of live m] by (auto simp: live_def)
    then have "card (dom (m(h := None))) < card (dom m)"
      by (auto intro!: psubset_card_mono)
    with False h le lo show ?thesis by (simp add: evictLocked_def Let_def m_def live_def)
  qed
qed

text \<open>
  C29: the memory of sent transactions never holds more than 4096 entries, whatever the order in which
  the runtime walks the map, and when a live entry has to go it is one of the oldest.
\<close>

theorem rememberMetaTx_bounded:
  assumes "distinct order" "set order = dom (metaTx s)" "card (dom (metaTx s)) \<le> metaTxMemoryMax"
  shows "card (dom (metaTx (rememberMetaTx now order ctx hash key chain s))) \<le> metaTxMemoryMax \<and>
    (\<forall>h e. metaTx s h = Some e \<longrightarrow> now - rememberedAt e \<le> metaTxMemoryTTL \<longrightarrow> h \<noteq> hash \<longrightarrow>
       metaTx (rememberMetaTx now order ctx hash key chain s) h = None \<longrightarrow>
       (\<forall>h' e'. metaTx s h' = Some e' \<longrightarrow> now - rememberedAt e' \<le> metaTxMemoryTTL \<longrightarrow>
          rememberedAt e \<le> rememberedAt e'))"
proof (cases "MetaTxID ctx = [] \<and> chain = None")
  case True
  with assms(3) show ?thesis by (auto simp: rememberMetaTx_def)
next
  case False
  let ?s1 = "evictLocked now order s"
  have m: "metaTx (rememberMetaTx now order ctx hash key chain s) =
      (metaTx ?s1)(hash \<mapsto> \<lparr>reqID = RequestID ctx, metaTxID = MetaTxID ctx, rememberedAt = now,
         entry_senderKey = key, entry_chain = chain, settled = False\<rparr>)"
    using False by (auto simp: rememberMetaTx_def Let_def)
  have "card (dom (metaTx (rememberMetaTx now order ctx hash key chain s))) \<le> metaTxMemoryMax"
    using evictLocked_card [OF assms, of now] card_insert_le_m1 [of metaTxMemoryMax "dom (metaTx ?s1)" hash]
    unfolding m by (simp add: metaTxMemoryMax_def)
  moreover have "rememberedAt e \<le> rememberedAt e'"
    if gone: "metaTx s h = Some e" "now - rememberedAt e \<le> metaTxMemoryTTL" "metaTx ?s1 h = None"
      and other: "metaTx s h' = Some e'" "now - rememberedAt e' \<le> metaTxMemoryTTL" for h e h' e'
  proof -
    define mm where "mm = drop_expired now (metaTx s)"
    define live where "live = filter (\<lambda>h. mm h \<noteq> None) order"
    note lo = live_order [OF assms(1,2) mm_def, folded live_def]
    have kept: "mm h = Some e" "mm h' = Some e'" using gone other by (simp_all add: mm_def drop_expired_def)
    with lo have "live \<noteq> []" by auto
    then obtain g eg where g: "foldl (oldest_step mm) None live = Some (g, rememberedAt eg)" "mm g = Some eg"
        "\<forall>g\<in>set live. \<forall>e'. mm g = Some e' \<longrightarrow> rememberedAt eg \<le> rememberedAt e'"
      using oldest_fold [of live mm] by (auto simp: live_def)
    with gone(3) kept(1) have "g = h"
      by (auto simp: evictLocked_def Let_def mm_def live_def split: if_splits)
    with g kept lo show ?thesis by auto
  qed
  ultimately show ?thesis unfolding m by auto
qed

theorem rememberMetaTx_bounded_witness:
  "card (dom (metaTx (rememberMetaTx 0 [] (WithMetaTxID Background ''m'') 7 ''u'' None sample_service))) \<le> 4096"
  using rememberMetaTx_bounded [of "[]" sample_service 0 "WithMetaTxID Background ''m''" 7 "''u''" None]
  by (simp add: sample_service_def new_service_def metaTxMemoryMax_def)

text \<open>
  The closing events of a metatx belong to the request that relayed it. Whoever reads the receipt
  within the ten minutes, the context it works under carries the identifiers the metatx was sent
  with and not its own.
\<close>

theorem remember_then_recall:
  assumes "MetaTxID ctx \<noteq> []" "RequestID ctx \<noteq> []" "now \<le> later" "later \<le> now + metaTxMemoryTTL"
  shows "\<exists>ctx'. recallMetaTx later reader hash (rememberMetaTx now order ctx hash key chain s) =
      (ctx', rememberMetaTx now order ctx hash key chain s) \<and>
    MetaTxID ctx' = MetaTxID ctx \<and> RequestID ctx' = RequestID ctx"
  using assms by (simp add: recallMetaTx_def rememberMetaTx_def Let_def)

theorem remember_then_recall_witness:
  "\<exists>ctx'. fst (recallMetaTx second Background 7
       (rememberMetaTx 0 [] (WithRequestID (WithMetaTxID Background ''m'') ''r'') 7 ''u'' None sample_service)) = ctx' \<and>
     MetaTxID ctx' = ''m'' \<and> RequestID ctx' = ''r''"
  using remember_then_recall [of "WithRequestID (WithMetaTxID Background ''m'') ''r''" 0 second Background 7 "[]" "''u''" None sample_service]
  by (auto simp: metaTxMemoryTTL_def durations)

section \<open>A metatx is closed once\<close>

text \<open>
  The watcher and the clients that ask for the receipt race to close a metatx: each claims it and, if
  it won, takes the chain out of the entry to release the place. Between any two of these sections run
  those of the other requests, which may delete the entry: it expires, is forgotten, or is evicted
  when another hash is remembered. A history is any sequence of these sections; what the rest of the
  service does meanwhile leaves the memory alone.
\<close>

datatype memory_op =
    Claim Hash
  | Take Hash
  | Recall time Context Hash
  | Forget Hash
  | Remember time "Hash list" Context Hash string "ref option"
  | Elsewhere RelaySignerService

text \<open>What the requests that deal with one hash see: whether it was still remembered and whether the claim
  won, and the chain that was there to be released.\<close>

datatype memory_event = Claimed bool bool | Took "ref option"

fun memory_step :: "memory_op \<Rightarrow> RelaySignerService \<Rightarrow> RelaySignerService" where
  "memory_step (Claim h) s = snd (claimSettled h s)"
| "memory_step (Take h) s = snd (take_chain h s)"
| "memory_step (Recall now ctx h) s = snd (recallMetaTx now ctx h s)"
| "memory_step (Forget h) s = forgetMetaTx h s"
| "memory_step (Remember now order ctx h key chain) s = rememberMetaTx now order ctx h key chain s"
| "memory_step (Elsewhere s') s = s'\<lparr>metaTx := metaTx s\<rparr>"

fun observed :: "Hash \<Rightarrow> memory_op \<Rightarrow> RelaySignerService \<Rightarrow> memory_event list" where
  "observed hash (Claim h) s = (if h = hash then [Claimed (metaTx s h \<noteq> None) (fst (claimSettled h s))] else [])"
| "observed hash (Take h) s = (if h = hash then [Took (snd (fst (take_chain h s)))] else [])"
| "observed hash _ s = []"

fun history :: "Hash \<Rightarrow> memory_op list \<Rightarrow> RelaySignerService \<Rightarrow> memory_event list" where
  "history hash [] s = []"
| "history hash (m # ms) s = observed hash m s @ history hash ms (memory_step m s)"

text \<open>The hash is not sent a second time, which would make a new entry.\<close>

fun remembers :: "Hash \<Rightarrow> memory_op \<Rightarrow> bool" where
  "remembers hash (Remember _ _ _ h _ _) = (h = hash)"
| "remembers hash _ = False"

definition claims_in :: "memory_event list \<Rightarrow> (bool \<times> bool) list" where
  "claims_in es = List.map_filter (\<lambda>x. case x of Claimed known won \<Rightarrow> Some (known, won) | _ \<Rightarrow> None) es"

definition taken_in :: "memory_event list \<Rightarrow> ref list" where
  "taken_in es = List.map_filter (\<lambda>x. case x of Took c \<Rightarrow> c | _ \<Rightarrow> None) es"

lemma events_in_simps [simp]:
  "claims_in [] = []" "taken_in [] = []" "claims_in (xs @ ys) = claims_in xs @ claims_in ys"
  "taken_in (xs @ ys) = taken_in xs @ taken_in ys" "claims_in (Claimed k w # xs) = (k, w) # claims_in xs"
  "claims_in (Took c # xs) = claims_in xs" "taken_in (Claimed k w # xs) = taken_in xs"
  "taken_in (Took c # xs) = (case c of None \<Rightarrow> [] | Some x \<Rightarrow> [x]) @ taken_in xs"
  by (simp_all add: claims_in_def taken_in_def List.map_filter_def split: option.split)

lemma eviction_drops: "metaTx (evictLocked now order s) h = metaTx s h \<or> metaTx (evictLocked now order s) h = None"
  by (auto simp: evictLocked_def drop_expired_def Let_def split: option.split)

lemma remember_other: "h \<noteq> hash \<Longrightarrow> metaTx (rememberMetaTx now order ctx h key chain s) hash = metaTx s hash \<or>
    metaTx (rememberMetaTx now order ctx h key chain s) hash = None"
  using eviction_drops [of now order s hash] by (auto simp: rememberMetaTx_def Let_def)

text \<open>A section other than a claim or a taking leaves the entry alone or deletes it.\<close>

lemma memory_step_entry:
  assumes "\<not> remembers hash m"
  shows "metaTx (memory_step m s) hash = None \<or> metaTx (memory_step m s) hash = metaTx s hash \<or>
    m = Claim hash \<or> m = Take hash"
  using assms
  by (cases m) (auto simp: recallMetaTx_def forgetMetaTx_def claimSettled_def take_chain_def
      split: option.splits if_splits dest!: remember_other)

lemma memory_gone:
  "\<not> remembers hash m \<Longrightarrow> metaTx s hash = None \<Longrightarrow> metaTx (memory_step m s) hash = None"
  using memory_step_entry [of hash m s] by (auto simp: claimSettled_def take_chain_def)

lemma history_forgotten:
  "\<forall>m\<in>set ms. \<not> remembers hash m \<Longrightarrow> metaTx s hash = None \<Longrightarrow>
     (\<exists>k. claims_in (history hash ms s) = replicate k (False, True)) \<and> taken_in (history hash ms s) = []"
proof (induction ms arbitrary: s)
  case Nil
  show ?case by simp
next
  case (Cons m ms)
  from Cons.IH [of "memory_step m s"] Cons.prems memory_gone [of hash m s] obtain k where
      ih: "claims_in (history hash ms (memory_step m s)) = replicate k (False, True)"
        "taken_in (history hash ms (memory_step m s)) = []" by auto
  have "observed hash m s \<in> {[], [Claimed False True], [Took None]}"
    using Cons.prems(2) by (cases m) (auto simp: claimSettled_def take_chain_def)
  with ih show ?case by (auto intro: exI [of _ "Suc k"])
qed

lemma history_remembered:
  "\<forall>m\<in>set ms. \<not> remembers hash m \<Longrightarrow> metaTx s hash = Some e \<Longrightarrow>
     (\<exists>known unknown. claims_in (history hash ms s) = map (Pair True) known @ replicate unknown (False, True) \<and>
        (known = [] \<or> (\<exists>n. known = (\<not> settled e) # replicate n False))) \<and>
     (taken_in (history hash ms s) = [] \<or> (\<exists>c. entry_chain e = Some c \<and> taken_in (history hash ms s) = [c]))"
proof (induction ms arbitrary: s e)
  case Nil
  show ?case by simp
next
  case (Cons m ms)
  note other = Cons.prems(1) [simplified]
  let ?s = "memory_step m s" and ?log = "history hash ms (memory_step m s)"
  have "observed hash m s = [] \<or> m = Claim hash \<or> m = Take hash" by (cases m) auto
  then consider (claim) "m = Claim hash" | (taking) "m = Take hash"
    | (gone) "metaTx ?s hash = None" "observed hash m s = []"
    | (kept) "metaTx ?s hash = Some e" "observed hash m s = []"
    using memory_step_entry [of hash m s] other Cons.prems(2) by metis
  then show ?case
  proof cases
    case claim
    then have "metaTx ?s hash = Some (e\<lparr>settled := True\<rparr>)"
      using Cons.prems(2) by (auto simp: claimSettled_def intro: metaTxEntry.equality)
    from Cons.IH [OF _ this] other obtain known unknown where
        ih: "claims_in ?log = map (Pair True) known @ replicate unknown (False, True)"
          "known = [] \<or> (\<exists>n. known = False # replicate n False)"
          "taken_in ?log = [] \<or> (\<exists>c. entry_chain e = Some c \<and> taken_in ?log = [c])" by auto
    then obtain n where "known = replicate n False" by (metis replicate_0 replicate_Suc)
    moreover have "observed hash m s = [Claimed True (\<not> settled e)]"
      using claim Cons.prems(2) by (simp add: claimSettled_def)
    ultimately show ?thesis
      using ih(1,3) by (intro conjI exI [of _ "(\<not> settled e) # replicate n False"] exI [of _ unknown]) auto
  next
    case taking
    then have "metaTx ?s hash = Some (e\<lparr>entry_chain := None\<rparr>)" "observed hash m s = [Took (entry_chain e)]"
      using Cons.prems(2) by (simp_all add: take_chain_def)
    with Cons.IH [OF _ this(1)] other show ?thesis by (auto split: option.split)
  next
    case gone
    with history_forgotten [of ms hash ?s] other show ?thesis by (auto intro!: exI [of _ "[]"])
  next
    case kept
    with Cons.IH [OF _ kept(1)] other show ?thesis by auto
  qed
qed

text \<open>
  C28: a remembered metatx is closed once, and its place is given back at most once. In any
  interleaving of claims and takings with everything else the service does, as long as the hash is not
  sent again: while the entry is remembered the first claim on it wins and every later one loses; once
  it was forgotten, expired or evicted every claim wins (the code lets a metatx it does not know be
  closed by whoever reads it); but over the whole history the chain to release is found at most once,
  so the winners after the eviction release nothing.
\<close>

theorem claimSettled_exactly_once:
  assumes "metaTx s hash = Some e" "\<not> settled e" "\<forall>m\<in>set ms. \<not> remembers hash m"
  shows "(\<exists>known unknown. claims_in (history hash ms s) = map (Pair True) known @ replicate unknown (False, True) \<and>
      (known = [] \<or> (\<exists>n. known = True # replicate n False))) \<and>
    (taken_in (history hash ms s) = [] \<or> (\<exists>c. entry_chain e = Some c \<and> taken_in (history hash ms s) = [c]))"
  using history_remembered [of ms hash s e] assms by simp

definition sample_entry :: metaTxEntry where
  "sample_entry = \<lparr>reqID = ''r'', metaTxID = ''m'', rememberedAt = 0, entry_senderKey = ''u'',
     entry_chain = Some 0, settled = False\<rparr>"

text \<open>The watcher and a client race, the entry expires, and a second client comes.\<close>

definition race :: "memory_op list" where
  "race = [Claim 7, Claim 7, Take 7, Claim 8, Recall (11 * minute) Background 7, Claim 7, Take 7]"

theorem claimSettled_exactly_once_witness:
  "claims_in (history 7 race (sample_service\<lparr>metaTx := [7 \<mapsto> sample_entry]\<rparr>)) = [(True, True), (True, False), (False, True)] \<and>
   taken_in (history 7 race (sample_service\<lparr>metaTx := [7 \<mapsto> sample_entry]\<rparr>)) = [0]"
proof -
  let ?s = "sample_service\<lparr>metaTx := [7 \<mapsto> sample_entry]\<rparr>"
  have "history 7 race ?s = [Claimed True True, Claimed True False, Took (Some 0), Claimed False True, Took None]"
    by (simp add: race_def claimSettled_def take_chain_def recallMetaTx_def sample_entry_def metaTxMemoryTTL_def durations)
  moreover have "\<forall>m\<in>set race. \<not> remembers 7 m" by (simp add: race_def)
  ultimately show ?thesis
    using claimSettled_exactly_once [of ?s 7 sample_entry race] by (simp add: sample_entry_def)
qed

lemma releaseChain_metaTx [simp]: "metaTx (releaseChain now key chain s) = metaTx s"
  by (auto simp: releaseChain_def Let_def upd_chain_def split: option.split)

lemma take_chain_none: "metaTx s hash = None \<or> (\<exists>e. metaTx s hash = Some e \<and> entry_chain e = None) \<Longrightarrow>
    take_chain hash s = ((fst (fst (take_chain hash s)), None), s)"
  by (auto simp: take_chain_def split: option.splits intro!: RelaySignerService.equality ext)

text \<open>
  The place a metatx occupied is given back at most once. Releasing a hash that was released
  before changes nothing, so a result that is seen twice, or that arrives after the deadline already
  released it, never lets the user exceed the cap.
\<close>

theorem releaseSent_idempotent:
  "releaseSent later hash rejected' (releaseSent now hash rejected s) = releaseSent now hash rejected s"
proof -
  let ?s1 = "releaseSent now hash rejected s"
  have "metaTx ?s1 hash = None \<or> (\<exists>e. metaTx ?s1 hash = Some e \<and> entry_chain e = None)"
    by (auto simp: releaseSent_def take_chain_def split: option.split)
  then show ?thesis
    using take_chain_none [of ?s1 hash] by (auto simp: releaseSent_def [of later] split: prod.splits)
qed

end
