(* ===== verification/Hub.thy ===== *)
theory Hub
  imports Correlation Revert
begin

text \<open>
  How a metatx ended, read from the events of the RelayHub in its receipt. The repository reads a
  receipt in three places: \<open>readHubEvents\<close> (\<open>service/settle.go\<close>, for the synchronous relay and the
  watcher), \<open>GetMetaTxResult\<close> and \<open>GetTransactionReceipt\<close> (\<open>service/relaySignerService.go\<close>, for
  the JSON-RPC clients). The theorems say that the three agree on whether the metatx failed; the
  locale \<open>hub_reader\<close> is what they have in common, and gives that all three have the same effect on the
  service.
\<close>

section \<open>Receipts\<close>

record hub_log =
  Topics :: "Hash list"
  Data :: bytes

record Receipt =
  Logs :: "hub_log list"
  GasUsed :: uint64
  BlockNumber :: "nat option"
  Status :: uint64
  Receipt_ContractAddress :: Address

section \<open>The events of the hub\<close>

record hubEvents =
  contractDeployed :: string
  transactionRelay :: string
  badTransaction :: string
  relayed :: string
  gasUsedByRelayHub :: string

definition bytes_of_string :: "string \<Rightarrow> bytes" where
  "bytes_of_string s = map (\<lambda>c. word_of_nat (of_char c)) s"

definition topic :: "eth_lib \<Rightarrow> string \<Rightarrow> string" where
  "topic lib signature = ''0x'' @ hex_EncodeToString (Keccak256 lib (bytes_of_string signature))"

definition topicsOfHub :: "eth_lib \<Rightarrow> hubEvents" where
  "topicsOfHub lib =
     \<lparr>contractDeployed = topic lib ''ContractDeployed(address,address,address)'',
      transactionRelay = topic lib ''TransactionRelayed(address,address,address,bool,bytes)'',
      badTransaction = topic lib ''BadTransactionSent(address,address,uint8)'',
      relayed = topic lib ''Relayed(address,address)'',
      gasUsedByRelayHub = topic lib ''GasUsedByTransaction(address,uint256,uint256,uint256,uint256)''\<rparr>"

text \<open>
  The switch on the first topic of a log, whose cases are tried in order; the two JSON-RPC readers
  compute the same strings and have no case for the gas event.
\<close>

datatype hub_event = NoTopic | ContractDeployed | TransactionRelayed | BadTransactionSent | RelayedEvent | GasUsedByTransaction | OtherEvent

definition classify :: "eth_lib \<Rightarrow> hub_log \<Rightarrow> hub_event" where
  "classify lib lg =
     (case Topics lg of
        [] \<Rightarrow> NoTopic
      | t # _ \<Rightarrow>
          (let h = Hash_Hex lib t; topics = topicsOfHub lib
           in if h = contractDeployed topics then ContractDeployed
              else if h = transactionRelay topics then TransactionRelayed
              else if h = badTransaction topics then BadTransactionSent
              else if h = relayed topics then RelayedEvent
              else if h = gasUsedByRelayHub topics then GasUsedByTransaction
              else OtherEvent))"

definition transactionRelayedFailed :: "eth_lib \<Rightarrow> bytes \<Rightarrow> bool \<times> bytes" where
  "transactionRelayedFailed lib dat = unpack_TransactionRelayed lib dat"

definition badTransactionErrorCode :: "eth_lib \<Rightarrow> bytes \<Rightarrow> byte \<times> Address" where
  "badTransactionErrorCode lib dat = unpack_BadTransactionSent lib dat"

definition silent_deploy :: string where
  "silent_deploy = ''deploy reverted: contract constructor failed (no code created)''"

section \<open>The reader of the relay and of the watcher\<close>

record metaTxOutcome =
  events :: "string list"
  executed :: "bool option"
  errorCode :: "byte option"
  errorCodeName_of :: "string option"
  outcome_output :: "string option"
  deployedAddress :: "string option"
  hubRejected :: bool

record hub_scan =
  scan_outcome :: metaTxOutcome
  sawContractDeployed :: bool
  sawTransactionRelayed :: bool
  sawBadTransaction :: bool
  sawRelayed :: bool

definition empty_outcome :: metaTxOutcome where
  "empty_outcome = \<lparr>events = [], executed = None, errorCode = None, errorCodeName_of = None, outcome_output = None,
     deployedAddress = None, hubRejected = False\<rparr>"

definition empty_scan :: hub_scan where
  "empty_scan = \<lparr>scan_outcome = empty_outcome, sawContractDeployed = False, sawTransactionRelayed = False,
     sawBadTransaction = False, sawRelayed = False\<rparr>"

definition add_event :: "string \<Rightarrow> metaTxOutcome \<Rightarrow> metaTxOutcome" where
  "add_event name oc = oc\<lparr>events := events oc @ [name]\<rparr>"

fun readHubLogs ::
    "eth_lib \<Rightarrow> hub_log list \<Rightarrow> hub_scan \<Rightarrow> RelaySignerService \<Rightarrow> (hub_scan \<times> RelaySignerService) go_result" where
  "readHubLogs lib [] sc s = Returns (sc, s)"
| "readHubLogs lib (lg # lgs) sc s =
     (let oc = scan_outcome sc in
      case classify lib lg of
        ContractDeployed \<Rightarrow>
          readHubLogs lib lgs
            (sc\<lparr>sawContractDeployed := True,
                scan_outcome := (add_event ''ContractDeployed'' oc)
                  \<lparr>deployedAddress := Some (Address_Hex lib (BytesToAddress lib (Data lg)))\<rparr>\<rparr>) s
      | TransactionRelayed \<Rightarrow>
          (case transactionRelayedFailed lib (Data lg) of
             (ex, out) \<Rightarrow>
               let oc1 = (add_event ''TransactionRelayed'' oc)\<lparr>executed := Some ex\<rparr>
               in if ex then readHubLogs lib lgs (sc\<lparr>sawTransactionRelayed := True, scan_outcome := oc1\<rparr>) s
                  else case decodeRevertReason lib out of
                         Panics why \<Rightarrow> Panics why
                       | Returns reason \<Rightarrow>
                           readHubLogs lib lgs
                             (sc\<lparr>sawTransactionRelayed := True, scan_outcome := oc1\<lparr>outcome_output := Some reason\<rparr>\<rparr>) s)
      | BadTransactionSent \<Rightarrow>
          (case badTransactionErrorCode lib (Data lg) of
             (cd, badSender) \<Rightarrow>
               readHubLogs lib lgs
                 (sc\<lparr>sawBadTransaction := True,
                     scan_outcome := (add_event ''BadTransactionSent'' oc)
                       \<lparr>hubRejected := True, executed := Some False, errorCode := Some cd,
                        errorCodeName_of := Some (errorCodeName cd)\<rparr>\<rparr>)
                 (invalidateNonce (Address_Hex lib badSender) s))
      | RelayedEvent \<Rightarrow> readHubLogs lib lgs (sc\<lparr>sawRelayed := True, scan_outcome := add_event ''Relayed'' oc\<rparr>) s
      | GasUsedByTransaction \<Rightarrow> readHubLogs lib lgs (sc\<lparr>scan_outcome := add_event ''GasUsedByTransaction'' oc\<rparr>) s
      | _ \<Rightarrow> readHubLogs lib lgs sc s)"

definition finish_outcome :: "hub_scan \<Rightarrow> metaTxOutcome" where
  "finish_outcome sc =
     (let oc = scan_outcome sc;
          oc1 = (if sawRelayed sc \<and> \<not> sawContractDeployed sc \<and> \<not> sawTransactionRelayed sc \<and> \<not> sawBadTransaction sc
                 then oc\<lparr>executed := Some False, outcome_output := Some silent_deploy\<rparr> else oc)
      in if executed oc1 = None \<and> (sawTransactionRelayed sc \<or> sawContractDeployed sc)
         then oc1\<lparr>executed := Some True\<rparr> else oc1)"

definition readHubEvents ::
    "eth_lib \<Rightarrow> Receipt option \<Rightarrow> RelaySignerService \<Rightarrow> (metaTxOutcome \<times> RelaySignerService) go_result" where
  "readHubEvents lib receipt s =
     (case receipt of
        None \<Rightarrow> Returns (empty_outcome, s)
      | Some r \<Rightarrow>
          (case readHubLogs lib (Logs r) empty_scan s of
             Panics why \<Rightarrow> Panics why
           | Returns (sc, s1) \<Rightarrow> Returns (finish_outcome sc, s1)))"

section \<open>The reader of \<open>GetMetaTxResult\<close>\<close>

record meta_result =
  mined :: bool
  success :: bool
  res_executed :: bool
  res_errorCode :: "string option"
  revertReason :: "string option"
  res_deployedAddress :: "string option"
  res_saw :: "hub_event set"

fun resultLogs ::
    "eth_lib \<Rightarrow> hub_log list \<Rightarrow> meta_result \<Rightarrow> RelaySignerService \<Rightarrow> (meta_result \<times> RelaySignerService) go_result" where
  "resultLogs lib [] out s = Returns (out, s)"
| "resultLogs lib (lg # lgs) out s =
     (case classify lib lg of
        ContractDeployed \<Rightarrow>
          resultLogs lib lgs
            (out\<lparr>res_saw := insert ContractDeployed (res_saw out),
                 res_deployedAddress := Some (Address_Hex lib (BytesToAddress lib (Data lg)))\<rparr>) s
      | TransactionRelayed \<Rightarrow>
          (case transactionRelayedFailed lib (Data lg) of
             (ex, o1) \<Rightarrow>
               let out1 = out\<lparr>res_saw := insert TransactionRelayed (res_saw out), res_executed := ex\<rparr>
               in if ex then resultLogs lib lgs out1 s
                  else case decodeRevertReason lib o1 of
                         Panics why \<Rightarrow> Panics why
                       | Returns reason \<Rightarrow>
                           resultLogs lib lgs (out1\<lparr>success := False, revertReason := Some reason\<rparr>) s)
      | BadTransactionSent \<Rightarrow>
          (case badTransactionErrorCode lib (Data lg) of
             (cd, badSender) \<Rightarrow>
               resultLogs lib lgs
                 (out\<lparr>res_saw := insert BadTransactionSent (res_saw out), success := False, res_executed := False,
                      res_errorCode := Some (errorCodeName cd),
                      revertReason := Some (''BadTransactionSent: '' @ errorCodeName cd)\<rparr>)
                 (invalidateNonce (Address_Hex lib badSender) s))
      | RelayedEvent \<Rightarrow> resultLogs lib lgs (out\<lparr>res_saw := insert RelayedEvent (res_saw out)\<rparr>) s
      | _ \<Rightarrow> resultLogs lib lgs out s)"

text \<open>The four flags of the loop are the set \<open>res_saw\<close>.\<close>

definition silent_failure :: "hub_event set \<Rightarrow> bool" where
  "silent_failure saw \<longleftrightarrow> RelayedEvent \<in> saw \<and> ContractDeployed \<notin> saw \<and> TransactionRelayed \<notin> saw \<and>
     BadTransactionSent \<notin> saw"

definition metaTxResult ::
    "eth_lib \<Rightarrow> Receipt option \<Rightarrow> RelaySignerService \<Rightarrow> (meta_result \<times> RelaySignerService) go_result" where
  "metaTxResult lib receipt s =
     (let out = \<lparr>mined = (receipt \<noteq> None), success = True, res_executed = True, res_errorCode = None,
                 revertReason = None, res_deployedAddress = None, res_saw = {}\<rparr>
      in case receipt of
           None \<Rightarrow> Returns (out, s)
         | Some r \<Rightarrow>
             (case resultLogs lib (Logs r) out s of
                Panics why \<Rightarrow> Panics why
              | Returns (out1, s1) \<Rightarrow>
                  Returns (if silent_failure (res_saw out1)
                           then out1\<lparr>success := False, res_executed := False, revertReason := Some silent_deploy\<rparr>
                           else out1, s1)))"

section \<open>The reader of \<open>GetTransactionReceipt\<close>\<close>

text \<open>
  The receipt that goes back to the client and, when an event says the metatx failed, the JSON object
  made of the receipt as it was at that moment plus the reason.
\<close>

record receipt_scan =
  rs_receipt :: Receipt
  receiptReverted :: "(Receipt \<times> string) option"
  rs_saw :: "hub_event set"

definition mark_reverted :: "string \<Rightarrow> receipt_scan \<Rightarrow> receipt_scan" where
  "mark_reverted reason rs =
     (let r = (rs_receipt rs)\<lparr>Status := 0\<rparr> in rs\<lparr>rs_receipt := r, receiptReverted := Some (r, reason)\<rparr>)"

fun receiptLogs ::
    "eth_lib \<Rightarrow> hub_log list \<Rightarrow> receipt_scan \<Rightarrow> RelaySignerService \<Rightarrow> (receipt_scan \<times> RelaySignerService) go_result" where
  "receiptLogs lib [] rs s = Returns (rs, s)"
| "receiptLogs lib (lg # lgs) rs s =
     (case classify lib lg of
        ContractDeployed \<Rightarrow>
          receiptLogs lib lgs
            (rs\<lparr>rs_saw := insert ContractDeployed (rs_saw rs),
                rs_receipt := (rs_receipt rs)\<lparr>Receipt_ContractAddress := BytesToAddress lib (Data lg)\<rparr>\<rparr>) s
      | TransactionRelayed \<Rightarrow>
          (case transactionRelayedFailed lib (Data lg) of
             (ex, o1) \<Rightarrow>
               let rs1 = rs\<lparr>rs_saw := insert TransactionRelayed (rs_saw rs)\<rparr>
               in if ex then receiptLogs lib lgs rs1 s
                  else case decodeRevertReason lib o1 of
                         Panics why \<Rightarrow> Panics why
                       | Returns reason \<Rightarrow> receiptLogs lib lgs (mark_reverted reason rs1) s)
      | BadTransactionSent \<Rightarrow>
          (case badTransactionErrorCode lib (Data lg) of
             (cd, badSender) \<Rightarrow>
               receiptLogs lib lgs
                 (mark_reverted (''BadTransactionSent: '' @ errorCodeName cd)
                    (rs\<lparr>rs_saw := insert BadTransactionSent (rs_saw rs)\<rparr>))
                 (invalidateNonce (Address_Hex lib badSender) s))
      | RelayedEvent \<Rightarrow> receiptLogs lib lgs (rs\<lparr>rs_saw := insert RelayedEvent (rs_saw rs)\<rparr>) s
      | _ \<Rightarrow> receiptLogs lib lgs rs s)"

definition readReceipt ::
    "eth_lib \<Rightarrow> Receipt \<Rightarrow> RelaySignerService \<Rightarrow> (receipt_scan \<times> RelaySignerService) go_result" where
  "readReceipt lib r s =
     (case receiptLogs lib (Logs r) \<lparr>rs_receipt = r, receiptReverted = None, rs_saw = {}\<rparr> s of
        Panics why \<Rightarrow> Panics why
      | Returns (rs, s1) \<Rightarrow>
          Returns (if silent_failure (rs_saw rs) then mark_reverted silent_deploy rs else rs, s1))"

section \<open>The three readers agree\<close>

text \<open>The relation between the accumulators of the loops.\<close>

definition scans_agree :: "hub_scan \<Rightarrow> meta_result \<Rightarrow> bool" where
  "scans_agree sc out \<longleftrightarrow>
     res_executed out = (executed (scan_outcome sc) \<noteq> Some False) \<and>
     res_errorCode out = errorCodeName_of (scan_outcome sc) \<and>
     res_deployedAddress out = deployedAddress (scan_outcome sc) \<and>
     hubRejected (scan_outcome sc) = (BadTransactionSent \<in> res_saw out) \<and>
     (RelayedEvent \<in> res_saw out) = sawRelayed sc \<and> (ContractDeployed \<in> res_saw out) = sawContractDeployed sc \<and>
     (TransactionRelayed \<in> res_saw out) = sawTransactionRelayed sc \<and>
     (BadTransactionSent \<in> res_saw out) = sawBadTransaction sc"

text \<open>Two readers that both panic or both return related values and the same service.\<close>

definition same_reading ::
    "('a \<Rightarrow> 'b \<Rightarrow> bool) \<Rightarrow> ('a \<times> RelaySignerService) go_result \<Rightarrow> ('b \<times> RelaySignerService) go_result \<Rightarrow> bool" where
  "same_reading P x y =
     (case x of
        Panics why \<Rightarrow> y = Panics why
      | Returns (a, s) \<Rightarrow> (case y of Panics _ \<Rightarrow> False | Returns (b, s') \<Rightarrow> s' = s \<and> P a b))"

lemma logs_agree:
  "scans_agree sc out \<Longrightarrow> same_reading scans_agree (readHubLogs lib lgs sc s) (resultLogs lib lgs out s)"
proof (induction lgs arbitrary: sc out s)
  case Nil
  then show ?case by (simp add: same_reading_def)
next
  case (Cons lg lgs)
  show ?case
  proof (cases "classify lib lg")
    case TransactionRelayed
    obtain ex o1 where ro: "transactionRelayedFailed lib (Data lg) = (ex, o1)" by fastforce
    show ?thesis
    proof (cases "ex \<or> (\<exists>reason. decodeRevertReason lib o1 = Returns reason)")
      case True
      with TransactionRelayed ro Cons.prems show ?thesis
        by (auto simp: Let_def intro!: Cons.IH) (auto simp: scans_agree_def add_event_def)
    next
      case False
      then obtain why where "decodeRevertReason lib o1 = Panics why"
        by (cases "decodeRevertReason lib o1") auto
      with False TransactionRelayed ro show ?thesis by (simp add: Let_def same_reading_def)
    qed
  next
    case BadTransactionSent
    obtain cd a where bad: "badTransactionErrorCode lib (Data lg) = (cd, a)" by fastforce
    show ?thesis
      using BadTransactionSent bad Cons.prems
      by (simp add: Let_def) (rule Cons.IH, simp add: scans_agree_def add_event_def)
  qed (insert Cons.prems, simp_all add: Let_def, (rule Cons.IH, simp add: scans_agree_def add_event_def)+)
qed

lemma finish_agree:
  assumes "scans_agree sc out"
  shows "executed (finish_outcome sc) = Some False \<longleftrightarrow> \<not> res_executed out \<or> silent_failure (res_saw out)"
    "errorCodeName_of (finish_outcome sc) = res_errorCode out"
    "deployedAddress (finish_outcome sc) = res_deployedAddress out"
    "hubRejected (finish_outcome sc) = (BadTransactionSent \<in> res_saw out)"
  using assms by (auto simp: finish_outcome_def Let_def scans_agree_def silent_failure_def)

text \<open>
  The reader of the relay and of the watcher and the reader of the JSON-RPC result agree on whether the
  metatx failed, on the hub's error and on the deployed address, and panic and change the tracker
  alike. They do not agree on everything: for a \<open>BadTransactionSent\<close> the result has the revert reason
  made of the code of the error, and the outcome has no output; and an outcome in which no event said
  whether the call ran has no \<open>executed\<close>, where the result says it was.
\<close>

theorem readHubEvents_agrees_with_GetMetaTxResult:
  "same_reading
     (\<lambda>oc out. res_executed out = (executed oc \<noteq> Some False) \<and> res_errorCode out = errorCodeName_of oc \<and>
        res_deployedAddress out = deployedAddress oc \<and> hubRejected oc = (BadTransactionSent \<in> res_saw out))
     (readHubEvents lib (Some r) s) (metaTxResult lib (Some r) s)"
proof -
  let ?out = "\<lparr>mined = True, success = True, res_executed = True, res_errorCode = None,
                 revertReason = None, res_deployedAddress = None, res_saw = {}\<rparr>"
  have "scans_agree empty_scan ?out" by (simp add: scans_agree_def empty_scan_def empty_outcome_def)
  from logs_agree [OF this, of lib "Logs r" s] show ?thesis
    by (auto simp: same_reading_def readHubEvents_def metaTxResult_def finish_agree split: go_result.splits)
qed

definition results_agree :: "meta_result \<Rightarrow> receipt_scan \<Rightarrow> bool" where
  "results_agree out rs \<longleftrightarrow>
     revertReason out = map_option snd (receiptReverted rs) \<and> (success out \<longleftrightarrow> receiptReverted rs = None) \<and>
     (receiptReverted rs \<noteq> None \<longrightarrow> Status (rs_receipt rs) = 0) \<and>
     pred_option (\<lambda>(shown, _). Status shown = 0) (receiptReverted rs) \<and> rs_saw rs = res_saw out"

lemma mark_reverted_agree:
  "results_agree out (mark_reverted reason rs) \<longleftrightarrow>
     revertReason out = Some reason \<and> \<not> success out \<and> rs_saw rs = res_saw out"
  by (auto simp: results_agree_def mark_reverted_def Let_def)

lemma receipt_logs_agree:
  "results_agree out rs \<Longrightarrow> same_reading results_agree (resultLogs lib lgs out s) (receiptLogs lib lgs rs s)"
proof (induction lgs arbitrary: rs out s)
  case Nil
  then show ?case by (simp add: same_reading_def)
next
  case (Cons lg lgs)
  show ?case
  proof (cases "classify lib lg")
    case TransactionRelayed
    obtain ex o1 where ro: "transactionRelayedFailed lib (Data lg) = (ex, o1)" by fastforce
    show ?thesis
    proof (cases "ex \<or> (\<exists>reason. decodeRevertReason lib o1 = Returns reason)")
      case True
      with TransactionRelayed ro Cons.prems show ?thesis
        by (auto simp: Let_def mark_reverted_agree intro!: Cons.IH) (auto simp: results_agree_def)
    next
      case False
      then obtain why where "decodeRevertReason lib o1 = Panics why"
        by (cases "decodeRevertReason lib o1") auto
      with False TransactionRelayed ro show ?thesis by (simp add: Let_def same_reading_def)
    qed
  next
    case BadTransactionSent
    with Cons.prems show ?thesis
      by (auto simp: mark_reverted_agree intro!: Cons.IH split: prod.split) (simp_all add: results_agree_def)
  qed (insert Cons.prems, simp_all, (rule Cons.IH, simp add: results_agree_def)+)
qed

text \<open>
  C31: the receipt and the result that JSON-RPC clients get for the same transaction tell the same
  story: the receipt carries a revert reason exactly when the result is not a success, the reasons
  are equal, and the receipt is then shown with status zero.
\<close>

theorem GetTransactionReceipt_agrees_with_GetMetaTxResult:
  "same_reading
     (\<lambda>out rs. revertReason out = map_option snd (receiptReverted rs) \<and> (success out \<longleftrightarrow> receiptReverted rs = None) \<and>
        pred_option (\<lambda>(shown, _). Status shown = 0) (receiptReverted rs))
     (metaTxResult lib (Some r) s) (readReceipt lib r s)"
proof -
  let ?out = "\<lparr>mined = True, success = True, res_executed = True, res_errorCode = None,
                 revertReason = None, res_deployedAddress = None, res_saw = {}\<rparr>"
  let ?rs = "\<lparr>rs_receipt = r, receiptReverted = None, rs_saw = {}\<rparr>"
  have "results_agree ?out ?rs" by (simp add: results_agree_def)
  from receipt_logs_agree [OF this, of lib "Logs r" s] show ?thesis
    by (simp add: same_reading_def metaTxResult_def readReceipt_def results_agree_def mark_reverted_def Let_def
        split: go_result.splits) (auto simp: not_Some_pair split: option.splits)
qed

section \<open>What reading does to the tracker\<close>

lemma invalidateNonce_senders:
  "senders (invalidateNonce a s) = (senders s)(senderKey a := None)"
  by (simp add: invalidateNonce_def)

lemma readHubLogs_senders:
  "readHubLogs lib lgs sc s = Returns (sc', s') \<Longrightarrow> senders s' k = None \<or> senders s' k = senders s k"
proof (induction lgs arbitrary: sc s)
  case (Cons x lgs)
  then show ?case
    by (auto simp: Let_def invalidateNonce_senders split: hub_event.splits prod.splits if_splits go_result.splits)
      (metis fun_upd_apply invalidateNonce_senders)+
qed simp

text \<open>
  A user whose metatx the hub refused is forgotten. After a receipt with a \<open>BadTransactionSent\<close>
  was read, the tracker has no chain for the sender that event names, so the next metatx is validated
  against the chain of blocks; the receipt never gives anybody a chain.
\<close>

theorem readHubEvents_forgets_rejected_senders:
  assumes "readHubEvents lib (Some r) s = Returns (oc, s')" "lg \<in> set (Logs r)"
    "classify lib lg = BadTransactionSent"
  shows "tracker_next now s' (senderKey (Address_Hex lib (snd (badTransactionErrorCode lib (Data lg))))) = None \<and>
    (\<forall>k. senders s' k = None \<or> senders s' k = senders s k)"
proof -
  have "senders s' (senderKey (Address_Hex lib (snd (badTransactionErrorCode lib (Data lg))))) = None"
    if "readHubLogs lib lgs sc s0 = Returns (sc', s')" "lg \<in> set lgs" for lgs sc s0 sc'
    using that
  proof (induction lgs arbitrary: sc s0)
    case (Cons x lgs)
    show ?case
    proof (cases "lg = x")
      case True
      obtain cd a where bad: "badTransactionErrorCode lib (Data x) = (cd, a)" by fastforce
      from Cons.prems True bad assms(3) obtain sc1 where
          "readHubLogs lib lgs sc1 (invalidateNonce (Address_Hex lib a) s0) = Returns (sc', s')"
        by (auto simp: Let_def)
      from readHubLogs_senders [OF this, of "senderKey (Address_Hex lib a)"] show ?thesis
        using True bad by (simp add: invalidateNonce_senders)
    next
      case False
      with Cons.prems show ?thesis using Cons.IH
        by (auto simp: Let_def split: hub_event.splits prod.splits if_splits go_result.splits)
    qed
  qed simp
  moreover from assms(1) obtain sc where "readHubLogs lib (Logs r) empty_scan s = Returns (sc, s')"
    by (auto simp: readHubEvents_def split: go_result.splits)
  ultimately show ?thesis
    using assms(2) readHubLogs_senders [of lib "Logs r" empty_scan s sc s']
    by (auto simp: tracker_next_def live_chain_def)
qed

text \<open>A receipt with one \<open>BadTransactionSent\<close> log, read with the library of the concrete runs.\<close>

definition bad_topic :: Hash where "bad_topic = 0x42"

definition bad_receipt :: Receipt where
  "bad_receipt = \<lparr>Logs = [\<lparr>Topics = [bad_topic], Data = []\<rparr>], GasUsed = 21000, BlockNumber = Some 8, Status = 1,
     Receipt_ContractAddress = 0\<rparr>"

lemma hex_byte_initials:
  "hex_byte 0x42 = ''42''" "hex_byte 0x43 = ''43''" "hex_byte 0x54 = ''54''"
  by code_simp+

lemma classify_bad: "classify sample_lib \<lparr>Topics = [bad_topic], Data = []\<rparr> = BadTransactionSent"
  by (simp add: classify_def topicsOfHub_def topic_def bytes_of_string_def sample_lib_def
      hex_EncodeToString_def hex_byte_initials bad_topic_def)

theorem readHubEvents_forgets_rejected_senders_witness:
  "\<exists>oc s'. readHubEvents sample_lib (Some bad_receipt) sample_service = Returns (oc, s') \<and> hubRejected oc \<and>
     tracker_next 0 s' (senderKey (Address_Hex sample_lib 9)) = None"
proof -
  let ?lg = "\<lparr>Topics = [bad_topic], Data = []\<rparr>"
  have bad: "badTransactionErrorCode sample_lib [] = (2, 9)"
    by (simp add: badTransactionErrorCode_def sample_lib_def)
  obtain oc s' where read: "readHubEvents sample_lib (Some bad_receipt) sample_service = Returns (oc, s')"
      "hubRejected oc"
    using classify_bad bad
    by (simp add: readHubEvents_def bad_receipt_def finish_outcome_def Let_def empty_scan_def empty_outcome_def add_event_def)
  from readHubEvents_forgets_rejected_senders [OF read(1), of ?lg 0] classify_bad bad read show ?thesis
    by (simp add: bad_receipt_def)
qed

section \<open>What every reader does to the service\<close>

text \<open>
  Whichever accumulator a reader keeps, the service is told of every sender the hub refused, in the
  order of the logs, and a revert reason that cannot be read ends the reading.
\<close>

fun hub_effect :: "eth_lib \<Rightarrow> hub_log list \<Rightarrow> RelaySignerService \<Rightarrow> RelaySignerService go_result" where
  "hub_effect lib [] s = Returns s"
| "hub_effect lib (lg # lgs) s =
     (case classify lib lg of
        BadTransactionSent \<Rightarrow> hub_effect lib lgs (invalidateNonce (Address_Hex lib (snd (badTransactionErrorCode lib (Data lg)))) s)
      | TransactionRelayed \<Rightarrow>
          (case transactionRelayedFailed lib (Data lg) of
             (ex, out) \<Rightarrow>
               if ex then hub_effect lib lgs s
               else (case decodeRevertReason lib out of Panics why \<Rightarrow> Panics why | Returns _ \<Rightarrow> hub_effect lib lgs s))
      | _ \<Rightarrow> hub_effect lib lgs s)"

definition effect_of :: "('a \<times> RelaySignerService) go_result \<Rightarrow> RelaySignerService go_result" where
  "effect_of r = (case r of Panics why \<Rightarrow> Panics why | Returns (_, s) \<Rightarrow> Returns s)"

lemma effect_of_simps [simp]: "effect_of (Panics why) = Panics why" "effect_of (Returns (a, s)) = Returns s"
  by (simp_all add: effect_of_def)

locale hub_reader =
  fixes read :: "eth_lib \<Rightarrow> hub_log list \<Rightarrow> 'acc \<Rightarrow> RelaySignerService \<Rightarrow> ('acc \<times> RelaySignerService) go_result"
  assumes read_nil: "read lib [] acc s = Returns (acc, s)"
    and read_bad: "classify lib lg = BadTransactionSent \<Longrightarrow>
      \<exists>acc'. read lib (lg # lgs) acc s =
        read lib lgs acc' (invalidateNonce (Address_Hex lib (snd (badTransactionErrorCode lib (Data lg)))) s)"
    and read_failed: "classify lib lg = TransactionRelayed \<Longrightarrow> transactionRelayedFailed lib (Data lg) = (False, out) \<Longrightarrow>
      decodeRevertReason lib out = Panics why \<Longrightarrow> read lib (lg # lgs) acc s = Panics why"
    and read_relayed: "classify lib lg = TransactionRelayed \<Longrightarrow> transactionRelayedFailed lib (Data lg) = (ex, out) \<Longrightarrow>
      ex \<or> decodeRevertReason lib out = Returns reason \<Longrightarrow> \<exists>acc'. read lib (lg # lgs) acc s = read lib lgs acc' s"
    and read_other: "classify lib lg \<noteq> BadTransactionSent \<Longrightarrow> classify lib lg \<noteq> TransactionRelayed \<Longrightarrow>
      \<exists>acc'. read lib (lg # lgs) acc s = read lib lgs acc' s"
begin

lemma reader_effect: "effect_of (read lib lgs acc s) = hub_effect lib lgs s"
proof (induction lgs arbitrary: acc s)
  case Nil
  show ?case by (simp add: read_nil)
next
  case (Cons lg lgs)
  obtain ex out where rel: "transactionRelayedFailed lib (Data lg) = (ex, out)" by fastforce
  consider (bad) "classify lib lg = BadTransactionSent"
    | (failed) why where "classify lib lg = TransactionRelayed" "\<not> ex" "decodeRevertReason lib out = Panics why"
    | (relayed) reason where "classify lib lg = TransactionRelayed" "ex \<or> decodeRevertReason lib out = Returns reason"
    | (other) "classify lib lg \<noteq> BadTransactionSent" "classify lib lg \<noteq> TransactionRelayed"
    by (cases "decodeRevertReason lib out") auto
  then show ?case
  proof cases
    case bad
    with read_bad [OF bad, of lgs acc s] Cons.IH show ?thesis by auto
  next
    case failed
    with read_failed [of lib lg out why lgs acc s] rel show ?thesis by simp
  next
    case relayed
    with read_relayed [OF relayed(1) rel relayed(2), of lgs acc s] Cons.IH rel show ?thesis by auto
  next
    case other
    with read_other [OF other, of lgs acc s] Cons.IH show ?thesis by (auto split: hub_event.split)
  qed
qed

end

interpretation relay_reader: hub_reader readHubLogs
  by unfold_locales (auto simp: Let_def split: hub_event.split prod.split)

interpretation result_reader: hub_reader resultLogs
  by unfold_locales (auto simp: Let_def split: hub_event.split prod.split)

interpretation receipt_reader: hub_reader receiptLogs
  by unfold_locales (auto simp: Let_def split: hub_event.split prod.split)

text \<open>
  C30: whoever reads a receipt, the service ends up the same. The watcher and the synchronous relay, the
  receipt and the result of JSON-RPC forget exactly the nonce chains of the senders the hub refused, in
  the order of the logs, and panic on exactly the same receipts.
\<close>

theorem every_reader_same_effect:
  "effect_of (readHubEvents lib (Some r) s) = hub_effect lib (Logs r) s \<and>
   effect_of (metaTxResult lib (Some r) s) = hub_effect lib (Logs r) s \<and>
   effect_of (readReceipt lib r s) = hub_effect lib (Logs r) s"
proof -
  have wrap: "effect_of (case x of Panics why \<Rightarrow> Panics why | Returns (a, t) \<Rightarrow> Returns (f a, t)) = effect_of x"
    for x :: "('a \<times> RelaySignerService) go_result" and f :: "'a \<Rightarrow> 'b"
    by (simp add: effect_of_def split: go_result.split prod.split)
  show ?thesis
    by (simp add: readHubEvents_def metaTxResult_def readReceipt_def wrap relay_reader.reader_effect
        result_reader.reader_effect receipt_reader.reader_effect)
qed

section \<open>What is logged of a refusal\<close>

definition log_hubRejected :: "eth_lib \<Rightarrow> string \<Rightarrow> Address \<Rightarrow> byte \<Rightarrow> Level \<times> string \<times> fields" where
  "log_hubRejected lib transactionID from cd =
     (LevelWarn, ''relay.hub_rejected'',
      [(''transactionHash'', DText (''0x'' @ TrimPrefix transactionID ''0x'')), (''from'', DText (Address_Hex lib from)),
       (''errorCode'', DInt (int (unat cd))), (''errorCodeName'', DText (errorCodeName cd)),
       (''note'', DText ''el nonce reservado se descarta: las metatx encadenadas despues de esta van a fallar'')])"

definition hub_rejections :: "eth_lib \<Rightarrow> string \<Rightarrow> hub_log list \<Rightarrow> (Level \<times> string \<times> fields) list" where
  "hub_rejections lib transactionID lgs =
     concat (map (\<lambda>lg. if classify lib lg = BadTransactionSent
                        then [case badTransactionErrorCode lib (Data lg) of (cd, a) \<Rightarrow> log_hubRejected lib transactionID a cd]
                        else []) lgs)"

text \<open>The warning is logged exactly for a metatx whose outcome says the hub refused it.\<close>

lemma rejection_logged_iff:
  "readHubLogs lib lgs sc s = Returns (sc', s') \<Longrightarrow>
     hubRejected (scan_outcome sc') \<longleftrightarrow> hubRejected (scan_outcome sc) \<or> hub_rejections lib t lgs \<noteq> []"
proof (induction lgs arbitrary: sc s)
  case Nil
  then show ?case by (simp add: hub_rejections_def)
next
  case (Cons lg lgs)
  have step: "hub_rejections lib t (lg # lgs) \<noteq> [] \<longleftrightarrow> classify lib lg = BadTransactionSent \<or> hub_rejections lib t lgs \<noteq> []"
    by (simp add: hub_rejections_def)
  from Cons.prems show ?case
    unfolding step
    by (auto simp: Let_def add_event_def split: hub_event.splits prod.splits if_splits go_result.splits dest: Cons.IH)
qed

end
