(* ===== verification/Watcher.thy ===== *)
theory Watcher
  imports Hub
begin

text \<open>
  The end of a metatx: \<open>settle\<close> (\<open>service/settle.go\<close>), the watcher that closes what is in flight on
  every new block (\<open>service/watcher.go\<close>), the synchronous relay's result
  (\<open>service/relay.go\<close>), and the backoff of the block subscription.
\<close>

section \<open>Settling\<close>

definition settle :: "time \<Rightarrow> Hash \<Rightarrow> metaTxOutcome \<Rightarrow> RelaySignerService \<Rightarrow> RelaySignerService" where
  "settle now hash oc s =
     (case claimSettled hash s of
        (False, s1) \<Rightarrow> s1
      | (True, s1) \<Rightarrow> releaseSent now hash (hubRejected oc) s1)"

definition defaultReceiptTimeout :: duration where
  "defaultReceiptTimeout = 60 * second"

definition receiptTimeout :: "RelaySignerService \<Rightarrow> duration" where
  "receiptTimeout s =
     (case Cfg s of
        Some c \<Rightarrow> if ReceiptTimeoutMs (Reorder c) > 0 then go_int64 (ReceiptTimeoutMs (Reorder c) * millisecond)
                  else defaultReceiptTimeout
      | None \<Rightarrow> defaultReceiptTimeout)"

section \<open>The watcher\<close>

record inFlightMetaTx =
  if_hash :: Hash
  sentAt :: time
  if_senderKey :: string
  if_chain :: ref

definition inFlight_entry :: "Hash \<Rightarrow> metaTxEntry \<Rightarrow> inFlightMetaTx option" where
  "inFlight_entry h e =
     (if settled e then None
      else map_option (\<lambda>c. \<lparr>if_hash = h, sentAt = rememberedAt e, if_senderKey = entry_senderKey e, if_chain = c\<rparr>)
             (entry_chain e))"

definition inFlight :: "Hash list \<Rightarrow> RelaySignerService \<Rightarrow> inFlightMetaTx list" where
  "inFlight order s = List.map_filter (\<lambda>h. Option.bind (metaTx s h) (inFlight_entry h)) order"

definition expireOne :: "time \<Rightarrow> inFlightMetaTx \<Rightarrow> RelaySignerService \<Rightarrow> RelaySignerService" where
  "expireOne now m s =
     (if now - sentAt m < receiptTimeout s then s
      else case claimSettled (if_hash m) s of
             (False, s1) \<Rightarrow> s1
           | (True, s1) \<Rightarrow> releaseSent now (if_hash m) False s1)"

definition expireInFlight :: "time \<Rightarrow> inFlightMetaTx list \<Rightarrow> RelaySignerService \<Rightarrow> RelaySignerService" where
  "expireInFlight now ms s =
     fold (\<lambda>m s. expireOne now m (snd (recallMetaTx now Background (if_hash m) s))) ms s"

text \<open>What the node answers during one pass of the watcher.\<close>

record receipt_env =
  rc_Connect :: "go_error option"
  rc_GetTransactionReceipt :: "Hash \<Rightarrow> go_error + Receipt option"

definition settleOne ::
    "eth_lib \<Rightarrow> receipt_env \<Rightarrow> time \<Rightarrow> inFlightMetaTx \<Rightarrow> RelaySignerService \<Rightarrow> RelaySignerService go_result" where
  "settleOne lib env now m s =
     (let s1 = snd (recallMetaTx now Background (if_hash m) s)
      in case rc_GetTransactionReceipt env (if_hash m) of
           Inl e \<Rightarrow> Returns (expireOne now m s1)
         | Inr None \<Rightarrow> Returns (expireOne now m s1)
         | Inr (Some r) \<Rightarrow>
             (case readHubEvents lib (Some r) s1 of
                Panics why \<Rightarrow> Panics why
              | Returns (oc, s2) \<Rightarrow> Returns (settle now (if_hash m) oc s2)))"

fun settleEach ::
    "eth_lib \<Rightarrow> receipt_env \<Rightarrow> time \<Rightarrow> inFlightMetaTx list \<Rightarrow> RelaySignerService \<Rightarrow> RelaySignerService go_result" where
  "settleEach lib env now [] s = Returns s"
| "settleEach lib env now (m # ms) s =
     (case settleOne lib env now m s of
        Panics why \<Rightarrow> Panics why
      | Returns s1 \<Rightarrow> settleEach lib env now ms s1)"

definition SettleInFlight ::
    "eth_lib \<Rightarrow> receipt_env \<Rightarrow> time \<Rightarrow> Hash list \<Rightarrow> RelaySignerService \<Rightarrow> RelaySignerService go_result" where
  "SettleInFlight lib env now order s =
     (if \<not> reorderEnabled s then Returns s
      else let ms = inFlight order s
           in if ms = [] then Returns s
              else case rc_Connect env of
                     Some e \<Rightarrow> Returns (expireInFlight now ms s)
                   | None \<Rightarrow> settleEach lib env now ms s)"

section \<open>The synchronous relay\<close>

record RelayResult =
  rr_TransactionHash :: string
  rr_IsDeploy :: bool
  rr_DeployedAddress :: "string option"
  rr_BlockNumber :: "uint64 option"
  rr_GasUsed :: string
  rr_ErrorCode :: "byte option"
  rr_ErrorCodeName :: "string option"
  rr_Executed :: "bool option"
  rr_Output :: "string option"
  rr_From :: string
  rr_To :: "string option"
  rr_Nonce :: uint64
  rr_MetaTxGasLimit :: string
  rr_Events :: "string list"
  rr_Simulated :: bool

definition decodeRelayResult ::
    "eth_lib \<Rightarrow> time \<Rightarrow> Hash \<Rightarrow> PreparedMetaTx \<Rightarrow> Receipt option \<Rightarrow> RelaySignerService \<Rightarrow>
     (RelayResult \<times> RelaySignerService) go_result" where
  "decodeRelayResult lib now hash p receipt s =
     (let result = \<lparr>rr_TransactionHash = Hash_Hex lib hash, rr_IsDeploy = IsDeploy p, rr_DeployedAddress = None,
            rr_BlockNumber = None, rr_GasUsed = ''0'', rr_ErrorCode = None, rr_ErrorCodeName = None,
            rr_Executed = None, rr_Output = None, rr_From = Address_Hex lib (From p),
            rr_To = map_option (Address_Hex lib) (To p), rr_Nonce = Nonce p,
            rr_MetaTxGasLimit = decimal (MetaTxGasLimit p), rr_Events = [], rr_Simulated = False\<rparr>
      in case receipt of
           None \<Rightarrow> Returns (result, s)
         | Some r \<Rightarrow>
             (case readHubEvents lib (Some r) s of
                Panics why \<Rightarrow> Panics why
              | Returns (oc, s1) \<Rightarrow>
                  Returns (result\<lparr>rr_GasUsed := decimal (GasUsed r),
                     rr_BlockNumber := map_option word_of_nat (BlockNumber r), rr_Events := events oc,
                     rr_Executed := executed oc, rr_ErrorCode := errorCode oc,
                     rr_ErrorCodeName := errorCodeName_of oc, rr_Output := outcome_output oc,
                     rr_DeployedAddress := deployedAddress oc\<rparr>,
                   settle now hash oc s1)))"

text \<open>
  \<open>waitForReceipt\<close> as the sequence of answers it polls: it returns the first receipt, and once the
  deadline or the client's context ends the wait it gives up with the last error it saw.
\<close>

datatype poll = PollAnswer "go_error + Receipt option" | PollDeadline | PollCtxDone

definition receipt_timeout_error :: "eth_lib \<Rightarrow> Hash \<Rightarrow> string \<Rightarrow> go_error option \<Rightarrow> go_error" where
  "receipt_timeout_error lib hash timeout lastErr =
     errors_New
       (''the metatx was sent but its result was not known within '' @ timeout @
        '': consult the receipt for '' @ Hash_Hex lib hash @
        (case lastErr of Some e \<Rightarrow> '' (last error: '' @ err_text e @ '')'' | None \<Rightarrow> [])) (- 32603)"

fun waitForReceipt ::
    "eth_lib \<Rightarrow> string \<Rightarrow> Hash \<Rightarrow> go_error option \<Rightarrow> poll list \<Rightarrow> (go_error + Receipt) option" where
  "waitForReceipt lib timeout hash lastErr [] = None"
| "waitForReceipt lib timeout hash lastErr (PollAnswer (Inr (Some r)) # ps) = Some (Inr r)"
| "waitForReceipt lib timeout hash lastErr (PollAnswer (Inr None) # ps) = waitForReceipt lib timeout hash lastErr ps"
| "waitForReceipt lib timeout hash lastErr (PollAnswer (Inl e) # ps) = waitForReceipt lib timeout hash (Some e) ps"
| "waitForReceipt lib timeout hash lastErr (PollDeadline # ps) =
     Some (Inl (receipt_timeout_error lib hash timeout lastErr))"
| "waitForReceipt lib timeout hash lastErr (PollCtxDone # ps) =
     Some (Inl (errors_New (''the client stopped waiting for '' @ Hash_Hex lib hash) (- 32603)))"

definition IsHexData :: "string \<Rightarrow> bool" where
  "IsHexData value =
     (let body = TrimPrefix (TrimPrefix value ''0x'') ''0X''
      in if body = [] \<or> body = value then False
         else list_all (\<lambda>c. c \<in> set ''0123456789abcdefABCDEF'') body)"

section \<open>The block subscription\<close>

text \<open>A duration doubles with the wrap-around of an \<open>int64\<close> and is then capped.\<close>

definition nextBackoff :: "duration \<Rightarrow> duration \<Rightarrow> duration" where
  "nextBackoff current mx = (let nxt = go_int64 (current * 2) in if nxt > mx then mx else nxt)"

definition initialBackoff :: duration where "initialBackoff = 1 * second"
definition maxBackoff :: duration where "maxBackoff = 30 * second"

section \<open>What a pass of the watcher leaves in flight\<close>

definition in_flight_at :: "RelaySignerService \<Rightarrow> Hash \<Rightarrow> bool" where
  "in_flight_at s h \<longleftrightarrow> (\<exists>e. metaTx s h = Some e \<and> \<not> settled e \<and> entry_chain e \<noteq> None)"

lemma forgetChain_metaTx [simp]: "metaTx (forgetChain key s) = metaTx s"
  by (simp add: forgetChain_def split: option.split)

lemma invalidateNonce_frame [simp]:
  "metaTx (invalidateNonce a s) = metaTx s" "Cfg (invalidateNonce a s) = Cfg s"
  by (simp_all add: invalidateNonce_def)

lemma readHubLogs_frame:
  "readHubLogs lib lgs sc s = Returns (sc', s') \<Longrightarrow>
     metaTx s' = metaTx s \<and> Cfg s' = Cfg s \<and> (service_wf s \<longrightarrow> service_wf s')"
proof (induction lgs arbitrary: sc s)
  case (Cons x lgs)
  then show ?case
    by (auto simp: Let_def invalidateNonce_def forgetChain_wf
        split: hub_event.splits prod.splits if_splits go_result.splits)
qed simp

lemma readHubEvents_frame:
  "readHubEvents lib r s = Returns (oc, s') \<Longrightarrow>
     metaTx s' = metaTx s \<and> Cfg s' = Cfg s \<and> (service_wf s \<longrightarrow> service_wf s')"
  by (auto simp: readHubEvents_def split: option.splits go_result.splits dest: readHubLogs_frame)

lemma releaseChain_Cfg [simp]: "Cfg (releaseChain now key chain s) = Cfg s"
  by (auto simp: releaseChain_def Let_def upd_chain_def split: option.split)

lemma claim_release:
  assumes "s' = (case claimSettled h s of (False, s1) \<Rightarrow> s1 | (True, s1) \<Rightarrow> releaseSent now h b s1)"
  shows "\<not> in_flight_at s' h" "g \<noteq> h \<Longrightarrow> metaTx s' g = metaTx s g" "Cfg s' = Cfg s"
    "service_wf s \<Longrightarrow> service_wf s'"
  using assms correlation_wf(4) [of s h] releaseSent_wf [of "snd (claimSettled h s)" now h b]
  by (auto simp: claimSettled_def releaseSent_def take_chain_def in_flight_at_def
      split: option.splits if_splits bool.splits)

lemma settleOne_facts:
  assumes "settleOne lib env now m s = Returns s'" "h = if_hash m"
  shows "(\<forall>g. g \<noteq> h \<longrightarrow> metaTx s' g = metaTx s g) \<and> Cfg s' = Cfg s \<and> (service_wf s \<longrightarrow> service_wf s') \<and>
      (in_flight_at s' h \<longrightarrow> metaTx s' h = metaTx s h \<and> now - sentAt m < receiptTimeout s \<and>
       (\<forall>r. rc_GetTransactionReceipt env h \<noteq> Inr (Some r)))"
proof -
  define s1 where "s1 = snd (recallMetaTx now Background h s)"
  have s1: "\<And>g. g \<noteq> h \<Longrightarrow> metaTx s1 g = metaTx s g" "Cfg s1 = Cfg s" "service_wf s \<Longrightarrow> service_wf s1"
      "in_flight_at s1 h \<Longrightarrow> metaTx s1 h = metaTx s h"
    using correlation_wf(2) [of s now Background h]
    by (auto simp: s1_def recallMetaTx_def in_flight_at_def split: option.splits)
  have to: "receiptTimeout s1 = receiptTimeout s" using s1(2) by (simp add: receiptTimeout_def)
  show ?thesis
  proof (cases "\<exists>r. rc_GetTransactionReceipt env h = Inr (Some r)")
    case True
    then obtain r oc s2 where r: "rc_GetTransactionReceipt env h = Inr (Some r)"
        "readHubEvents lib (Some r) s1 = Returns (oc, s2)" "s' = settle now h oc s2"
      using assms by (auto simp: settleOne_def Let_def s1_def split: go_result.splits)
    from claim_release [OF r(3) [unfolded settle_def]] readHubEvents_frame [OF r(2)] s1 r(1)
    show ?thesis
      by simp
  next
    case False
    then have s': "s' = expireOne now m s1"
      using assms by (auto simp: settleOne_def Let_def s1_def split: sum.splits option.splits go_result.splits)
    show ?thesis
    proof (cases "now - sentAt m < receiptTimeout s")
      case True
      with s' s1 to False show ?thesis by (simp add: expireOne_def)
    next
      case old: False
      with s' to have "s' = (case claimSettled h s1 of (False, s2) \<Rightarrow> s2 | (True, s2) \<Rightarrow> releaseSent now h False s2)"
        unfolding assms(2) by (simp add: expireOne_def)
      from claim_release [OF this] s1 show ?thesis by simp
    qed
  qed
qed

lemma settleEach_facts:
  assumes "settleEach lib env now ms s = Returns s'"
  shows "Cfg s' = Cfg s \<and> (service_wf s \<longrightarrow> service_wf s') \<and>
    (in_flight_at s' h \<longrightarrow> metaTx s' h = metaTx s h \<and>
      (\<forall>m\<in>set ms. if_hash m = h \<longrightarrow> now - sentAt m < receiptTimeout s \<and>
         (\<forall>r. rc_GetTransactionReceipt env h \<noteq> Inr (Some r))))"
  using assms
proof (induction ms arbitrary: s)
  case (Cons m ms)
  then obtain s1 where s1: "settleOne lib env now m s = Returns s1" "settleEach lib env now ms s1 = Returns s'"
    by (auto split: go_result.splits)
  note f = settleOne_facts [OF s1(1) refl]
  have to: "receiptTimeout s1 = receiptTimeout s" using f by (simp add: receiptTimeout_def)
  have "in_flight_at s1 h" if "in_flight_at s' h" "metaTx s' h = metaTx s1 h"
    using that by (simp add: in_flight_at_def)
  with Cons.IH [OF s1(2)] f to show ?case by (cases "h = if_hash m") auto
qed simp

lemma expireOne_facts:
  shows "g \<noteq> if_hash m \<Longrightarrow> metaTx (expireOne now m s) g = metaTx s g" "Cfg (expireOne now m s) = Cfg s"
    "service_wf s \<Longrightarrow> service_wf (expireOne now m s)"
  using claim_release [of "expireOne now m s" now "if_hash m" False s]
  by (auto simp: expireOne_def)

lemma expireInFlight_settleEach:
  "settleEach lib \<lparr>rc_Connect = None, rc_GetTransactionReceipt = (\<lambda>_. Inr None)\<rparr> now ms s =
     Returns (expireInFlight now ms s)"
  by (induction ms arbitrary: s) (simp_all add: expireInFlight_def settleOne_def Let_def)

lemma inFlight_covers:
  assumes "in_flight_at s h" "set order = dom (metaTx s)"
  shows "\<exists>m\<in>set (inFlight order s). if_hash m = h \<and> metaTx s h \<noteq> None \<and> sentAt m = rememberedAt (the (metaTx s h))"
  using assms
  by (auto simp: in_flight_at_def inFlight_def List.map_filter_def inFlight_entry_def image_iff intro!: bexI [of _ h])

text \<open>A pass without a connection is one in which the node has no receipt.\<close>

definition pass_env :: "receipt_env \<Rightarrow> receipt_env" where
  "pass_env env = (if rc_Connect env = None then env else \<lparr>rc_Connect = None, rc_GetTransactionReceipt = (\<lambda>_. Inr None)\<rparr>)"

lemma SettleInFlight_each:
  assumes "SettleInFlight lib env now order s = Returns s'" "reorderEnabled s"
  shows "settleEach lib (pass_env env) now (inFlight order s) s = Returns s'"
  using assms expireInFlight_settleEach [of lib now "inFlight order s" s]
  by (cases "inFlight order s = []") (auto simp: SettleInFlight_def pass_env_def Let_def split: option.splits)

section \<open>What a pass gives back\<close>

text \<open>The hub refused the metatx, so its place is not given back but forgotten with the whole chain.\<close>

definition refused_by_hub :: "eth_lib \<Rightarrow> receipt_env \<Rightarrow> Hash \<Rightarrow> bool" where
  "refused_by_hub lib env h =
     (case rc_GetTransactionReceipt (pass_env env) h of
        Inr (Some r) \<Rightarrow> \<exists>lg \<in> set (Logs r). classify lib lg = BadTransactionSent
      | _ \<Rightarrow> False)"

text \<open>
  A metatx whose place on a chain a pass gives back: it was in flight there and remembered for at most
  the ten minutes of the memory, the pass did not leave it as it was, and the hub did not refuse it.
\<close>

definition gives_back ::
    "eth_lib \<Rightarrow> receipt_env \<Rightarrow> time \<Rightarrow> string \<Rightarrow> ref \<Rightarrow> RelaySignerService \<Rightarrow> RelaySignerService \<Rightarrow> Hash \<Rightarrow> bool" where
  "gives_back lib env now key c s s' h =
     (case metaTx s h of
        None \<Rightarrow> False
      | Some e \<Rightarrow> \<not> settled e \<and> entry_senderKey e = key \<and> entry_chain e = Some c \<and>
          now - rememberedAt e \<le> metaTxMemoryTTL \<and> metaTx s' h \<noteq> Some e \<and> \<not> refused_by_hub lib env h)"

lemma releaseChain_pending:
  assumes "service_wf s" "senders (releaseChain now key chain s) k = Some c"
  shows "senders s k = Some c \<and> pending (chain_heap (releaseChain now key chain s) c) =
     max 0 (pending (chain_heap s c) - (if chain = Some c \<and> key = k then 1 else 0))"
proof (cases "\<exists>d. chain = Some d \<and> senders s key = Some d")
  case True
  then obtain d where d: "chain = Some d" "senders s key = Some d" by blast
  have "senders s k = Some c"
    using assms(2) d by (auto simp: releaseChain_def Let_def upd_chain_def split: if_splits)
  moreover from this d have "d = c \<longleftrightarrow> key = k" using service_wf_dests(9) [OF assms(1)] by auto
  moreover have "0 \<le> pending (chain_heap s c)" using service_wf_facts [OF assms(1)] by blast
  ultimately show ?thesis
    using d by (auto simp: releaseChain_def Let_def upd_chain_def)
next
  case False
  then have "releaseChain now key chain s = s" by (auto simp: releaseChain_def split: option.split)
  with assms False service_wf_facts [OF assms(1)] show ?thesis by (auto simp: max_def)
qed

lemma claim_release_pending:
  assumes "s' = (case claimSettled h s of (False, s1) \<Rightarrow> s1 | (True, s1) \<Rightarrow> releaseSent now h b s1)"
    "service_wf s" "senders s' k = Some c" "k \<noteq> []"
  shows "senders s k = Some c \<and> pending (chain_heap s' c) = max 0 (pending (chain_heap s c) -
     (case metaTx s h of
        None \<Rightarrow> 0
      | Some e \<Rightarrow> if \<not> settled e \<and> entry_senderKey e = k \<and> entry_chain e = Some c \<and> \<not> b then 1 else 0))"
proof -
  have ge: "0 \<le> pending (chain_heap s c)" using service_wf_facts [OF assms(2)] by blast
  show ?thesis
  proof (cases "\<exists>e. metaTx s h = Some e \<and> \<not> settled e \<and> entry_chain e \<noteq> None \<and> entry_senderKey e \<noteq> [] \<and> \<not> b")
    case True
    then obtain e where e: "metaTx s h = Some e" "\<not> settled e" "entry_chain e \<noteq> None" "entry_senderKey e \<noteq> []" "\<not> b" by blast
    define m where "m = (metaTx s)(h \<mapsto> e\<lparr>settled := True, entry_chain := None\<rparr>)"
    have "s' = releaseChain now (entry_senderKey e) (entry_chain e) (s\<lparr>metaTx := m\<rparr>)"
      using e assms(1) by (auto simp: claimSettled_def releaseSent_def take_chain_def m_def)
    with releaseChain_pending [of "s\<lparr>metaTx := m\<rparr>" now "entry_senderKey e" "entry_chain e" k c]
      wf_metaTx_update [OF assms(2), of m] assms(3) e show ?thesis by auto
  next
    case False
    then have "senders s' = senders s" "chain_heap s' = chain_heap s"
      using assms(1) by (auto simp: claimSettled_def releaseSent_def take_chain_def split: option.splits if_splits)
    with False assms(3,4) ge show ?thesis by (auto split: option.split)
  qed
qed

lemma invalidateNonce_pending [simp]: "pending (chain_heap (invalidateNonce a s) c) = pending (chain_heap s c)"
  by (simp add: invalidateNonce_def forgetChain_def split: option.split)

lemma readHubLogs_pending:
  "readHubLogs lib lgs sc s = Returns (sc', s') \<Longrightarrow> pending (chain_heap s' c) = pending (chain_heap s c) \<and>
     hubRejected (scan_outcome sc') =
       (hubRejected (scan_outcome sc) \<or> (\<exists>lg \<in> set lgs. classify lib lg = BadTransactionSent))"
proof (induction lgs arbitrary: sc s)
  case (Cons x lgs)
  then show ?case
    by (auto simp: Let_def add_event_def split: hub_event.splits prod.splits if_splits go_result.splits)
qed simp

lemma readHubEvents_pending:
  assumes "readHubEvents lib (Some r) s = Returns (oc, s')"
  shows "pending (chain_heap s' c) = pending (chain_heap s c)" "senders s' k = None \<or> senders s' k = senders s k"
    "hubRejected oc = (\<exists>lg \<in> set (Logs r). classify lib lg = BadTransactionSent)"
proof -
  from assms obtain sc where sc: "readHubLogs lib (Logs r) empty_scan s = Returns (sc, s')" "oc = finish_outcome sc"
    by (auto simp: readHubEvents_def split: go_result.splits)
  from readHubLogs_pending [OF sc(1)] readHubLogs_senders [OF sc(1)] sc(2)
  show "pending (chain_heap s' c) = pending (chain_heap s c)" "senders s' k = None \<or> senders s' k = senders s k"
    "hubRejected oc = (\<exists>lg \<in> set (Logs r). classify lib lg = BadTransactionSent)"
    by (auto simp: finish_outcome_def Let_def empty_scan_def empty_outcome_def)
qed

lemma recall_pending:
  fixes now h s
  defines "s1 \<equiv> snd (recallMetaTx now Background h s)"
  shows "senders s1 = senders s" "chain_heap s1 = chain_heap s" "receiptTimeout s1 = receiptTimeout s"
    "metaTx s1 h = (case metaTx s h of None \<Rightarrow> None | Some e \<Rightarrow> if now - rememberedAt e > metaTxMemoryTTL then None else Some e)"
    "service_wf s \<Longrightarrow> service_wf s1"
  using correlation_wf(2) [of s now Background h]
  by (auto simp: s1_def recallMetaTx_def receiptTimeout_def split: option.split)

lemma settleOne_pending:
  assumes "settleOne lib env now m s = Returns s'" "rc_Connect env = None" "h = if_hash m"
    "service_wf s" "senders s' k = Some c" "k \<noteq> []"
  shows "senders s k = Some c \<and> pending (chain_heap s' c) =
     max 0 (pending (chain_heap s c) - (if gives_back lib env now k c s s' h then 1 else 0))"
proof -
  define s1 where "s1 = snd (recallMetaTx now Background h s)"
  note s1 = recall_pending [where now = now and h = h and s = s, folded s1_def]
  have env: "pass_env env = env" using assms(2) by (simp add: pass_env_def)
  have ge: "0 \<le> pending (chain_heap s c)" using service_wf_facts [OF assms(4)] by blast
  have claimed: "metaTx t' h \<noteq> Some e" if "t' = (case claimSettled h t of (False, t1) \<Rightarrow> t1 | (True, t1) \<Rightarrow> releaseSent now h b t1)"
      "\<not> settled e" "entry_chain e \<noteq> None" for t t' b e
    using claim_release(1) [OF that(1)] that(2,3) by (auto simp: in_flight_at_def)
  show ?thesis
  proof (cases "\<exists>r. rc_GetTransactionReceipt env h = Inr (Some r)")
    case True
    then obtain r oc s2 where r: "rc_GetTransactionReceipt env h = Inr (Some r)"
        "readHubEvents lib (Some r) s1 = Returns (oc, s2)" "s' = settle now h oc s2"
      using assms by (auto simp: settleOne_def Let_def s1_def split: go_result.splits)
    note rd = readHubEvents_pending [OF r(2)]
    have s2: "service_wf s2" "metaTx s2 = metaTx s1" using readHubEvents_frame [OF r(2)] s1(5) assms(4) by simp_all
    note rel = claim_release_pending [OF r(3) [unfolded settle_def] s2(1) assms(5,6)]
    then have "senders s k = Some c" using rd(2) [of k] s1(1) by auto
    moreover have "refused_by_hub lib env h = hubRejected oc" using rd(3) r(1) by (simp add: refused_by_hub_def env)
    ultimately show ?thesis
      using rel rd(1) s1(2,4) s2(2) claimed [OF r(3) [unfolded settle_def]] by (auto simp: gives_back_def split: option.split)
  next
    case False
    then have s': "s' = expireOne now m s1"
      using assms by (auto simp: settleOne_def Let_def s1_def split: sum.splits option.splits go_result.splits)
    have refused: "\<not> refused_by_hub lib env h"
      using False by (auto simp: refused_by_hub_def env split: sum.split option.split)
    show ?thesis
    proof (cases "now - sentAt m < receiptTimeout s")
      case True
      with s' s1 assms(5) ge show ?thesis
        by (auto simp: expireOne_def gives_back_def split: option.splits)
    next
      case old: False
      with s' s1(3) have st: "s' = (case claimSettled h s1 of (False, s2) \<Rightarrow> s2 | (True, s2) \<Rightarrow> releaseSent now h False s2)"
        unfolding assms(3) by (simp add: expireOne_def)
      from claim_release_pending [OF st s1(5) [OF assms(4)] assms(5,6)] s1 refused claimed [OF st] show ?thesis
        by (auto simp: gives_back_def split: option.splits)
    qed
  qed
qed

lemma settleEach_untouched:
  "settleEach lib env now ms s = Returns s' \<Longrightarrow> h \<notin> if_hash ` set ms \<Longrightarrow> metaTx s' h = metaTx s h"
proof (induction ms arbitrary: s)
  case (Cons m ms)
  then obtain s1 where s1: "settleOne lib env now m s = Returns s1" "settleEach lib env now ms s1 = Returns s'"
    by (auto split: go_result.splits)
  from Cons.IH [OF s1(2)] settleOne_facts [OF s1(1) refl] Cons.prems(2) show ?case by simp
qed simp

lemma settleEach_pending:
  assumes "settleEach lib env now ms s = Returns s'" "rc_Connect env = None" "distinct (map if_hash ms)"
    "service_wf s" "senders s' k = Some c" "k \<noteq> []"
  shows "senders s k = Some c \<and> pending (chain_heap s' c) =
     max 0 (pending (chain_heap s c) - int (card {h \<in> if_hash ` set ms. gives_back lib env now k c s s' h}))"
  using assms
proof (induction ms arbitrary: s)
  case Nil
  then show ?case using service_wf_facts [OF Nil.prems(4)] by auto
next
  case (Cons m ms)
  let ?h = "if_hash m" and ?B = "\<lambda>s ms. {h \<in> if_hash ` set ms. gives_back lib env now k c s s' h}"
  from Cons.prems(1) obtain s1 where s1: "settleOne lib env now m s = Returns s1" "settleEach lib env now ms s1 = Returns s'"
    by (auto split: go_result.splits)
  note f = settleOne_facts [OF s1(1) refl]
  have new: "?h \<notin> if_hash ` set ms" using Cons.prems(3) by simp
  have ih: "senders s1 k = Some c" "pending (chain_heap s' c) = max 0 (pending (chain_heap s1 c) - int (card (?B s1 ms)))"
    using Cons.IH [OF s1(2) Cons.prems(2) _ _ Cons.prems(5,6)] Cons.prems(3,4) f by simp_all
  note one = settleOne_pending [OF s1(1) Cons.prems(2) refl Cons.prems(4) ih(1) Cons.prems(6)]
  have "gives_back lib env now k c s s' ?h = gives_back lib env now k c s s1 ?h"
    using settleEach_untouched [OF s1(2) new] by (simp add: gives_back_def split: option.split)
  moreover have same: "gives_back lib env now k c s1 s' g = gives_back lib env now k c s s' g" if "g \<noteq> ?h" for g
    using f that by (simp add: gives_back_def)
  have "?B s1 ms = ?B s ms"
  proof (rule Collect_cong)
    fix g
    show "(g \<in> if_hash ` set ms \<and> gives_back lib env now k c s1 s' g) = (g \<in> if_hash ` set ms \<and> gives_back lib env now k c s s' g)"
      using new same [of g] by (cases "g = ?h") simp_all
  qed
  moreover have "?B s (m # ms) = (if gives_back lib env now k c s s' ?h then insert ?h (?B s ms) else ?B s ms)" by auto
  moreover have "card (insert ?h (?B s ms)) = Suc (card (?B s ms))" using new by simp
  ultimately have sum: "int (card (?B s (m # ms))) = (if gives_back lib env now k c s s1 ?h then 1 else 0) + int (card (?B s1 ms))"
    by simp
  have "max 0 (max 0 (p - i) - j) = max 0 (p - (i + j))" if "0 \<le> j" for p i j :: int using that by (simp add: max_def)
  with one ih show ?case unfolding sum by simp
qed

lemma inFlight_hashes: "distinct order \<Longrightarrow> distinct (map if_hash (inFlight order s))"
proof (induction order)
  case (Cons h hs)
  have hash: "if_hash m = h" if "Option.bind (metaTx s h) (inFlight_entry h) = Some m" for h m
    using that by (auto simp: inFlight_entry_def bind_eq_Some_conv split: if_splits)
  have step: "inFlight (h # hs) s = (case Option.bind (metaTx s h) (inFlight_entry h) of None \<Rightarrow> [] | Some m \<Rightarrow> [m]) @ inFlight hs s"
    by (simp add: inFlight_def List.map_filter_def split: option.split)
  have "if_hash ` set (inFlight hs s) \<subseteq> set hs"
    using hash by (auto simp: inFlight_def List.map_filter_def)
  with Cons hash show ?case unfolding step by (auto split: option.split)
qed (simp add: inFlight_def List.map_filter_def)

text \<open>The places of a chain that a whole pass gives back are those of the metatx it closed on it.\<close>

lemma SettleInFlight_pending:
  assumes "SettleInFlight lib env now order s = Returns s'" "reorderEnabled s" "service_wf s"
    "distinct order" "set order = dom (metaTx s)" "senders s' key = Some c" "key \<noteq> []"
  shows "senders s key = Some c \<and> pending (chain_heap s' c) =
     max 0 (pending (chain_heap s c) - int (card {h. gives_back lib env now key c s s' h}))"
proof -
  have pass: "rc_Connect (pass_env env) = None" "pass_env (pass_env env) = pass_env env" by (simp_all add: pass_env_def)
  have "gives_back lib (pass_env env) now key c s s' h = gives_back lib env now key c s s' h" for h
    by (simp add: gives_back_def refused_by_hub_def pass(2) split: option.split)
  moreover have "h \<in> if_hash ` set (inFlight order s)" if "gives_back lib env now key c s s' h" for h
    using inFlight_covers [of s h order] that assms(5) by (auto simp: gives_back_def in_flight_at_def split: option.splits)
  ultimately have "{h \<in> if_hash ` set (inFlight order s). gives_back lib (pass_env env) now key c s s' h} =
      {h. gives_back lib env now key c s s' h}" by auto
  with settleEach_pending [OF SettleInFlight_each [OF assms(1,2)] pass(1) inFlight_hashes [OF assms(4)] assms(3,6,7)]
  show ?thesis by simp
qed

text \<open>
  C27: what a pass of the watcher closes, it gives back. After a pass that returned, a metatx is still in
  flight only if it was before, the node had no receipt for it (or could not be reached) and its
  deadline has not passed. And on every chain that was not forgotten meanwhile, the count of metatx in
  flight went down by exactly the number of those on it that the pass closed, leaving out those the
  hub refused (whose chain is forgotten as a whole) and those that were remembered for more than ten
  minutes, which the pass deletes before it closes them, so that their places are never given back.
\<close>

theorem SettleInFlight_leaves_only_young_unmined:
  assumes "SettleInFlight lib env now order s = Returns s'" "reorderEnabled s" "service_wf s"
    "distinct order" "set order = dom (metaTx s)"
  shows "(\<forall>h e. metaTx s' h = Some e \<longrightarrow> \<not> settled e \<longrightarrow> entry_chain e \<noteq> None \<longrightarrow>
      metaTx s h = Some e \<and> now - rememberedAt e < receiptTimeout s \<and>
      (rc_Connect env \<noteq> None \<or> (\<forall>r. rc_GetTransactionReceipt env h \<noteq> Inr (Some r)))) \<and>
    (\<forall>key c. key \<noteq> [] \<longrightarrow> senders s' key = Some c \<longrightarrow>
      senders s key = Some c \<and> pending (chain_heap s' c) =
        max 0 (pending (chain_heap s c) - int (card {h. gives_back lib env now key c s s' h})))"
proof (intro conjI allI impI)
  note each = SettleInFlight_each [OF assms(1,2)]
  fix h e assume h: "metaTx s' h = Some e" "\<not> settled e" "entry_chain e \<noteq> None"
  then have fl: "in_flight_at s' h" by (simp add: in_flight_at_def)
  with settleEach_facts [OF each, of h] have same: "metaTx s' h = metaTx s h" by simp
  with fl have "in_flight_at s h" by (simp add: in_flight_at_def)
  from inFlight_covers [OF this assms(5)] same h obtain m where
      "m \<in> set (inFlight order s)" "if_hash m = h" "sentAt m = rememberedAt e" by auto
  with settleEach_facts [OF each, of h] fl same h show "metaTx s h = Some e" "now - rememberedAt e < receiptTimeout s"
      "rc_Connect env \<noteq> None \<or> (\<forall>r. rc_GetTransactionReceipt env h \<noteq> Inr (Some r))"
    by (auto simp: pass_env_def split: if_splits)
qed (use SettleInFlight_pending [OF assms] in blast)+

text \<open>
  A place that is never given back. When every metatx in flight on a chain has been remembered for more
  than ten minutes, a pass forgets them all and the chain still counts them, although nothing is left
  that could release them.
\<close>

lemma stale_metatx_keep_their_place:
  assumes "SettleInFlight lib env now order s = Returns s'" "reorderEnabled s" "service_wf s"
    "distinct order" "set order = dom (metaTx s)" "senders s' key = Some c" "key \<noteq> []"
    and old: "\<And>h e. metaTx s h = Some e \<Longrightarrow> entry_chain e = Some c \<Longrightarrow> now - rememberedAt e > metaTxMemoryTTL"
    and short: "receiptTimeout s \<le> metaTxMemoryTTL"
  shows "pending (chain_heap s' c) = max 0 (pending (chain_heap s c)) \<and>
    (\<forall>h e. metaTx s' h = Some e \<longrightarrow> \<not> settled e \<longrightarrow> entry_chain e \<noteq> Some c)"
proof -
  have "{h. gives_back lib env now key c s s' h} = {}" using old by (force simp: gives_back_def split: option.splits)
  with SettleInFlight_pending [OF assms(1-7)] have "pending (chain_heap s' c) = max 0 (pending (chain_heap s c))" by simp
  moreover have "entry_chain e \<noteq> Some c" if e: "metaTx s' h = Some e" "\<not> settled e" for h e
  proof
    assume chain: "entry_chain e = Some c"
    with e have fl: "in_flight_at s' h" by (simp add: in_flight_at_def)
    note each = settleEach_facts [OF SettleInFlight_each [OF assms(1,2)], of h]
    with fl have same: "metaTx s' h = metaTx s h" by simp
    with fl have "in_flight_at s h" by (simp add: in_flight_at_def)
    from inFlight_covers [OF this assms(5)] obtain m where
        "m \<in> set (inFlight order s)" "if_hash m = h" "sentAt m = rememberedAt e" using same e by auto
    with each fl have "now - rememberedAt e < receiptTimeout s" by auto
    with old [of h e] same e chain short show False by simp
  qed
  ultimately show ?thesis by blast
qed

text \<open>The watcher keeps the invariant of the tracker.\<close>

lemma SettleInFlight_wf:
  assumes "SettleInFlight lib env now order s = Returns s'" "service_wf s"
  shows "service_wf s'"
proof (cases "reorderEnabled s")
  case True
  from SettleInFlight_each [OF assms(1) True] settleEach_facts assms(2) show ?thesis by blast
next
  case False
  with assms show ?thesis by (simp add: SettleInFlight_def)
qed

definition sample_in_flight :: RelaySignerService where
  "sample_in_flight = sample_service\<lparr>metaTx := [7 \<mapsto> sample_entry], senders := [''u'' \<mapsto> 0],
     chain_heap := (\<lambda>_. zero_entry)(0 := zero_entry\<lparr>pending := 2\<rparr>), fresh := 1\<rparr>"

lemma sample_in_flight_wf: "service_wf sample_in_flight"
  using sample_service_wf
  by (auto simp: sample_in_flight_def sample_defs service_wf_def registry_wf_def wake_wf_def chains_wf_def held_list_def
      zero_held_def zero_entry_def)

definition unreachable :: receipt_env where
  "unreachable = \<lparr>rc_Connect = Some (errors_New ''down'' (- 32100)), rc_GetTransactionReceipt = (\<lambda>_. Inr None)\<rparr>"

text \<open>The watcher a second, and a minute, after a metatx was sent on chain 0 of user u.\<close>

theorem SettleInFlight_leaves_only_young_unmined_witness:
  "(\<exists>s' e. SettleInFlight sample_lib unreachable second [7] sample_in_flight = Returns s' \<and>
      metaTx s' 7 = Some e \<and> second - rememberedAt e < receiptTimeout sample_in_flight) \<and>
   (\<exists>s'. SettleInFlight sample_lib unreachable minute [7] sample_in_flight = Returns s' \<and>
      senders s' ''u'' = Some 0 \<and> pending (chain_heap sample_in_flight 0) = 2 \<and> pending (chain_heap s' 0) = 1)"
proof
  let ?m = "\<lparr>if_hash = 7, sentAt = 0, if_senderKey = ''u'', if_chain = 0\<rparr>"
  have en: "reorderEnabled sample_in_flight"
    by (simp add: reorderEnabled_def sample_in_flight_def sample_defs)
  have entry: "metaTx sample_in_flight 7 = Some sample_entry" by (simp add: sample_in_flight_def)
  have to: "receiptTimeout sample_in_flight = minute"
    by (simp add: receiptTimeout_def sample_in_flight_def sample_defs durations go_int64_def)
  have recall: "snd (recallMetaTx now Background 7 sample_in_flight) = sample_in_flight" if "now \<le> minute" for now
    using entry that by (simp add: recallMetaTx_def sample_entry_def metaTxMemoryTTL_def durations)
  have fl: "inFlight [7] sample_in_flight = [?m]"
    using entry by (simp add: inFlight_def List.map_filter_def inFlight_entry_def sample_entry_def)
  have pass: "SettleInFlight sample_lib unreachable now [7] sample_in_flight = Returns (expireOne now ?m sample_in_flight)"
    if "now \<le> minute" for now
    using en fl recall [OF that] by (simp add: SettleInFlight_def unreachable_def expireInFlight_def)
  have dom: "set [7] = dom (metaTx sample_in_flight)" "distinct [7 :: Hash]" by (simp_all add: sample_in_flight_def)
  note facts = SettleInFlight_leaves_only_young_unmined [OF pass en sample_in_flight_wf dom(2,1)]
  have "second \<le> minute" by (simp add: durations)
  from facts [OF this] pass [OF this]
  show "\<exists>s' e. SettleInFlight sample_lib unreachable second [7] sample_in_flight = Returns s' \<and>
      metaTx s' 7 = Some e \<and> second - rememberedAt e < receiptTimeout sample_in_flight"
    using entry to by (auto simp: expireOne_def sample_entry_def durations)
  let ?s' = "expireOne minute ?m sample_in_flight"
  have s': "senders ?s' ''u'' = Some 0" "metaTx ?s' 7 \<noteq> Some sample_entry"
    using to by (simp_all add: expireOne_def claimSettled_def releaseSent_def take_chain_def releaseChain_def upd_chain_def
        sample_in_flight_def sample_entry_def Let_def)
  have "{h. gives_back sample_lib unreachable minute ''u'' 0 sample_in_flight ?s' h} = {7}"
    using s'(2) by (auto simp: gives_back_def refused_by_hub_def pass_env_def unreachable_def sample_in_flight_def sample_entry_def
        metaTxMemoryTTL_def durations split: if_splits)
  moreover have "pending (chain_heap sample_in_flight 0) = 2" by (simp add: sample_in_flight_def)
  ultimately show "\<exists>s'. SettleInFlight sample_lib unreachable minute [7] sample_in_flight = Returns s' \<and>
      senders s' ''u'' = Some 0 \<and> pending (chain_heap sample_in_flight 0) = 2 \<and> pending (chain_heap s' 0) = 1"
    using conjunct2 [OF facts [OF order_refl], rule_format, of "''u''" 0] pass [OF order_refl] s'(1) by simp
qed

section \<open>The backoff\<close>

text \<open>The wait before the next attempt after \<open>n\<close> failed ones in a row.\<close>

fun backoff_after :: "nat \<Rightarrow> duration" where
  "backoff_after 0 = initialBackoff"
| "backoff_after (Suc n) = nextBackoff (backoff_after n) maxBackoff"

text \<open>
  The reconnection of the block subscription doubles its wait from one second and stays at thirty,
  however many attempts fail in a row; the duration never overflows.
\<close>

theorem backoff_doubles_to_the_cap: "backoff_after n = min (2 ^ n * second) maxBackoff"
proof (induction n)
  case 0
  then show ?case by (simp add: initialBackoff_def maxBackoff_def durations)
next
  case (Suc n)
  have pos: "0 \<le> backoff_after n" "backoff_after n \<le> maxBackoff"
    unfolding Suc by (simp_all add: maxBackoff_def durations)
  then have "go_int64 (backoff_after n * 2) = backoff_after n * 2"
    by (intro go_int64_id) (simp_all add: maxBackoff_def durations)
  moreover have "min (min (2 ^ n * second) maxBackoff * 2) maxBackoff = min (2 ^ Suc n * second) maxBackoff"
    by (simp add: maxBackoff_def durations min_def)
  moreover have "0 < maxBackoff" by (simp add: maxBackoff_def durations)
  ultimately show ?case using Suc by (simp add: nextBackoff_def Let_def min_def)
qed

end
