(* ===== verification/Send.thy ===== *)
theory Send
  imports Turn Watcher
begin

text \<open>
  \<open>sendReordered\<close> (\<open>service/reorder.go\<close>), \<open>reserveGasAndSend\<close> (\<open>service/prepare.go\<close>) and
  \<open>sendPrepared\<close> (\<open>service/relaySignerService.go\<close>) as they run in many goroutines at once. Each
  request is a thread whose program counter names its next critical section; the system interleaves
  the steps of all threads with what the rest of the service does to the shared state: the watcher
  and the readers of receipts, the timers, and the requests for nonces.
\<close>

section \<open>The gas of a block\<close>

definition increment :: "uint64 \<Rightarrow> uint64 \<Rightarrow> uint64" where
  "increment gasLimit gas = gas + gasLimit"

definition decrement :: "uint64 \<Rightarrow> uint64" where
  "decrement gas = 0"

text \<open>
  \<open>VerifyGasLimit\<close>: the connection and the limit the hub assigned to this node are what the node
  answers; the new value of the global \<open>GAS_LIMIT\<close> is the second component.
\<close>

record gas_env =
  gas_Connect :: "go_error option"
  GetNodeGasLimit :: "go_error + uint64"

definition VerifyGasLimit :: "gas_env \<Rightarrow> uint64 \<Rightarrow> uint64 \<Rightarrow> (go_error + bool) \<times> uint64" where
  "VerifyGasLimit env gasLimit gas =
     (case gas_Connect env of
        Some e \<Rightarrow> (Inl e, gas)
      | None \<Rightarrow>
          (case GetNodeGasLimit env of
             Inl e \<Rightarrow> (Inl e, gas)
           | Inr current \<Rightarrow>
               (let used = increment gasLimit gas in (Inr (\<not> used > current), used))))"

section \<open>Reserving gas and broadcasting\<close>

text \<open>The first half of \<open>reserveGasAndSend\<close>, under the lock of the send path: is there gas left in the block?\<close>

definition gas_exceeded :: go_error where
  "gas_exceeded = errors_New ''transaction gas limit exceeds block gas limit'' (- 32000)"

definition reserveGas :: "gas_env \<Rightarrow> PreparedMetaTx \<Rightarrow> uint64 \<Rightarrow> Rejection option \<times> uint64" where
  "reserveGas env p gas =
     (case VerifyGasLimit env (MetaTxGasLimit p) gas of
        (Inl e, g) \<Rightarrow> (Some (Reject e CodeSendFailed), g)
      | (Inr enoughGas, g) \<Rightarrow>
          (if enoughGas then None else Some (Reject gas_exceeded CodeRelayError), g))"

text \<open>
  The part of \<open>sendPrepared\<close> up to the broadcast. Connecting, the signing options and the hub
  contract are those of the Ethereum client and of the generated binding; the transaction they answer
  with has a hash and the nonce of the node's own account.
\<close>

record wrapping_tx =
  tx_Hash :: Hash
  tx_Nonce :: uint64

record broadcast_env =
  send_Connect :: "go_error option"
  HexToECDSA :: "go_error option"
  ConfigTransaction :: "uint64 \<Rightarrow> go_error option"
  SendMetatransaction :: "Address option \<Rightarrow> bytes \<Rightarrow> byte \<Rightarrow> bytes \<Rightarrow> bytes \<Rightarrow> go_error + wrapping_tx"

definition broadcast :: "broadcast_env \<Rightarrow> PreparedMetaTx \<Rightarrow> go_error + wrapping_tx" where
  "broadcast env p =
     (case send_Connect env of
        Some e \<Rightarrow> Inl e
      | None \<Rightarrow>
          (case HexToECDSA env of
             Some e \<Rightarrow> Inl e
           | None \<Rightarrow>
               (case ConfigTransaction env (MetaTxGasLimit p) of
                  Some e \<Rightarrow> Inl e
                | None \<Rightarrow> SendMetatransaction env (To p) (SigningData p) (V p) (R p) (S p))))"

text \<open>The fields of the event \<open>relay.sent\<close>; the count in flight has no value with reordering off.\<close>

definition sent_fields :: "PreparedMetaTx \<Rightarrow> string \<Rightarrow> wrapping_tx \<Rightarrow> int option \<Rightarrow> fields" where
  "sent_fields p hex tx pendingForUser =
     [(''transactionHash'', DText hex), (''hubNonce'', DUint (Nonce p)), (''writerNodeNonce'', DUint (tx_Nonce tx)),
      (''metaTxGasLimit'', DUint (MetaTxGasLimit p)), (''simulated'', DNull), (''simulatedErrorCodeName'', DNull),
      (''pendingForUser'', case pendingForUser of None \<Rightarrow> DNull | Some n \<Rightarrow> DInt n)]"

text \<open>\<open>sendPrepared\<close> and \<open>reserveGasAndSend\<close> as one goroutine runs them; \<open>hex\<close> is \<open>Hash.Hex\<close>.\<close>

definition sendPrepared ::
    "time \<Rightarrow> Hash list \<Rightarrow> (Hash \<Rightarrow> string) \<Rightarrow> broadcast_env \<Rightarrow> Context \<Rightarrow> PreparedMetaTx \<Rightarrow> RelaySignerService \<Rightarrow>
       (go_error + Hash \<times> fields) \<times> RelaySignerService" where
  "sendPrepared now order hex env ctx p s =
     (case broadcast env p of
        Inl e \<Rightarrow> (Inl e, s)
      | Inr tx \<Rightarrow>
          (case noteSent now p s of
             ((chain, pendingForUser), s1) \<Rightarrow>
               (Inr (tx_Hash tx, sent_fields p (hex (tx_Hash tx)) tx pendingForUser),
                rememberMetaTx now order ctx (tx_Hash tx) (senderKey (SenderKey p)) chain s1)))"

definition reserveGasAndSend ::
    "time \<Rightarrow> Hash list \<Rightarrow> (Hash \<Rightarrow> string) \<Rightarrow> gas_env \<Rightarrow> broadcast_env \<Rightarrow> Context \<Rightarrow> PreparedMetaTx \<Rightarrow>
       RelaySignerService \<times> uint64 \<Rightarrow> (relay_error + Hash \<times> fields) \<times> RelaySignerService \<times> uint64" where
  "reserveGasAndSend now order hex genv env ctx p sg =
     (case sg of
        (s, gas) \<Rightarrow>
          (case reserveGas genv p gas of
             (Some r, g) \<Rightarrow> (Inl (Rejected r), s, g)
           | (None, g) \<Rightarrow>
               (case sendPrepared now order hex env ctx p s of
                  (Inl e, s1) \<Rightarrow> (Inl (Rejected (Reject e CodeSendFailed)), s1, g)
                | (Inr h, s1) \<Rightarrow> (Inr h, s1, g))))"

section \<open>One request\<close>

type_synonym send_result = "relay_error + Hash"

datatype send_pc =
    AtGate
  | AtTurn turn
  | AtEnter
  | AtLock ref
  | AtValidate ref
  | AtRelayLock ref
  | AtGas ref
  | AtBroadcast ref
  | AtNote ref Hash
  | AtRemember ref Hash "ref option"
  | AtRelayUnlock ref send_result
  | AtForget ref send_result
  | AtUnlock ref send_result
  | AtLeave ref send_result
  | AtDone send_result

record thread =
  th_tx :: PreparedMetaTx
  th_ctx :: Context
  th_pc :: send_pc

definition th_key :: "thread \<Rightarrow> string" where
  "th_key th = senderKey (SenderKey (th_tx th))"

text \<open>What the step of a thread observes: clock, node, select case, map order, gas limit, broadcast.\<close>

record send_input = turn_input +
  in_order :: "Hash list"
  in_gas :: gas_env
  in_send :: broadcast_env

text \<open>
  The shared state: the service, the global lock of the send path, the gas used in this block, and
  the history of what was noted as sent (chain and nonce, oldest first), which the code does not keep.
\<close>

record sys =
  svc :: RelaySignerService
  relay_holder :: "nat option"
  gas_used :: uint64
  threads :: "nat \<rightharpoonup> thread"
  sent :: "(ref \<times> uint64) list"

definition rejected :: "go_error \<Rightarrow> string \<Rightarrow> send_result" where
  "rejected e cd = Inl (Rejected (Reject e cd))"

definition goto :: "nat \<Rightarrow> thread \<Rightarrow> send_pc \<Rightarrow> sys \<Rightarrow> sys" where
  "goto pid th pc \<sigma> = \<sigma>\<lparr>threads := (threads \<sigma>)(pid \<mapsto> th\<lparr>th_pc := pc\<rparr>)\<rparr>"

definition send_step :: "send_input \<Rightarrow> nat \<Rightarrow> thread \<Rightarrow> sys \<Rightarrow> sys option" where
  "send_step i pid th \<sigma> =
     (let p = th_tx th; key = th_key th; s = svc \<sigma>; now = in_now i in
      case th_pc th of
        AtGate \<Rightarrow>
          (case makeRoomFor now key (Nonce p) s of
             ((inflight, admitted), s1) \<Rightarrow>
               if admitted then Some (goto pid th (AtTurn (awaitTurn_init now s1)) (\<sigma>\<lparr>svc := s1\<rparr>))
               else Some (goto pid th (AtDone (Inl (Rejected (tooManyInflight inflight (maxInflightPerUser s1)))))
                            (\<sigma>\<lparr>svc := s1\<rparr>)))
      | AtTurn t \<Rightarrow>
          (case turn_pc t of
             TurnDone TurnOver \<Rightarrow> Some (goto pid th AtEnter \<sigma>)
           | TurnDone (TurnRejected r) \<Rightarrow> Some (goto pid th (AtDone (Inl (Rejected r))) \<sigma>)
           | _ \<Rightarrow>
               (case turn_step (turn_input.truncate i) p t s of
                  None \<Rightarrow> None
                | Some (t1, s1) \<Rightarrow> Some (goto pid th (AtTurn t1) (\<sigma>\<lparr>svc := s1\<rparr>))))
      | AtEnter \<Rightarrow>
          (case lockUser_enter key s of (l, s1) \<Rightarrow> Some (goto pid th (AtLock l) (\<sigma>\<lparr>svc := s1\<rparr>)))
      | AtLock l \<Rightarrow>
          map_option (\<lambda>s1. goto pid th (AtValidate l) (\<sigma>\<lparr>svc := s1\<rparr>)) (lockUser_acquire pid l s)
      | AtValidate l \<Rightarrow>
          (case expectedNonce now (in_env i) (SenderKey p) s of
             (Inl e, s1) \<Rightarrow> Some (goto pid th (AtUnlock l (rejected e CodeRelayError)) (\<sigma>\<lparr>svc := s1\<rparr>))
           | (Inr expected, s1) \<Rightarrow>
               if Nonce p \<noteq> expected
               then (case pendingOf now (SenderKey p) s1 of
                       (pend, s2) \<Rightarrow>
                         Some (goto pid th (AtUnlock l (Inl (Rejected (badNonce expected (Nonce p) pend))))
                                 (\<sigma>\<lparr>svc := s2\<rparr>)))
               else Some (goto pid th (AtRelayLock l) (\<sigma>\<lparr>svc := s1\<rparr>)))
      | AtRelayLock l \<Rightarrow>
          if relay_holder \<sigma> = None then Some (goto pid th (AtGas l) (\<sigma>\<lparr>relay_holder := Some pid\<rparr>)) else None
      | AtGas l \<Rightarrow>
          (case reserveGas (in_gas i) p (gas_used \<sigma>) of
             (Some r, g) \<Rightarrow> Some (goto pid th (AtRelayUnlock l (Inl (Rejected r))) (\<sigma>\<lparr>gas_used := g\<rparr>))
           | (None, g) \<Rightarrow> Some (goto pid th (AtBroadcast l) (\<sigma>\<lparr>gas_used := g\<rparr>)))
      | AtBroadcast l \<Rightarrow>
          (case broadcast (in_send i) p of
             Inl e \<Rightarrow> Some (goto pid th (AtRelayUnlock l (rejected e CodeSendFailed)) \<sigma>)
           | Inr tx \<Rightarrow> Some (goto pid th (AtNote l (tx_Hash tx)) \<sigma>))
      | AtNote l h \<Rightarrow>
          (case noteSent now p s of
             ((chain, _), s1) \<Rightarrow>
               Some (goto pid th (AtRemember l h chain)
                       (\<sigma>\<lparr>svc := s1,
                          sent := sent \<sigma> @ (case chain of Some c \<Rightarrow> [(c, Nonce p)] | None \<Rightarrow> [])\<rparr>)))
      | AtRemember l h chain \<Rightarrow>
          Some (goto pid th (AtRelayUnlock l (Inr h))
                  (\<sigma>\<lparr>svc := rememberMetaTx now (in_order i) (th_ctx th) h key chain s\<rparr>))
      | AtRelayUnlock l r \<Rightarrow>
          Some (goto pid th (case r of Inl _ \<Rightarrow> AtForget l r | Inr _ \<Rightarrow> AtUnlock l r) (\<sigma>\<lparr>relay_holder := None\<rparr>))
      | AtForget l r \<Rightarrow> Some (goto pid th (AtUnlock l r) (\<sigma>\<lparr>svc := forgetChain key s\<rparr>))
      | AtUnlock l r \<Rightarrow> Some (goto pid th (AtLeave l r) (\<sigma>\<lparr>svc := lockUser_unlock l s\<rparr>))
      | AtLeave l r \<Rightarrow> Some (goto pid th (AtDone r) (\<sigma>\<lparr>svc := lockUser_leave key l s\<rparr>))
      | AtDone r \<Rightarrow> None)"

section \<open>The system\<close>

text \<open>
  What the other parts of the service do to the shared state between two steps of the senders: the
  callbacks of the timers, whoever settles, releases, forgets or expires a metatx, whoever asks for a
  nonce (which may drop an expired chain), and the tickets. Releases and forgets may name any user
  and any chain, which covers every result that arrives late, twice or out of order.
\<close>

inductive service_op :: "RelaySignerService \<Rightarrow> RelaySignerService \<Rightarrow> bool" where
  op_release: "service_op s (releaseChain now key chain s)"
| op_forget: "service_op s (forgetChain key s)"
| op_timer_fires: "grace_fires now t s = Some s' \<Longrightarrow> service_op s s'"
| op_timer_runs: "grace_callback t s = Some s' \<Longrightarrow> service_op s s'"
| op_read: "service_op s (snd (chainLocked now key s))"
| op_claim: "service_op s (snd (claimSettled hash s))"
| op_take: "service_op s (snd (take_chain hash s))"
| op_recall: "service_op s (snd (recallMetaTx now ctx hash s))"
| op_close_ticket: "service_op s (closeTicket key t s)"
| op_new_ticket: "service_op s (snd (new_ticket key s))"
| op_open_ticket: "service_op s (s\<lparr>openTickets := (openTickets s)(key \<mapsto> t)\<rparr>)"

inductive sys_step :: "sys \<Rightarrow> sys \<Rightarrow> bool" where
  sys_request: "threads \<sigma> pid = None \<Longrightarrow>
     sys_step \<sigma> (\<sigma>\<lparr>threads := (threads \<sigma>)(pid \<mapsto> \<lparr>th_tx = p, th_ctx = ctx, th_pc = AtGate\<rparr>)\<rparr>)"
| sys_thread: "threads \<sigma> pid = Some th \<Longrightarrow> send_step i pid th \<sigma> = Some \<sigma>' \<Longrightarrow> sys_step \<sigma> \<sigma>'"
| sys_service: "service_op (svc \<sigma>) s' \<Longrightarrow> sys_step \<sigma> (\<sigma>\<lparr>svc := s'\<rparr>)"
| sys_block: "sys_step \<sigma> (\<sigma>\<lparr>gas_used := decrement (gas_used \<sigma>)\<rparr>)"

definition sys_init :: "Config \<Rightarrow> sys" where
  "sys_init cfg = \<lparr>svc = new_service (Some cfg), relay_holder = None, gas_used = 0, threads = Map.empty, sent = []\<rparr>"

inductive sys_reach :: "Config \<Rightarrow> sys \<Rightarrow> bool" for cfg where
  reach_init: "sys_reach cfg (sys_init cfg)"
| reach_step: "sys_reach cfg \<sigma> \<Longrightarrow> sys_step \<sigma> \<sigma>' \<Longrightarrow> sys_reach cfg \<sigma>'"

inductive_cases service_opE: "service_op s s'"
inductive_cases sys_stepE: "sys_step \<sigma> \<sigma>'"

section \<open>Steps that leave the locks and the nonces alone\<close>

text \<open>
  A quiet step keeps the invariant, touches no user lock, gives nobody a chain and moves no expected
  nonce; it may drop chains and allocate.
\<close>

definition quiet :: "RelaySignerService \<Rightarrow> RelaySignerService \<Rightarrow> bool" where
  "quiet s s' \<longleftrightarrow>
     (service_wf s \<longrightarrow> service_wf s') \<and> Cfg s' = Cfg s \<and>
     userLocks s' = userLocks s \<and> lock_heap s' = lock_heap s \<and> fresh s \<le> fresh s' \<and>
     (\<forall>k. senders s' k = None \<or> senders s' k = senders s k) \<and>
     (\<forall>c. next_nonce (chain_heap s' c) = next_nonce (chain_heap s c))"

lemma quiet_refl [simp]: "quiet s s"
  by (simp add: quiet_def)

lemma quiet_trans: "quiet s s1 \<Longrightarrow> quiet s1 s2 \<Longrightarrow> quiet s s2"
  unfolding quiet_def by (metis order_trans)

lemma quietI:
  assumes "service_wf s \<Longrightarrow> service_wf s'" "Cfg s' = Cfg s" "userLocks s' = userLocks s" "lock_heap s' = lock_heap s"
    "fresh s \<le> fresh s'" "\<And>k. senders s' k = None \<or> senders s' k = senders s k"
    "\<And>c. next_nonce (chain_heap s' c) = next_nonce (chain_heap s c)"
  shows "quiet s s'"
  using assms by (simp add: quiet_def)

lemma quiet_drop: "quiet s (dropLocked key c s)"
  by (rule quietI) auto

lemma quiet_chainLocked [simp]: "quiet s (snd (chainLocked now key s))"
  by (auto simp: chainLocked_def quiet_drop split: option.split)

lemma quiet_wakes: "quiet s (notifyTurnLocked key s)" "quiet s (wakeLocked h s)"
  by (rule quietI; simp add: notifyTurnLocked_wf wakeLocked_wf)+

lemma quiet_held: "quiet s (snd (hold key n s))" "quiet s (unhold key h s)" "quiet s (snd (waitTurnLocked h s))"
    "quiet s (stopWaitingLocked h s)"
  by (rule quietI; auto)+

lemma quiet_evict: "highestHeldLocked key s = Some h \<Longrightarrow> quiet s (evictHeldLocked key h n s)"
  by (rule quietI) (auto intro: evictHeldLocked_wf highestHeldLocked_in)

lemma quiet_makeRoomFor: "quiet s (snd (makeRoomFor now key n s))"
proof -
  let ?s1 = "snd (chainLocked now key s)"
  have "quiet ?s1 (evictHeldLocked key h i ?s1)" if "highestHeldLocked key s = Some h" for h i
    using that by (intro quiet_evict) simp
  then have "quiet s (evictHeldLocked key h i ?s1)" if "highestHeldLocked key s = Some h" for h i
    using that quiet_chainLocked quiet_trans by blast
  then show ?thesis by (auto simp: makeRoomFor_eq Let_def split: option.split)
qed

lemma quiet_expectedNonce: "quiet s (snd (expectedNonce now env sender s))"
  by (simp add: expectedNonce_eq)

lemma quiet_turn_step: "turn_step i p t s = Some (t', s') \<Longrightarrow> quiet s s'"
  using quiet_expectedNonce [of s "in_now i" "in_env i" "SenderKey p"] quiet_held(2,4)
    quiet_trans [OF quiet_held(4) quiet_chainLocked]
    quiet_held(1) [of s "senderKey (SenderKey p)" "Nonce p"] quiet_held(3) [of s "the (turn_entry t)"]
  by (cases "turn_pc t")
    (auto simp: turn_step_def Let_def surplusHeld_eq inflightLocked_eq turn_release_def
      split: prod.splits sum.splits option.splits if_splits select_case.splits)

lemma quiet_forget: "quiet s (forgetChain key s)"
  unfolding forgetChain_def
  by (cases "senders s key") (auto intro: quiet_wakes quiet_trans [OF quiet_drop quiet_wakes(1)])

lemma quiet_release: "quiet s (releaseChain now key chain s)"
proof (cases "\<exists>c. chain = Some c \<and> senders s key = Some c")
  case True
  then obtain c where c: "chain = Some c" "senders s key = Some c" by blast
  define s1 where "s1 = (if pending (chain_heap s c) > 0
      then upd_chain c (\<lambda>e. e\<lparr>pending := pending e - 1\<rparr>) s else s)"
  define s2 where "s2 = notifyTurnLocked key s1"
  have "quiet s s1" by (rule quietI) (auto simp: s1_def upd_chain_def intro: pending_decrement_wf [unfolded upd_chain_def])
  then have s2: "quiet s s2" unfolding s2_def using quiet_wakes quiet_trans by blast
  have timer: "quiet s2 (new_grace_timer at key c s2)" for at
    by (rule quietI) auto
  have "releaseChain now key chain s =
      (if pending (chain_heap s2 c) > 0 \<or> expiry (chain_heap s2 c) \<noteq> None then s2
       else if graceWindow s2 \<le> 0 then dropLocked key c s2
       else new_grace_timer (now + graceWindow s2) key c s2)"
    using c by (simp add: releaseChain_def Let_def s1_def s2_def)
  then show ?thesis using s2 quiet_trans [OF s2 quiet_drop] quiet_trans [OF s2 timer] by simp
next
  case False
  then have "releaseChain now key chain s = s" by (auto simp: releaseChain_def split: option.split)
  then show ?thesis by simp
qed

lemma quiet_metaTx: "quiet s (s\<lparr>metaTx := m\<rparr>)"
  by (rule quietI) (auto intro: wf_metaTx_update)

lemma quiet_timer: "quiet s (upd_timer t (\<lambda>tm. tm\<lparr>timer_state := x\<rparr>) s)"
  by (rule quietI) (use upd_timer_state_wf in \<open>auto simp: upd_timer_def\<close>)

lemma wf_tickets:
  assumes "service_wf s" "senders s' = senders s" "held s' = held s" "chain_heap s' = chain_heap s"
    "held_heap s' = held_heap s" "timer_heap s' = timer_heap s" "chan_closes s' = chan_closes s" "fresh s \<le> fresh s'"
  shows "service_wf s'"
  using assms(2-) by (intro service_wfI)
    (auto intro: registry_wf_frame [OF assms(1)] wake_wf_frame [OF assms(1)] chains_wf_frame [OF assms(1)])

lemma quiet_service_op: "service_op s s' \<Longrightarrow> quiet s s'"
proof (induction rule: service_op.induct)
  case (op_timer_runs t s s')
  let ?s1 = "upd_timer t (\<lambda>tm. tm\<lparr>timer_state := Ran\<rparr>) s"
  from op_timer_runs have "s' = ?s1 \<or> s' = dropLocked (timer_key (timer_heap s t)) (timer_chain (timer_heap s t)) ?s1"
    by (auto simp: grace_callback_def Let_def split: if_splits)
  with quiet_timer [of s t Ran] quiet_trans [OF quiet_timer quiet_drop] show ?case by metis
next
  case (op_new_ticket s key)
  then show ?case by (auto intro!: quietI elim!: wf_tickets simp: new_ticket_def)
next
  case (op_close_ticket s key t)
  then show ?case by (auto intro!: quietI elim!: wf_tickets)
next
  case (op_open_ticket s key t)
  then show ?case by (auto intro!: quietI elim!: wf_tickets)
qed (auto simp: quiet_release quiet_forget grace_fires_def quiet_timer claimSettled_def take_chain_def
      recallMetaTx_def quiet_metaTx split: timer_state.splits if_splits option.splits)

lemma quiet_remember: "quiet s (rememberMetaTx now order ctx hash key chain s)"
  by (auto simp: rememberMetaTx_def evictLocked_def Let_def quiet_metaTx split: option.split)

section \<open>Locks\<close>

definition lock_of :: "send_pc \<Rightarrow> ref option" where
  "lock_of pc =
     (case pc of
        AtLock l \<Rightarrow> Some l | AtValidate l \<Rightarrow> Some l | AtRelayLock l \<Rightarrow> Some l | AtGas l \<Rightarrow> Some l
      | AtBroadcast l \<Rightarrow> Some l | AtNote l _ \<Rightarrow> Some l | AtRemember l _ _ \<Rightarrow> Some l | AtRelayUnlock l _ \<Rightarrow> Some l
      | AtForget l _ \<Rightarrow> Some l | AtUnlock l _ \<Rightarrow> Some l | AtLeave l _ \<Rightarrow> Some l | _ \<Rightarrow> None)"

definition holds_lock :: "send_pc \<Rightarrow> bool" where
  "holds_lock pc = (lock_of pc \<noteq> None \<and> (\<forall>l. pc \<noteq> AtLock l) \<and> (\<forall>l r. pc \<noteq> AtLeave l r))"

definition in_relay :: "send_pc \<Rightarrow> bool" where
  "in_relay pc =
     (case pc of AtGas _ \<Rightarrow> True | AtBroadcast _ \<Rightarrow> True | AtNote _ _ \<Rightarrow> True | AtRemember _ _ _ \<Rightarrow> True
      | AtRelayUnlock _ _ \<Rightarrow> True | _ \<Rightarrow> False)"

definition validated :: "send_pc \<Rightarrow> bool" where
  "validated pc =
     (case pc of AtRelayLock _ \<Rightarrow> True | AtGas _ \<Rightarrow> True | AtBroadcast _ \<Rightarrow> True | AtNote _ _ \<Rightarrow> True | _ \<Rightarrow> False)"

lemmas pc_defs = lock_of_def holds_lock_def in_relay_def validated_def

lemma validated_holds: "validated pc \<Longrightarrow> holds_lock pc"
  by (cases pc) (auto simp: pc_defs)

lemma holds_lock_of: "holds_lock pc \<Longrightarrow> \<exists>l. lock_of pc = Some l"
  by (auto simp: holds_lock_def)

type_synonym threads = "nat \<rightharpoonup> thread"

definition registered :: "threads \<Rightarrow> ref \<Rightarrow> nat set" where
  "registered T l = {pid. \<exists>th. T pid = Some th \<and> lock_of (th_pc th) = Some l}"

text \<open>
  The locks: a thread that entered finds the lock of its user in the map, the count of a lock is the
  number of threads that entered and did not leave, no two users share a lock, and the holder of a
  lock is exactly the thread that is past acquiring it and before releasing it.
\<close>

definition locks_ok :: "threads \<Rightarrow> RelaySignerService \<Rightarrow> bool" where
  "locks_ok T s \<longleftrightarrow> finite (dom T) \<and>
     (\<forall>pid th l. T pid = Some th \<longrightarrow> lock_of (th_pc th) = Some l \<longrightarrow> userLocks s (th_key th) = Some l) \<and>
     (\<forall>k l. userLocks s k = Some l \<longrightarrow> l < fresh s \<and> users (lock_heap s l) = int (card (registered T l))) \<and>
     (\<forall>k k' l. userLocks s k = Some l \<longrightarrow> userLocks s k' = Some l \<longrightarrow> k = k') \<and>
     (\<forall>pid th l. T pid = Some th \<longrightarrow> lock_of (th_pc th) = Some l \<longrightarrow> holds_lock (th_pc th) \<longrightarrow>
        holder (lock_heap s l) = Some pid) \<and>
     (\<forall>k l pid. userLocks s k = Some l \<longrightarrow> holder (lock_heap s l) = Some pid \<longrightarrow>
        (\<exists>th. T pid = Some th \<and> lock_of (th_pc th) = Some l \<and> holds_lock (th_pc th)))"

lemma locks_okD:
  assumes "locks_ok T s"
  shows "finite (dom T)"
    and "T pid = Some th \<Longrightarrow> lock_of (th_pc th) = Some l \<Longrightarrow> userLocks s (th_key th) = Some l"
    and "userLocks s k = Some l \<Longrightarrow> l < fresh s"
    and "userLocks s k = Some l \<Longrightarrow> users (lock_heap s l) = int (card (registered T l))"
    and "userLocks s k = Some l \<Longrightarrow> userLocks s k' = Some l \<Longrightarrow> k = k'"
    and "T pid = Some th \<Longrightarrow> lock_of (th_pc th) = Some l \<Longrightarrow> holds_lock (th_pc th) \<Longrightarrow>
      holder (lock_heap s l) = Some pid"
    and "userLocks s k = Some l \<Longrightarrow> holder (lock_heap s l) = Some pid \<Longrightarrow>
      \<exists>th. T pid = Some th \<and> lock_of (th_pc th) = Some l \<and> holds_lock (th_pc th)"
  using assms unfolding locks_ok_def by blast+

lemma locks_okI:
  assumes "finite (dom T)"
    and "\<And>pid th l. T pid = Some th \<Longrightarrow> lock_of (th_pc th) = Some l \<Longrightarrow> userLocks s (th_key th) = Some l"
    and "\<And>k l. userLocks s k = Some l \<Longrightarrow> l < fresh s"
    and "\<And>k l. userLocks s k = Some l \<Longrightarrow> users (lock_heap s l) = int (card (registered T l))"
    and "\<And>k k' l. userLocks s k = Some l \<Longrightarrow> userLocks s k' = Some l \<Longrightarrow> k = k'"
    and "\<And>pid th l. T pid = Some th \<Longrightarrow> lock_of (th_pc th) = Some l \<Longrightarrow> holds_lock (th_pc th) \<Longrightarrow>
      holder (lock_heap s l) = Some pid"
    and "\<And>k l pid. userLocks s k = Some l \<Longrightarrow> holder (lock_heap s l) = Some pid \<Longrightarrow>
      \<exists>th. T pid = Some th \<and> lock_of (th_pc th) = Some l \<and> holds_lock (th_pc th)"
  shows "locks_ok T s"
  using assms unfolding locks_ok_def by blast

lemma th_key_pc [simp]: "th_key (th\<lparr>th_pc := pc\<rparr>) = th_key th"
  by (simp add: th_key_def)

lemma finite_registered: "finite (dom T) \<Longrightarrow> finite (registered T l)"
  by (rule finite_subset [of _ "dom T"]) (auto simp: registered_def)

lemma registered_move:
  "T pid = Some th \<Longrightarrow> registered (T(pid \<mapsto> th\<lparr>th_pc := pc\<rparr>)) l =
     (if lock_of pc = Some l then insert pid (registered T l) else registered T l - {pid})"
  by (auto simp: registered_def)

text \<open>Moving a thread without changing what it holds, while the service takes a quiet step.\<close>

lemma locks_ok_move:
  assumes "locks_ok T s" "T pid = Some th" "userLocks s' = userLocks s" "lock_heap s' = lock_heap s" "fresh s \<le> fresh s'"
    "lock_of pc = lock_of (th_pc th)" "holds_lock pc = holds_lock (th_pc th)"
  shows "locks_ok (T(pid \<mapsto> th\<lparr>th_pc := pc\<rparr>)) s'"
proof -
  have reg: "registered (T(pid \<mapsto> th\<lparr>th_pc := pc\<rparr>)) l = registered T l" for l
    using assms(2,6) by (auto simp: registered_def)
  show ?thesis
    by (rule locks_okI)
      (use assms(2-) in \<open>auto simp: reg locks_okD(1) [OF assms(1)] split: if_splits
        intro: order_less_le_trans dest: locks_okD(2-) [OF assms(1)]\<close>)
qed

lemma locks_ok_quiet:
  assumes "locks_ok T s" "userLocks s' = userLocks s" "lock_heap s' = lock_heap s" "fresh s \<le> fresh s'"
  shows "locks_ok T s'"
  by (rule locks_okI)
    (use assms(2-) in \<open>auto simp: locks_okD(1) [OF assms(1)] intro: order_less_le_trans
      dest: locks_okD(2-) [OF assms(1)]\<close>)

lemma locks_ok_new:
  assumes "locks_ok T s" "T pid = None" "lock_of (th_pc th) = None"
  shows "locks_ok (T(pid \<mapsto> th)) s"
proof -
  have reg: "registered (T(pid \<mapsto> th)) l = registered T l" for l
    using assms(2,3) by (auto simp: registered_def)
  show ?thesis
    by (rule locks_okI)
      (use assms(2-) in \<open>auto simp: reg holds_lock_def locks_okD(1) [OF assms(1)] split: if_splits
        dest: locks_okD(2-) [OF assms(1)]\<close>)
qed

lemma locks_holder_other:
  assumes "locks_ok T s" "userLocks s k = Some l" "holder (lock_heap s l) = Some p'"
    "T pid = Some th" "lock_of (th_pc th) \<noteq> Some l \<or> \<not> holds_lock (th_pc th)"
  shows "\<exists>th0. (T(pid \<mapsto> x)) p' = Some th0 \<and> lock_of (th_pc th0) = Some l \<and> holds_lock (th_pc th0)"
  using locks_okD(7) [OF assms(1-3)] assms(4,5) by (cases "p' = pid") auto

lemma locks_ok_enter:
  assumes ok: "locks_ok T s" and th: "T pid = Some th" "lock_of (th_pc th) = None"
    and enter: "lockUser_enter (th_key th) s = (l, s')"
  shows "locks_ok (T(pid \<mapsto> th\<lparr>th_pc := AtLock l\<rparr>)) s'"
proof -
  let ?T = "T(pid \<mapsto> th\<lparr>th_pc := AtLock l\<rparr>)"
  have notin: "pid \<notin> registered T l'" for l' using th by (simp add: registered_def)
  have reg: "registered ?T l' = (if l' = l then insert pid (registered T l) else registered T l')" for l'
    using registered_move [of T pid th "AtLock l" l'] th(1) notin by (auto simp: lock_of_def)
  have fin: "finite (dom ?T)" "finite (registered T l)"
    using locks_okD(1) [OF ok] finite_registered by simp_all
  have pc: "lock_of (AtLock l) = Some l" "\<not> holds_lock (AtLock l)" by (simp_all add: pc_defs)
  show ?thesis
  proof (cases "userLocks s (th_key th)")
    case None
    then have new: "l = fresh s" "userLocks s' = (userLocks s)(th_key th \<mapsto> l)" "fresh s' = Suc (fresh s)"
        "lock_heap s' = (lock_heap s)(l := zero_lock\<lparr>users := 1\<rparr>)"
      using enter by (auto simp: lockUser_enter_def upd_lock_def zero_lock_def)
    have unused: "userLocks s k \<noteq> Some l" for k using locks_okD(3) [OF ok] new(1) by blast
    then have empty: "registered T l = {}" using locks_okD(2) [OF ok] by (auto simp: registered_def)
    have other: "lock_of (th_pc th') \<noteq> Some l" if "T p' = Some th'" for p' th'
      using empty that by (auto simp: registered_def)
    have lt: "l' < fresh s'" if "userLocks s' k = Some l'" for k l'
      using that new(1-3) locks_okD(3) [OF ok] by (auto simp: less_Suc_eq split: if_splits)
    have key: "th_key th' \<noteq> th_key th" if "T p' = Some th'" "lock_of (th_pc th') = Some l'" for p' th' l'
      using locks_okD(2) [OF ok that] None by auto
    show ?thesis
    proof (rule locks_okI)
      fix k l' p'
      assume "userLocks s' k = Some l'" "holder (lock_heap s' l') = Some p'"
      then show "\<exists>th. ?T p' = Some th \<and> lock_of (th_pc th) = Some l' \<and> holds_lock (th_pc th)"
        using new(2,4) unused th
        by (intro locks_holder_other [OF ok _ _ th(1), of k]) (auto simp: zero_lock_def split: if_splits)
    qed (use new(2,4) unused empty other fin pc notin lt key in
        \<open>auto simp: reg zero_lock_def split: if_splits dest: locks_okD(2-) [OF ok]\<close>)
  next
    case (Some l0)
    then have old: "l = l0" "userLocks s' = userLocks s" "fresh s' = fresh s"
        "lock_heap s' = (lock_heap s)(l := (lock_heap s l)\<lparr>users := users (lock_heap s l) + 1\<rparr>)"
      using enter by (auto simp: lockUser_enter_def upd_lock_def)
    have card: "card (insert pid (registered T l)) = Suc (card (registered T l))"
      using fin notin by simp
    show ?thesis
      by (rule locks_okI)
        (use old(2-) Some [folded old(1)] fin pc card th in
          \<open>auto simp: reg split: if_splits dest: locks_okD(2-) [OF ok]\<close>)
  qed
qed

lemma locks_ok_acquire:
  assumes ok: "locks_ok T s" and th: "T pid = Some th" "th_pc th = AtLock l"
    and acq: "lockUser_acquire pid l s = Some s'"
  shows "locks_ok (T(pid \<mapsto> th\<lparr>th_pc := AtValidate l\<rparr>)) s'"
proof -
  let ?T = "T(pid \<mapsto> th\<lparr>th_pc := AtValidate l\<rparr>)"
  have reg: "registered ?T l' = registered T l'" for l' using th by (auto simp: registered_def lock_of_def)
  have free: "holder (lock_heap s l) = None" and s': "userLocks s' = userLocks s" "fresh s' = fresh s"
      "lock_heap s' = (lock_heap s)(l := (lock_heap s l)\<lparr>holder := Some pid\<rparr>)"
    using acq by (auto simp: lockUser_acquire_def upd_lock_def split: if_splits)
  have pc: "lock_of (AtValidate l) = Some l" "holds_lock (AtValidate l)" "lock_of (th_pc th) = Some l"
    using th by (simp_all add: pc_defs)
  have none: "\<not> holds_lock (th_pc th')" if "T p' = Some th'" "lock_of (th_pc th') = Some l" for p' th'
    using locks_okD(6) [OF ok that] free by auto
  have mine: "userLocks s (th_key th) = Some l" using locks_okD(2) [OF ok th(1) pc(3)] .
  show ?thesis
  proof (rule locks_okI)
    fix p' th' l'
    assume "?T p' = Some th'" "lock_of (th_pc th') = Some l'" "holds_lock (th_pc th')"
    then show "holder (lock_heap s' l') = Some p'"
      using none s'(3) pc by (auto split: if_splits dest: locks_okD(6) [OF ok])
  next
    fix k l' p'
    assume held: "userLocks s' k = Some l'" "holder (lock_heap s' l') = Some p'"
    show "\<exists>th. ?T p' = Some th \<and> lock_of (th_pc th) = Some l' \<and> holds_lock (th_pc th)"
    proof (cases "l' = l")
      case False
      with held s' pc(3) show ?thesis by (intro locks_holder_other [OF ok _ _ th(1), of k]) auto
    qed (use held s' pc in auto)
  qed (use s' th pc mine locks_okD(1) [OF ok] in \<open>auto simp: reg split: if_splits dest: locks_okD(2-) [OF ok]\<close>)
qed

lemma locks_ok_unlock:
  assumes ok: "locks_ok T s" and th: "T pid = Some th" "th_pc th = AtUnlock l r"
  shows "locks_ok (T(pid \<mapsto> th\<lparr>th_pc := AtLeave l r\<rparr>)) (lockUser_unlock l s)"
proof -
  let ?T = "T(pid \<mapsto> th\<lparr>th_pc := AtLeave l r\<rparr>)" and ?s = "lockUser_unlock l s"
  have reg: "registered ?T l' = registered T l'" for l' using th by (auto simp: registered_def lock_of_def)
  have s': "userLocks ?s = userLocks s" "fresh ?s = fresh s"
      "lock_heap ?s = (lock_heap s)(l := (lock_heap s l)\<lparr>holder := None\<rparr>)"
    by (auto simp: lockUser_unlock_def upd_lock_def)
  have pc: "lock_of (AtLeave l r) = Some l" "\<not> holds_lock (AtLeave l r)" "lock_of (th_pc th) = Some l" "holds_lock (th_pc th)"
    using th by (simp_all add: pc_defs)
  have mine: "userLocks s (th_key th) = Some l" "holder (lock_heap s l) = Some pid"
    using locks_okD(2) [OF ok th(1) pc(3)] locks_okD(6) [OF ok th(1) pc(3,4)] by simp_all
  have none: "p' = pid" if "T p' = Some th'" "lock_of (th_pc th') = Some l" "holds_lock (th_pc th')" for p' th'
    using locks_okD(6) [OF ok that] mine(2) by simp
  show ?thesis
  proof (rule locks_okI)
    fix p' th' l'
    assume "?T p' = Some th'" "lock_of (th_pc th') = Some l'" "holds_lock (th_pc th')"
    then show "holder (lock_heap ?s l') = Some p'"
      using none s'(3) pc by (auto split: if_splits dest: locks_okD(6) [OF ok])
  next
    fix k l' p'
    assume held: "userLocks ?s k = Some l'" "holder (lock_heap ?s l') = Some p'"
    show "\<exists>th. ?T p' = Some th \<and> lock_of (th_pc th) = Some l' \<and> holds_lock (th_pc th)"
    proof (cases "l' = l")
      case False
      with held s' pc(3) show ?thesis by (intro locks_holder_other [OF ok _ _ th(1), of k]) auto
    qed (use held s' pc in auto)
  qed (use s' th pc mine locks_okD(1) [OF ok] in \<open>auto simp: reg split: if_splits dest: locks_okD(2-) [OF ok]\<close>)
qed

text \<open>Leaving: what the lock and its users look like afterwards.\<close>

lemma leave_facts:
  assumes ok: "locks_ok T s" and th: "T pid = Some th" "th_pc th = AtLeave l r"
  shows "userLocks s (th_key th) = Some l" "pid \<in> registered T l" "finite (registered T l)"
    "registered (T(pid \<mapsto> th\<lparr>th_pc := AtDone r\<rparr>)) l' = registered T l' - {pid}"
    "l' \<noteq> l \<Longrightarrow> registered T l' - {pid} = registered T l'"
    "users (lock_heap s l) = int (card (registered T l))"
    "lock_heap (lockUser_leave k l s) = (lock_heap s)(l := (lock_heap s l)\<lparr>users := users (lock_heap s l) - 1\<rparr>)"
    "fresh (lockUser_leave k l s) = fresh s"
proof -
  have pc: "lock_of (AtDone r) = None" "lock_of (th_pc th) = Some l" using th by (simp_all add: pc_defs)
  show mine: "userLocks s (th_key th) = Some l" by (rule locks_okD(2) [OF ok th(1) pc(2)])
  show "registered (T(pid \<mapsto> th\<lparr>th_pc := AtDone r\<rparr>)) l' = registered T l' - {pid}"
    using registered_move [of T pid th "AtDone r" l'] th(1) pc(1) by simp
  show "users (lock_heap s l) = int (card (registered T l))" by (rule locks_okD(4) [OF ok mine])
  show "registered T l' - {pid} = registered T l'" if "l' \<noteq> l" using that th(1) pc(2) by (auto simp: registered_def)
qed (use finite_registered [OF locks_okD(1) [OF ok]] th in \<open>auto simp: registered_def pc_defs lockUser_leave_def upd_lock_def Let_def\<close>)

lemma locks_ok_leave_last:
  assumes ok: "locks_ok T s" and th: "T pid = Some th" "th_pc th = AtLeave l r" and last: "registered T l = {pid}"
  shows "locks_ok (T(pid \<mapsto> th\<lparr>th_pc := AtDone r\<rparr>)) (lockUser_leave (th_key th) l s)"
proof -
  let ?T = "T(pid \<mapsto> th\<lparr>th_pc := AtDone r\<rparr>)" and ?s = "lockUser_leave (th_key th) l s"
  note L = leave_facts [OF ok th]
  have pc: "lock_of (AtDone r) = None" "\<not> holds_lock (th_pc th)" using th by (simp_all add: pc_defs)
  have s': "userLocks ?s = (userLocks s)(th_key th := None)"
    using L(6) last by (simp add: lockUser_leave_def upd_lock_def Let_def)
  have kl: "userLocks s k' = Some l' \<and> l' \<noteq> l" if "userLocks ?s k' = Some l'" for k' l'
    using that s' locks_okD(5) [OF ok _ L(1)] by (auto split: if_splits)
  have other: "T p' = Some th' \<and> p' \<noteq> pid \<and> l' \<noteq> l" if "?T p' = Some th'" "lock_of (th_pc th') = Some l'" for p' th' l'
    using that pc(1) last by (auto simp: registered_def split: if_splits)
  show ?thesis
  proof (rule locks_okI)
    fix k' l' p'
    assume "userLocks ?s k' = Some l'" "holder (lock_heap ?s l') = Some p'"
    then show "\<exists>th. ?T p' = Some th \<and> lock_of (th_pc th) = Some l' \<and> holds_lock (th_pc th)"
      using kl L(7) pc(2) by (intro locks_holder_other [OF ok _ _ th(1), of k']) (auto split: if_splits)
  next
    fix k' l'
    assume "userLocks ?s k' = Some l'"
    from kl [OF this] show "l' < fresh ?s" "users (lock_heap ?s l') = int (card (registered ?T l'))"
      using locks_okD(3,4) [OF ok, of k'] L(4,5,7,8) by auto
  next
    fix p' th' l'
    assume in': "?T p' = Some th'" "lock_of (th_pc th') = Some l'"
    then have "userLocks s (th_key th') = Some l'" using other locks_okD(2) [OF ok] by blast
    then show "userLocks ?s (th_key th') = Some l'" using other [OF in'] L(1) s' by auto
  next
    fix p' th' l'
    assume in': "?T p' = Some th'" "lock_of (th_pc th') = Some l'" "holds_lock (th_pc th')"
    then have "holder (lock_heap s l') = Some p'" using other locks_okD(6) [OF ok] by blast
    then show "holder (lock_heap ?s l') = Some p'" using other [OF in'(1,2)] L(7) by simp
  next
    fix k1 k2 l'
    assume "userLocks ?s k1 = Some l'" "userLocks ?s k2 = Some l'"
    then show "k1 = k2" using kl locks_okD(5) [OF ok] by blast
  qed (use locks_okD(1) [OF ok] in simp)
qed

lemma locks_ok_leave_some:
  assumes ok: "locks_ok T s" and th: "T pid = Some th" "th_pc th = AtLeave l r" and more: "registered T l \<noteq> {pid}"
  shows "locks_ok (T(pid \<mapsto> th\<lparr>th_pc := AtDone r\<rparr>)) (lockUser_leave (th_key th) l s)"
proof -
  let ?T = "T(pid \<mapsto> th\<lparr>th_pc := AtDone r\<rparr>)" and ?s = "lockUser_leave (th_key th) l s"
  note L = leave_facts [OF ok th]
  have pc: "lock_of (AtDone r) = None" "\<not> holds_lock (AtDone r)" "lock_of (th_pc th) = Some l" "\<not> holds_lock (th_pc th)"
    using th by (simp_all add: pc_defs)
  have "card (registered T l) \<noteq> 1" using more L(2) by (metis card_1_singletonE empty_iff insertE)
  then have s': "userLocks ?s = userLocks s" using L(6) by (simp add: lockUser_leave_def upd_lock_def Let_def)
  have card: "int (card (registered T l - {pid})) = int (card (registered T l)) - 1"
    using L(2,3) card_gt_0_iff [of "registered T l"] by (auto simp: card_Diff_singleton)
  show ?thesis
  proof (rule locks_okI)
    fix k' l' p'
    assume "userLocks ?s k' = Some l'" "holder (lock_heap ?s l') = Some p'"
    then show "\<exists>th. ?T p' = Some th \<and> lock_of (th_pc th) = Some l' \<and> holds_lock (th_pc th)"
      using s' L(7) pc(4) by (intro locks_holder_other [OF ok _ _ th(1), of k']) (auto split: if_splits)
  qed (use s' L(1,5-) th pc card locks_okD(1) [OF ok] in \<open>auto simp: L(4) split: if_splits dest: locks_okD(2-) [OF ok]\<close>)
qed

lemma locks_ok_leave:
  assumes "locks_ok T s" "T pid = Some th" "th_pc th = AtLeave l r"
  shows "locks_ok (T(pid \<mapsto> th\<lparr>th_pc := AtDone r\<rparr>)) (lockUser_leave (th_key th) l s)"
  using locks_ok_leave_last [OF assms] locks_ok_leave_some [OF assms] by (cases "registered T l = {pid}")

section \<open>Nonces\<close>

text \<open>The history of a chain: every nonce sent on it is below the ones sent later, short of the wrap.\<close>

definition sent_ordered :: "(ref \<times> uint64) list \<Rightarrow> bool" where
  "sent_ordered L \<longleftrightarrow> sorted_wrt (\<lambda>x y. fst x = fst y \<longrightarrow> snd x = - 1 \<or> snd x < snd y) L"

text \<open>
  What is known of nonces: the history is ordered, every nonce sent on a chain is below what that
  chain expects, and while a thread is between validating its nonce and noting it as sent, the chain
  of its user, if there is one, still expects exactly that nonce.
\<close>

definition nonces_ok :: "threads \<Rightarrow> RelaySignerService \<Rightarrow> (ref \<times> uint64) list \<Rightarrow> bool" where
  "nonces_ok T s L \<longleftrightarrow> sent_ordered L \<and>
     (\<forall>(c, n)\<in>set L. c < fresh s \<and> (n = - 1 \<or> n < next_nonce (chain_heap s c))) \<and>
     (\<forall>pid th c. T pid = Some th \<longrightarrow> validated (th_pc th) \<longrightarrow> senders s (th_key th) = Some c \<longrightarrow>
        next_nonce (chain_heap s c) = Nonce (th_tx th))"

lemma nonces_okD:
  assumes "nonces_ok T s L"
  shows "sent_ordered L"
    and "(c, n) \<in> set L \<Longrightarrow> c < fresh s"
    and "(c, n) \<in> set L \<Longrightarrow> n = - 1 \<or> n < next_nonce (chain_heap s c)"
    and "T pid = Some th \<Longrightarrow> validated (th_pc th) \<Longrightarrow> senders s (th_key th) = Some c \<Longrightarrow>
      next_nonce (chain_heap s c) = Nonce (th_tx th)"
  using assms unfolding nonces_ok_def by fast+

lemma nonces_ok_quiet:
  assumes "nonces_ok T s L" "quiet s s'" "\<And>pid th. T' pid = Some th \<Longrightarrow> validated (th_pc th) \<Longrightarrow>
      (\<exists>th0. T pid = Some th0 \<and> validated (th_pc th0) \<and> th_tx th0 = th_tx th) \<or>
      (\<forall>c. senders s' (th_key th) = Some c \<longrightarrow> next_nonce (chain_heap s' c) = Nonce (th_tx th))"
  shows "nonces_ok T' s' L"
  unfolding nonces_ok_def
proof (intro conjI allI impI ballI)
  show "sent_ordered L" by (rule nonces_okD(1) [OF assms(1)])
  fix x
  assume "x \<in> set L"
  then show "case x of (c, n) \<Rightarrow> c < fresh s' \<and> (n = - 1 \<or> n < next_nonce (chain_heap s' c))"
    using assms(2) nonces_okD(2,3) [OF assms(1), of "fst x" "snd x"]
    by (auto simp: quiet_def split: prod.split intro: order_less_le_trans)
next
  fix pid th c
  assume v: "T' pid = Some th" "validated (th_pc th)" "senders s' (th_key th) = Some c"
  from assms(3) [OF v(1,2)] show "next_nonce (chain_heap s' c) = Nonce (th_tx th)"
  proof
    assume "\<exists>th0. T pid = Some th0 \<and> validated (th_pc th0) \<and> th_tx th0 = th_tx th"
    then obtain th0 where th0: "T pid = Some th0" "validated (th_pc th0)" "th_tx th0 = th_tx th" by blast
    have "senders s (th_key th0) = Some c"
      using v(3) th0(3) assms(2) unfolding quiet_def th_key_def by (metis option.distinct(1))
    from nonces_okD(4) [OF assms(1) th0(1,2) this] th0(3) assms(2) show ?thesis by (simp add: quiet_def)
  qed (use v(3) in simp)
qed

text \<open>What noting a sent metatx does to the chains: only the chain of that user, which moves past the nonce.\<close>

lemma noteSent_effect:
  assumes "service_wf s" "noteSent now p s = ((chain, pend), s')" "key = senderKey (SenderKey p)"
  obtains c where "senders s' = (senders s)(key \<mapsto> c)" "chain = None \<or> chain = Some c" "c < fresh s'"
    "userLocks s' = userLocks s" "lock_heap s' = lock_heap s" "fresh s \<le> fresh s'"
    "\<And>d. d \<noteq> c \<Longrightarrow> next_nonce (chain_heap s' d) = next_nonce (chain_heap s d)"
    "Nonce p \<noteq> - 1 \<Longrightarrow> Nonce p < next_nonce (chain_heap s' c)"
    "(senders s key = Some c \<and> next_nonce (chain_heap s c) \<le> next_nonce (chain_heap s' c)) \<or> fresh s \<le> c"
proof -
  define b where "b = reorderEnabled s"
  define s1 where "s1 = (if b then closeOpenTicket key s else s)"
  have s1: "senders s1 = senders s" "chain_heap s1 = chain_heap s" "fresh s1 = fresh s"
      "userLocks s1 = userLocks s" "lock_heap s1 = lock_heap s" "service_wf s1"
    using assms(1) closeOpenTicket_wf by (simp_all add: s1_def)
  obtain c s2 where res: "reserveLocked now key (Nonce p) b s1 = (c, s2)" by fastforce
  have s': "s' = (if b then notifyTurnLocked key s2 else s2)" "chain = None \<or> chain = Some c"
    using assms(2,3) res by (auto simp: noteSent_def b_def s1_def incrementTransactionCount_def Let_def split: if_splits)
  have snd2: "senders s2 = (senders s)(key \<mapsto> c)"
    using reserveLocked_senders [of now key "Nonce p" b s1] res s1(1) by simp
  have fr2: "userLocks s2 = userLocks s" "lock_heap s2 = lock_heap s"
    using reserveLocked_frame(3,10) [of now key "Nonce p" b s1] res s1 by simp_all
  have wf2: "service_wf s2" using reserveLocked_wf [OF s1(6), of now key "Nonce p" b] res by simp
  have "c < fresh s2" using service_wf_dests(8) [OF wf2, of key c] snd2 by simp
  moreover have "Nonce p < next_nonce (chain_heap s2 c)" if "Nonce p \<noteq> - 1"
    using uint64_succ_greater [OF that] reserveLocked_entry [OF res]
    by (auto split: option.split intro: order_less_le_trans simp: less_max_iff_disj)
  moreover have "fresh s \<le> fresh s2" "\<And>d. d \<noteq> c \<Longrightarrow> next_nonce (chain_heap s2 d) = next_nonce (chain_heap s d)"
      "(senders s key = Some c \<and> next_nonce (chain_heap s c) \<le> next_nonce (chain_heap s2 c)) \<or> fresh s \<le> c"
    using res s1(1-3) live_chain_sender [of now s1 key]
    by (cases "live_chain now s1 key";
        auto simp: reserveLocked_live reserveLocked_new new_chain_def chainLocked_live split: option.splits)+
  ultimately show thesis
    using snd2 fr2 s' by (intro that [of c]) auto
qed

section \<open>The invariant of the system\<close>

definition relay_ok :: "threads \<Rightarrow> nat option \<Rightarrow> bool" where
  "relay_ok T r \<longleftrightarrow> (\<forall>pid. r = Some pid \<longleftrightarrow> (\<exists>th. T pid = Some th \<and> in_relay (th_pc th)))"

definition turns_ok :: "threads \<Rightarrow> bool" where
  "turns_ok T \<longleftrightarrow> (\<forall>pid th t. T pid = Some th \<longrightarrow> th_pc th = AtTurn t \<longrightarrow>
     turn_pc_ok (th_tx th) t \<and> turn_log_ok (th_tx th) t)"

definition sys_inv :: "sys \<Rightarrow> bool" where
  "sys_inv \<sigma> \<longleftrightarrow> service_wf (svc \<sigma>) \<and> locks_ok (threads \<sigma>) (svc \<sigma>) \<and> relay_ok (threads \<sigma>) (relay_holder \<sigma>) \<and>
     turns_ok (threads \<sigma>) \<and> nonces_ok (threads \<sigma>) (svc \<sigma>) (sent \<sigma>)"

lemma sys_invD:
  assumes "sys_inv \<sigma>"
  shows "service_wf (svc \<sigma>)" "locks_ok (threads \<sigma>) (svc \<sigma>)" "relay_ok (threads \<sigma>) (relay_holder \<sigma>)"
    "turns_ok (threads \<sigma>)" "nonces_ok (threads \<sigma>) (svc \<sigma>) (sent \<sigma>)"
  using assms by (simp_all add: sys_inv_def)

lemma relay_ok_move:
  "relay_ok T r \<Longrightarrow> T pid = Some th \<Longrightarrow> in_relay pc = in_relay (th_pc th) \<Longrightarrow>
     relay_ok (T(pid \<mapsto> th\<lparr>th_pc := pc\<rparr>)) r"
  by (auto simp: relay_ok_def)

lemma turns_ok_move:
  "turns_ok T \<Longrightarrow> (\<And>t. pc = AtTurn t \<Longrightarrow> turn_pc_ok (th_tx th) t \<and> turn_log_ok (th_tx th) t) \<Longrightarrow>
     turns_ok (T(pid \<mapsto> th\<lparr>th_pc := pc\<rparr>))"
  by (auto simp: turns_ok_def)

text \<open>
  A thread moves without entering or leaving any lock, on a quiet step of the service. Only reaching
  the validated stretch has to be justified.
\<close>

lemma sys_inv_goto:
  assumes inv: "sys_inv \<sigma>" and th: "threads \<sigma> pid = Some th" and q: "quiet (svc \<sigma>) s'"
    and pc: "lock_of pc = lock_of (th_pc th)" "holds_lock pc = holds_lock (th_pc th)"
      "in_relay pc = in_relay (th_pc th)"
    and turn: "\<And>t. pc = AtTurn t \<Longrightarrow> turn_pc_ok (th_tx th) t \<and> turn_log_ok (th_tx th) t"
    and val: "validated pc \<Longrightarrow> \<not> validated (th_pc th) \<Longrightarrow>
      \<forall>c. senders s' (th_key th) = Some c \<longrightarrow> next_nonce (chain_heap s' c) = Nonce (th_tx th)"
  shows "sys_inv (goto pid th pc (\<sigma>\<lparr>svc := s', gas_used := g\<rparr>))"
proof -
  let ?T = "(threads \<sigma>)(pid \<mapsto> th\<lparr>th_pc := pc\<rparr>)"
  note D = sys_invD [OF inv]
  have "locks_ok ?T s'"
    using q by (intro locks_ok_move [OF D(2) th _ _ _ pc(1,2)]) (auto simp: quiet_def)
  moreover have "nonces_ok ?T s' (sent \<sigma>)"
  proof (rule nonces_ok_quiet [OF D(5) q])
    fix p' th'
    assume "?T p' = Some th'" "validated (th_pc th')"
    then show "(\<exists>th0. threads \<sigma> p' = Some th0 \<and> validated (th_pc th0) \<and> th_tx th0 = th_tx th') \<or>
        (\<forall>c. senders s' (th_key th') = Some c \<longrightarrow> next_nonce (chain_heap s' c) = Nonce (th_tx th'))"
      using th val by (cases "p' = pid"; cases "validated (th_pc th)") auto
  qed
  moreover have "service_wf s'" using q D(1) by (simp add: quiet_def)
  ultimately show ?thesis
    using relay_ok_move [OF D(3) th pc(3)] turns_ok_move [OF D(4) turn] by (simp add: sys_inv_def goto_def)
qed

lemma sys_inv_goto_same:
  assumes "sys_inv \<sigma>" "threads \<sigma> pid = Some th" "quiet (svc \<sigma>) s'"
    "lock_of pc = lock_of (th_pc th)" "holds_lock pc = holds_lock (th_pc th)" "in_relay pc = in_relay (th_pc th)"
    "\<And>t. pc = AtTurn t \<Longrightarrow> turn_pc_ok (th_tx th) t \<and> turn_log_ok (th_tx th) t"
    "validated pc \<Longrightarrow> \<not> validated (th_pc th) \<Longrightarrow>
      \<forall>c. senders s' (th_key th) = Some c \<longrightarrow> next_nonce (chain_heap s' c) = Nonce (th_tx th)"
  shows "sys_inv (goto pid th pc (\<sigma>\<lparr>svc := s'\<rparr>))"
  using sys_inv_goto [OF assms, of "gas_used \<sigma>"] by simp

lemma sys_inv_service: "sys_inv \<sigma> \<Longrightarrow> quiet (svc \<sigma>) s' \<Longrightarrow> sys_inv (\<sigma>\<lparr>svc := s'\<rparr>)"
  using locks_ok_quiet [of "threads \<sigma>" "svc \<sigma>" s'] nonces_ok_quiet [of "threads \<sigma>" "svc \<sigma>" "sent \<sigma>" s' "threads \<sigma>"]
  by (auto simp: sys_inv_def quiet_def)

lemma sys_inv_request:
  assumes "sys_inv \<sigma>" "threads \<sigma> pid = None"
  shows "sys_inv (\<sigma>\<lparr>threads := (threads \<sigma>)(pid \<mapsto> \<lparr>th_tx = p, th_ctx = ctx, th_pc = AtGate\<rparr>)\<rparr>)"
proof -
  let ?th = "\<lparr>th_tx = p, th_ctx = ctx, th_pc = AtGate\<rparr>"
  let ?T = "(threads \<sigma>)(pid \<mapsto> ?th)"
  note D = sys_invD [OF assms(1)]
  have gate: "lock_of AtGate = None" "\<not> in_relay AtGate" "\<not> validated AtGate" by (simp_all add: pc_defs)
  have "nonces_ok ?T (svc \<sigma>) (sent \<sigma>)"
    by (rule nonces_ok_quiet [OF D(5)]) (use gate in \<open>auto split: if_splits\<close>)
  moreover have "locks_ok ?T (svc \<sigma>)" by (rule locks_ok_new [OF D(2) assms(2)]) (simp add: gate)
  moreover have "relay_ok ?T (relay_holder \<sigma>)" "turns_ok ?T"
    using D(3,4) assms(2) gate by (auto simp: relay_ok_def turns_ok_def)
  ultimately show ?thesis using D(1) by (simp add: sys_inv_def)
qed

lemma sys_inv_init: "sys_inv (sys_init cfg)"
  using new_service_wf [of "Some cfg"]
  by (auto simp: sys_inv_def sys_init_def locks_ok_def relay_ok_def turns_ok_def nonces_ok_def sent_ordered_def)
    (simp_all add: new_service_def)

lemma nonces_ok_locks:
  assumes "nonces_ok T s L" "senders s' = senders s" "chain_heap s' = chain_heap s" "fresh s \<le> fresh s'"
    "T pid = Some th" "validated pc \<Longrightarrow> validated (th_pc th)"
  shows "nonces_ok (T(pid \<mapsto> th\<lparr>th_pc := pc\<rparr>)) s' L"
  using assms unfolding nonces_ok_def
  by (auto split: if_splits prod.splits intro: order_less_le_trans)

lemma sys_inv_lock_step:
  assumes inv: "sys_inv \<sigma>" and th: "threads \<sigma> pid = Some th"
    and locks: "locks_ok ((threads \<sigma>)(pid \<mapsto> th\<lparr>th_pc := pc\<rparr>)) s'" and wf: "service_wf s'"
    and frame: "senders s' = senders (svc \<sigma>)" "chain_heap s' = chain_heap (svc \<sigma>)" "fresh (svc \<sigma>) \<le> fresh s'"
    and pc: "\<not> validated pc" "in_relay pc = in_relay (th_pc th)" "\<And>t. pc \<noteq> AtTurn t"
  shows "sys_inv (goto pid th pc (\<sigma>\<lparr>svc := s'\<rparr>))"
  using sys_invD [OF inv] locks wf pc relay_ok_move [OF sys_invD(3) [OF inv] th pc(2)]
    turns_ok_move [OF sys_invD(4) [OF inv], of pc th pid]
    nonces_ok_locks [OF sys_invD(5) [OF inv] frame th, of pc]
  by (auto simp: sys_inv_def goto_def)

lemma validate_step:
  assumes "expectedNonce now env sender s = (Inr n, s1)" "senders s1 (senderKey sender) = Some c"
  shows "next_nonce (chain_heap s1 c) = n"
proof -
  have s1: "s1 = snd (chainLocked now (senderKey sender) s)"
    and n: "Inr n = (case tracker_next now s (senderKey sender) of Some n \<Rightarrow> Inr n | None \<Rightarrow> hub_nonce env (Cfg s) sender)"
    using assms(1) by (auto simp: expectedNonce_eq)
  show ?thesis
  proof (cases "live_chain now s (senderKey sender)")
    case None
    then have "senders s1 (senderKey sender) = None"
      using s1 chainLocked_None [of now "senderKey sender" s s1] by (simp add: chainLocked_live)
    with assms(2) show ?thesis by simp
  next
    case (Some d)
    with s1 have "s1 = s" by (simp add: chainLocked_live)
    with Some n assms(2) live_chain_sender [OF Some] show ?thesis by (simp add: tracker_next_def)
  qed
qed

lemma relay_ok_take:
  assumes "relay_ok T None" "T pid = Some th" "in_relay pc"
  shows "relay_ok (T(pid \<mapsto> th\<lparr>th_pc := pc\<rparr>)) (Some pid)"
  using assms by (auto simp: relay_ok_def)

lemma relay_ok_release:
  assumes "relay_ok T r" "T pid = Some th" "in_relay (th_pc th)" "\<not> in_relay pc"
  shows "relay_ok (T(pid \<mapsto> th\<lparr>th_pc := pc\<rparr>)) None"
proof -
  have "r = Some pid" using assms by (auto simp: relay_ok_def)
  with assms show ?thesis by (auto simp: relay_ok_def)
qed

lemma sys_inv_relay:
  assumes inv: "sys_inv \<sigma>" and th: "threads \<sigma> pid = Some th"
    and pc: "lock_of pc = lock_of (th_pc th)" "holds_lock pc = holds_lock (th_pc th)" "validated pc \<Longrightarrow> validated (th_pc th)"
      "\<And>t. pc \<noteq> AtTurn t"
    and rel: "relay_ok ((threads \<sigma>)(pid \<mapsto> th\<lparr>th_pc := pc\<rparr>)) r"
  shows "sys_inv (goto pid th pc (\<sigma>\<lparr>relay_holder := r\<rparr>))"
  using sys_invD [OF inv] rel pc locks_ok_move [OF sys_invD(2) [OF inv] th refl refl order_refl pc(1,2)]
    turns_ok_move [OF sys_invD(4) [OF inv], of pc th pid]
    nonces_ok_locks [OF sys_invD(5) [OF inv] refl refl order_refl th pc(3)]
  by (auto simp: sys_inv_def goto_def)

text \<open>Requests that passed the check of their nonce are of different users: each holds the lock of its own.\<close>

lemma validated_keys_differ:
  assumes ok: "locks_ok T s" and th: "T p = Some th" "validated (th_pc th)" and u: "T q = Some u" "validated (th_pc u)"
    and "q \<noteq> p"
  shows "th_key u \<noteq> th_key th"
proof
  assume same: "th_key u = th_key th"
  obtain l1 l2 where l12: "lock_of (th_pc th) = Some l1" "lock_of (th_pc u) = Some l2"
    using holds_lock_of validated_holds th(2) u(2) by blast
  with same locks_okD(2) [OF ok th(1) l12(1)] locks_okD(2) [OF ok u(1) l12(2)] have "l1 = l2" by simp
  with locks_okD(6) [OF ok th(1) l12(1) validated_holds [OF th(2)]]
    locks_okD(6) [OF ok u(1) l12(2) validated_holds [OF u(2)]] \<open>q \<noteq> p\<close> show False by simp
qed

text \<open>The nonces after noting one: the chain that was moved is the one of the request that moved it.\<close>

lemma nonces_ok_note:
  assumes wf: "service_wf s" and locks: "locks_ok T s" and nok: "nonces_ok T s L"
    and th: "T pid = Some th" "validated (th_pc th)" "\<not> validated pc"
    and e: "senders s' = (senders s)(th_key th \<mapsto> c)" "chain = None \<or> chain = Some c" "c < fresh s'" "fresh s \<le> fresh s'"
      "\<And>d. d \<noteq> c \<Longrightarrow> next_nonce (chain_heap s' d) = next_nonce (chain_heap s d)"
      "Nonce (th_tx th) \<noteq> - 1 \<Longrightarrow> Nonce (th_tx th) < next_nonce (chain_heap s' c)"
      "(senders s (th_key th) = Some c \<and> next_nonce (chain_heap s c) \<le> next_nonce (chain_heap s' c)) \<or> fresh s \<le> c"
  shows "nonces_ok (T(pid \<mapsto> th\<lparr>th_pc := pc\<rparr>)) s' (L @ (case chain of Some c \<Rightarrow> [(c, Nonce (th_tx th))] | None \<Rightarrow> []))"
    (is "nonces_ok ?T s' ?L")
proof -
  have old: "d < fresh s' \<and> (n = - 1 \<or> n < next_nonce (chain_heap s' d))" if "(d, n) \<in> set L" for d n
    using nonces_okD(2,3) [OF nok that] e(3,4,5,7) by (cases "d = c") (auto intro: order_less_le_trans)
  have below: "n = - 1 \<or> n < Nonce (th_tx th)" if "(c, n) \<in> set L" for n
  proof -
    have "c < fresh s" by (rule nonces_okD(2) [OF nok that])
    with e(7) have "senders s (th_key th) = Some c" by auto
    from nonces_okD(4) [OF nok th(1,2) this] nonces_okD(3) [OF nok that] show ?thesis by simp
  qed
  have other: "next_nonce (chain_heap s' d) = Nonce (th_tx u)"
    if v: "T q = Some u" "validated (th_pc u)" "q \<noteq> pid" "senders s' (th_key u) = Some d" for q u d
  proof -
    note diff = validated_keys_differ [OF locks th(1,2) v(1-3)]
    with v(4) e(1) have d: "senders s (th_key u) = Some d" by simp
    then have "d \<noteq> c" using e(7) diff service_wf_dests(8,9) [OF wf] by fastforce
    with e(5) nonces_okD(4) [OF nok v(1,2) d] show ?thesis by simp
  qed
  have "sent_ordered ?L"
    using nonces_okD(1) [OF nok] e(2) below by (cases chain) (fastforce simp: sent_ordered_def sorted_wrt_append)+
  then show ?thesis
    unfolding nonces_ok_def
  proof (intro conjI ballI allI impI)
    fix x assume "x \<in> set ?L"
    then have "x \<in> set L \<or> x = (c, Nonce (th_tx th))" using e(2) by (auto split: option.splits)
    then show "case x of (c, n) \<Rightarrow> c < fresh s' \<and> (n = - 1 \<or> n < next_nonce (chain_heap s' c))"
      using old e(3,6) by auto
  next
    fix q u d
    assume "?T q = Some u" "validated (th_pc u)" "senders s' (th_key u) = Some d"
    then show "next_nonce (chain_heap s' d) = Nonce (th_tx u)" using other th(3) by (auto split: if_splits)
  qed
qed

lemma sys_inv_note:
  assumes inv: "sys_inv \<sigma>" and th: "threads \<sigma> pid = Some th" "th_pc th = AtNote l h"
    and nt: "noteSent now (th_tx th) (svc \<sigma>) = ((chain, pend), s')"
  shows "sys_inv (goto pid th (AtRemember l h chain)
      (\<sigma>\<lparr>svc := s', sent := sent \<sigma> @ (case chain of Some c \<Rightarrow> [(c, Nonce (th_tx th))] | None \<Rightarrow> [])\<rparr>))"
proof -
  let ?pc = "AtRemember l h chain" and ?s = "svc \<sigma>" and ?n = "Nonce (th_tx th)"
  note D = sys_invD [OF inv]
  have pc: "lock_of ?pc = lock_of (th_pc th)" "holds_lock ?pc = holds_lock (th_pc th)"
    "in_relay ?pc = in_relay (th_pc th)" "\<not> validated ?pc" "validated (th_pc th)" using th(2) by (simp_all add: pc_defs)
  obtain c where e: "senders s' = (senders ?s)(th_key th \<mapsto> c)" "chain = None \<or> chain = Some c" "c < fresh s'"
    "userLocks s' = userLocks ?s" "lock_heap s' = lock_heap ?s" "fresh ?s \<le> fresh s'"
    "\<And>d. d \<noteq> c \<Longrightarrow> next_nonce (chain_heap s' d) = next_nonce (chain_heap ?s d)"
    "?n \<noteq> - 1 \<Longrightarrow> ?n < next_nonce (chain_heap s' c)"
    "(senders ?s (th_key th) = Some c \<and> next_nonce (chain_heap ?s c) \<le> next_nonce (chain_heap s' c)) \<or> fresh ?s \<le> c"
    by (rule noteSent_effect [OF D(1) nt th_key_def [of th]]) (assumption | rule that)+
  have "service_wf s'" using noteSent_wf [OF D(1), of now "th_tx th"] nt by simp
  moreover have "locks_ok ((threads \<sigma>)(pid \<mapsto> th\<lparr>th_pc := ?pc\<rparr>)) s'"
    using e by (intro locks_ok_move [OF D(2) th(1) _ _ _ pc(1,2)]) auto
  ultimately show ?thesis
    using relay_ok_move [OF D(3) th(1) pc(3)] turns_ok_move [OF D(4), of ?pc th pid]
      nonces_ok_note [OF D(1,2,5) th(1) pc(5,4) e(1,2,3,6,7,8,9)]
    by (simp add: sys_inv_def goto_def)
qed

lemma awaitTurn_init_ok: "turn_pc_ok p (awaitTurn_init now s)" "turn_log_ok p (awaitTurn_init now s)"
  by (simp_all add: awaitTurn_init_def turn_pc_ok_def turn_log_ok_def)

lemma turn_step_sys:
  assumes inv: "sys_inv \<sigma>" and th: "threads \<sigma> pid = Some th" "th_pc th = AtTurn t"
    and step: "send_step i pid th \<sigma> = Some \<sigma>'"
  shows "sys_inv \<sigma>'"
proof (cases "\<exists>r. turn_pc t = TurnDone r")
  case True
  then obtain r where r: "turn_pc t = TurnDone r" by blast
  have "sys_inv (goto pid th pc (\<sigma>\<lparr>svc := svc \<sigma>\<rparr>))" if "pc = AtEnter \<or> (\<exists>x. pc = AtDone x)" for pc
    using that by (intro sys_inv_goto_same [OF inv th(1) quiet_refl]) (auto simp: th pc_defs)
  with step th r show ?thesis by (cases r) (auto simp: send_step_def Let_def)
next
  case False
  then have "send_step i pid th \<sigma> =
      map_option (\<lambda>(t1, s1). goto pid th (AtTurn t1) (\<sigma>\<lparr>svc := s1\<rparr>))
        (turn_step (turn_input.truncate i) (th_tx th) t (svc \<sigma>))"
    using th by (simp add: send_step_def Let_def split: turn_pc.split option.split)
  with step obtain t1 s1 where t1: "turn_step (turn_input.truncate i) (th_tx th) t (svc \<sigma>) = Some (t1, s1)"
      "\<sigma>' = goto pid th (AtTurn t1) (\<sigma>\<lparr>svc := s1\<rparr>)" by auto
  have "turn_pc_ok (th_tx th) t1 \<and> turn_log_ok (th_tx th) t1"
    using turn_step_ok [OF t1(1)] sys_invD(4) [OF inv] th by (simp add: turns_ok_def)
  with t1(2) show ?thesis
    by (simp only:) (rule sys_inv_goto_same [OF inv th(1) quiet_turn_step [OF t1(1)]]; simp add: th pc_defs)
qed

lemma validate_step_sys:
  assumes inv: "sys_inv \<sigma>" and th: "threads \<sigma> pid = Some th" "th_pc th = AtValidate l"
    and step: "send_step i pid th \<sigma> = Some \<sigma>'"
  shows "sys_inv \<sigma>'"
proof -
  obtain x s1 where ex: "expectedNonce (in_now i) (in_env i) (SenderKey (th_tx th)) (svc \<sigma>) = (x, s1)" by fastforce
  have q: "quiet (svc \<sigma>) s1"
    using quiet_expectedNonce [of "svc \<sigma>" "in_now i" "in_env i" "SenderKey (th_tx th)"] ex by simp
  have q2: "quiet (svc \<sigma>) s2" if "pendingOf (in_now i) (SenderKey (th_tx th)) s1 = (pend, s2)" for pend s2
    using quiet_trans [OF q quiet_chainLocked] that by (auto simp: pendingOf_eq)
  have unlock: "sys_inv (goto pid th (AtUnlock l r) (\<sigma>\<lparr>svc := s2\<rparr>))" if "quiet (svc \<sigma>) s2" for r s2
    by (rule sys_inv_goto_same [OF inv th(1) that]) (simp_all add: th pc_defs)
  have relay: "sys_inv (goto pid th (AtRelayLock l) (\<sigma>\<lparr>svc := s1\<rparr>))" if "x = Inr (Nonce (th_tx th))"
    by (rule sys_inv_goto_same [OF inv th(1) q])
      (use ex that validate_step [of "in_now i" "in_env i" "SenderKey (th_tx th)" "svc \<sigma>" "Nonce (th_tx th)" s1]
        in \<open>auto simp: th pc_defs th_key_def\<close>)
  show ?thesis
    using step th ex unlock [OF q] unlock [OF q2] relay
    by (auto simp: send_step_def Let_def split: sum.splits if_splits prod.splits)
qed

lemma quiet_closed: "quiet (svc \<sigma>) (svc \<sigma>)" by simp

lemma gate_step_sys:
  assumes inv: "sys_inv \<sigma>" and th: "threads \<sigma> pid = Some th" and pc: "th_pc th = AtGate"
    and step: "send_step i pid th \<sigma> = Some \<sigma>'"
  shows "sys_inv \<sigma>'"
proof -
  have "sys_inv (goto pid th q (\<sigma>\<lparr>svc := snd (makeRoomFor (in_now i) (th_key th) (Nonce (th_tx th)) (svc \<sigma>))\<rparr>))"
    if "(\<exists>now s. q = AtTurn (awaitTurn_init now s)) \<or> (\<exists>r. q = AtDone r)" for q
    by (rule sys_inv_goto_same [OF inv th quiet_makeRoomFor])
      (use that pc awaitTurn_init_ok in \<open>auto simp: pc_defs\<close>)
  with step pc show ?thesis by (auto simp: send_step_def Let_def split: prod.splits if_splits)
qed

lemma enter_step_sys:
  assumes inv: "sys_inv \<sigma>" and th: "threads \<sigma> pid = Some th" and pc: "th_pc th = AtEnter"
    and step: "send_step i pid th \<sigma> = Some \<sigma>'"
  shows "sys_inv \<sigma>'"
proof -
  obtain l s1 where e: "lockUser_enter (th_key th) (svc \<sigma>) = (l, s1)" by fastforce
  have "locks_ok ((threads \<sigma>)(pid \<mapsto> th\<lparr>th_pc := AtLock l\<rparr>)) s1"
    by (rule locks_ok_enter [OF sys_invD(2) [OF inv] th _ e]) (simp add: pc lock_of_def)
  moreover have "service_wf s1" using lock_steps_wf(1) [OF sys_invD(1) [OF inv], of "th_key th"] e by simp
  moreover have "senders s1 = senders (svc \<sigma>)" "chain_heap s1 = chain_heap (svc \<sigma>)" "fresh (svc \<sigma>) \<le> fresh s1"
    using e by (auto simp: lockUser_enter_def upd_lock_def split: option.splits)
  ultimately have "sys_inv (goto pid th (AtLock l) (\<sigma>\<lparr>svc := s1\<rparr>))"
    by (intro sys_inv_lock_step [OF inv th]) (simp_all add: pc pc_defs)
  with step pc e show ?thesis by (simp add: send_step_def)
qed

lemma acquire_step_sys:
  assumes inv: "sys_inv \<sigma>" and th: "threads \<sigma> pid = Some th" and pc: "th_pc th = AtLock l"
    and step: "send_step i pid th \<sigma> = Some \<sigma>'"
  shows "sys_inv \<sigma>'"
proof -
  from step pc obtain s1 where a: "lockUser_acquire pid l (svc \<sigma>) = Some s1"
      "\<sigma>' = goto pid th (AtValidate l) (\<sigma>\<lparr>svc := s1\<rparr>)" by (auto simp: send_step_def)
  from a(1) have "senders s1 = senders (svc \<sigma>)" "chain_heap s1 = chain_heap (svc \<sigma>)" "fresh (svc \<sigma>) \<le> fresh s1"
    by (auto simp: lockUser_acquire_def upd_lock_def split: if_splits)
  then show ?thesis
    using locks_ok_acquire [OF sys_invD(2) [OF inv] th pc a(1)] lock_steps_wf(2) [OF sys_invD(1) [OF inv] a(1)]
    unfolding a(2) by (intro sys_inv_lock_step [OF inv th]) (simp_all add: pc pc_defs)
qed

lemma relay_step_sys:
  assumes inv: "sys_inv \<sigma>" and th: "threads \<sigma> pid = Some th" and pc: "th_pc th = AtRelayLock l"
    and step: "send_step i pid th \<sigma> = Some \<sigma>'"
  shows "sys_inv \<sigma>'"
proof -
  from step pc have "relay_holder \<sigma> = None" "\<sigma>' = goto pid th (AtGas l) (\<sigma>\<lparr>relay_holder := Some pid\<rparr>)"
    by (auto simp: send_step_def split: if_splits)
  then show ?thesis
    using relay_ok_take [where T = "threads \<sigma>" and pid = pid and pc = "AtGas l", OF _ th] sys_invD(3) [OF inv]
    by (simp only:) (rule sys_inv_relay [OF inv th]; simp add: pc pc_defs)
qed

lemma gas_step_sys:
  assumes inv: "sys_inv \<sigma>" and th: "threads \<sigma> pid = Some th" and pc: "th_pc th = AtGas l"
    and step: "send_step i pid th \<sigma> = Some \<sigma>'"
  shows "sys_inv \<sigma>'"
proof -
  have "sys_inv (goto pid th q (\<sigma>\<lparr>svc := svc \<sigma>, gas_used := g\<rparr>))"
    if "q = AtBroadcast l \<or> (\<exists>r. q = AtRelayUnlock l r)" for q g
    using that by (intro sys_inv_goto [OF inv th quiet_closed]) (auto simp: pc pc_defs)
  with step pc show ?thesis
    by (auto simp: send_step_def Let_def split: prod.splits option.splits)
qed

lemma broadcast_step_sys:
  assumes inv: "sys_inv \<sigma>" and th: "threads \<sigma> pid = Some th" and pc: "th_pc th = AtBroadcast l"
    and step: "send_step i pid th \<sigma> = Some \<sigma>'"
  shows "sys_inv \<sigma>'"
proof -
  have "sys_inv (goto pid th q (\<sigma>\<lparr>svc := svc \<sigma>\<rparr>))"
    if "(\<exists>h. q = AtNote l h) \<or> (\<exists>r. q = AtRelayUnlock l r)" for q
    using that by (intro sys_inv_goto_same [OF inv th quiet_closed]) (auto simp: pc pc_defs)
  with step pc show ?thesis by (auto simp: send_step_def Let_def split: sum.splits)
qed

lemma relay_unlock_step_sys:
  assumes inv: "sys_inv \<sigma>" and th: "threads \<sigma> pid = Some th" and pc: "th_pc th = AtRelayUnlock l r"
    and step: "send_step i pid th \<sigma> = Some \<sigma>'"
  shows "sys_inv \<sigma>'"
proof -
  have "sys_inv (goto pid th q (\<sigma>\<lparr>relay_holder := None\<rparr>))" if "q = AtForget l r \<or> q = AtUnlock l r" for q
    using that by (intro sys_inv_relay [OF inv th] relay_ok_release [OF sys_invD(3) [OF inv] th])
      (auto simp: pc pc_defs)
  with step pc show ?thesis by (auto simp: send_step_def split: sum.splits)
qed

lemma unlock_step_sys:
  assumes inv: "sys_inv \<sigma>" and th: "threads \<sigma> pid = Some th" and pc: "th_pc th = AtUnlock l r"
    and step: "send_step i pid th \<sigma> = Some \<sigma>'"
  shows "sys_inv \<sigma>'"
proof -
  have "sys_inv (goto pid th (AtLeave l r) (\<sigma>\<lparr>svc := lockUser_unlock l (svc \<sigma>)\<rparr>))"
    using locks_ok_unlock [OF sys_invD(2) [OF inv] th pc] lock_steps_wf(3) [OF sys_invD(1) [OF inv]]
    by (intro sys_inv_lock_step [OF inv th]) (auto simp: pc pc_defs lockUser_unlock_def upd_lock_def)
  with step pc show ?thesis by (simp add: send_step_def)
qed

lemma leave_step_sys:
  assumes inv: "sys_inv \<sigma>" and th: "threads \<sigma> pid = Some th" and pc: "th_pc th = AtLeave l r"
    and step: "send_step i pid th \<sigma> = Some \<sigma>'"
  shows "sys_inv \<sigma>'"
proof -
  have "sys_inv (goto pid th (AtDone r) (\<sigma>\<lparr>svc := lockUser_leave (th_key th) l (svc \<sigma>)\<rparr>))"
    using locks_ok_leave [OF sys_invD(2) [OF inv] th pc] lock_steps_wf(4) [OF sys_invD(1) [OF inv]]
    by (intro sys_inv_lock_step [OF inv th]) (auto simp: pc pc_defs lockUser_leave_def upd_lock_def Let_def)
  with step pc show ?thesis by (simp add: send_step_def)
qed

lemma note_step_sys:
  assumes inv: "sys_inv \<sigma>" and th: "threads \<sigma> pid = Some th" and pc: "th_pc th = AtNote l h"
    and step: "send_step i pid th \<sigma> = Some \<sigma>'"
  shows "sys_inv \<sigma>'"
  using step pc sys_inv_note [OF inv th pc] by (auto simp: send_step_def Let_def split: prod.splits)

lemma remember_step_sys:
  assumes inv: "sys_inv \<sigma>" and th: "threads \<sigma> pid = Some th" and pc: "th_pc th = AtRemember l h chain"
    and step: "send_step i pid th \<sigma> = Some \<sigma>'"
  shows "sys_inv \<sigma>'"
proof -
  have "sys_inv (goto pid th (AtRelayUnlock l (Inr h))
      (\<sigma>\<lparr>svc := rememberMetaTx (in_now i) (in_order i) (th_ctx th) h (th_key th) chain (svc \<sigma>)\<rparr>))"
    by (rule sys_inv_goto_same [OF inv th quiet_remember]) (simp_all add: pc pc_defs)
  with step pc show ?thesis by (simp add: send_step_def)
qed

lemma forget_step_sys:
  assumes inv: "sys_inv \<sigma>" and th: "threads \<sigma> pid = Some th" and pc: "th_pc th = AtForget l r"
    and step: "send_step i pid th \<sigma> = Some \<sigma>'"
  shows "sys_inv \<sigma>'"
proof -
  have "sys_inv (goto pid th (AtUnlock l r) (\<sigma>\<lparr>svc := forgetChain (th_key th) (svc \<sigma>)\<rparr>))"
    by (rule sys_inv_goto_same [OF inv th quiet_forget]) (simp_all add: pc pc_defs)
  with step pc show ?thesis by (simp add: send_step_def)
qed

lemmas step_sys =
  gate_step_sys turn_step_sys enter_step_sys acquire_step_sys validate_step_sys relay_step_sys gas_step_sys
  broadcast_step_sys note_step_sys remember_step_sys relay_unlock_step_sys forget_step_sys unlock_step_sys leave_step_sys

lemma sys_inv_step:
  assumes inv: "sys_inv \<sigma>" and th: "threads \<sigma> pid = Some th" and step: "send_step i pid th \<sigma> = Some \<sigma>'"
  shows "sys_inv \<sigma>'"
proof (cases "th_pc th")
  case (AtDone r)
  with step show ?thesis by (simp add: send_step_def)
qed (rule step_sys [OF inv th _ step], assumption)+

lemma sys_reach_inv: "sys_reach cfg \<sigma> \<Longrightarrow> sys_inv \<sigma>"
proof (induction rule: sys_reach.induct)
  case reach_init
  then show ?case by (rule sys_inv_init)
next
  case (reach_step \<sigma> \<sigma>')
  from reach_step.hyps(2) reach_step.IH show ?case
  proof (induction rule: sys_step.induct)
    case (sys_block \<sigma>)
    then show ?case by (simp add: sys_inv_def)
  qed (simp_all add: sys_inv_request sys_inv_step sys_inv_service quiet_service_op)
qed


section \<open>Progress\<close>

lemma goto_self [simp]: "threads (goto pid th pc \<sigma>) pid = Some (th\<lparr>th_pc := pc\<rparr>)"
  by (simp add: goto_def)

text \<open>A step that needs neither a lock nor a turn can always be taken.\<close>

lemma send_step_free:
  assumes "\<And>t. th_pc th \<noteq> AtTurn t" "\<And>l. th_pc th \<noteq> AtLock l" "\<And>l. th_pc th \<noteq> AtRelayLock l" "\<And>r. th_pc th \<noteq> AtDone r"
  shows "send_step i pid th \<sigma> \<noteq> None"
  using assms
  by (cases "th_pc th") (auto simp: send_step_def Let_def split: prod.splits sum.splits option.splits)

lemma in_relay_free: "in_relay (th_pc th) \<Longrightarrow> send_step i pid th \<sigma> \<noteq> None"
  by (rule send_step_free) (auto simp: in_relay_def)

lemma turn_free:
  assumes "turn_pc_ok (th_tx th) t" "th_pc th = AtTurn t"
  shows "\<exists>i. send_step i pid th \<sigma> \<noteq> None"
proof (cases "turn_pc t")
  case (TurnSelect ch at)
  then show ?thesis
    using assms(2) by (intro exI [of _ "undefined\<lparr>in_now := at, in_case := SelectTimer\<rparr>"])
      (simp add: send_step_def turn_step_def turn_input.truncate_def)
next
  case (TurnDone r)
  then show ?thesis using assms(2) by (cases r) (auto simp: send_step_def Let_def)
qed (use assms in \<open>auto simp: send_step_def turn_step_def turn_pc_ok_def Let_def split: prod.split sum.split\<close>)


section \<open>Guarantees of the system\<close>

text \<open>
  C6: whatever the interleaving of requests, receipts and timers, closing a channel twice (a Go
  panic) never happens, no chain counts a negative number of metatx in flight, and no metatx is
  registered as held twice.
\<close>

theorem reachable_bookkeeping:
  assumes "sys_reach cfg \<sigma>"
  shows "chan_closes (svc \<sigma>) ch \<le> 1 \<and> 0 \<le> pending (chain_heap (svc \<sigma>) c) \<and> distinct (held_list (svc \<sigma>) key)"
proof -
  have "service_wf (svc \<sigma>)" by (rule sys_invD(1) [OF sys_reach_inv [OF assms]])
  then show ?thesis by (simp add: service_wf_def registry_wf_def wake_wf_def chains_wf_def)
qed

text \<open>
  C4: two requests of the same user are never both between taking the lock of that user and releasing
  it, so the nonce of one is validated and noted as sent before that of the other is looked at, even
  though the lock is created and deleted on demand.
\<close>

theorem user_sections_exclude_each_other:
  assumes "sys_reach cfg \<sigma>" "threads \<sigma> p = Some t" "threads \<sigma> q = Some u" "th_key t = th_key u"
    "holds_lock (th_pc t)" "holds_lock (th_pc u)"
  shows "p = q"
proof -
  have L: "locks_ok (threads \<sigma>) (svc \<sigma>)" by (rule sys_invD(2) [OF sys_reach_inv [OF assms(1)]])
  obtain l m where lm: "lock_of (th_pc t) = Some l" "lock_of (th_pc u) = Some m"
    using assms(5,6) holds_lock_of by blast
  then have "l = m"
    using locks_okD(2) [OF L assms(2)] locks_okD(2) [OF L assms(3)] assms(4) by simp
  then show ?thesis
    using locks_okD(6) [OF L assms(2) lm(1) assms(5)] locks_okD(6) [OF L assms(3) lm(2) assms(6)] by simp
qed

text \<open>
  C3: a metatx about to be broadcast still carries exactly the nonce its user's chain expects, however
  long ago it was validated and whatever the other requests, the watcher and the timers did since.
\<close>

theorem broadcast_carries_expected_nonce:
  assumes "sys_reach cfg \<sigma>" "threads \<sigma> pid = Some th" "th_pc th = AtBroadcast l"
    "senders (svc \<sigma>) (th_key th) = Some c"
  shows "Nonce (th_tx th) = next_nonce (chain_heap (svc \<sigma>) c)"
  using nonces_okD(4) [OF sys_invD(5) [OF sys_reach_inv [OF assms(1)]] assms(2) _ assms(4)] assms(3)
  by (simp add: validated_def)

text \<open>The nonces of one chain go out in increasing order, until the last one of 64 bits has been sent.\<close>

lemma chain_sends_increase:
  assumes "sys_reach cfg \<sigma>" "i < j" "j < length (sent \<sigma>)" "fst (sent \<sigma> ! i) = fst (sent \<sigma> ! j)"
    "snd (sent \<sigma> ! i) \<noteq> - 1"
  shows "snd (sent \<sigma> ! i) < snd (sent \<sigma> ! j)"
  using nonces_okD(1) [OF sys_invD(5) [OF sys_reach_inv [OF assms(1)]]] assms(2-)
  by (auto simp: sent_ordered_def sorted_wrt_iff_nth_less)

text \<open>
  C5: the send path never deadlocks. A request that has not finished can take its next step, or the
  request that holds the lock of its user can, or the one that holds the lock of the send path can.
\<close>

theorem send_path_never_deadlocks:
  assumes "sys_reach cfg \<sigma>" "threads \<sigma> pid = Some th" "\<forall>r. th_pc th \<noteq> AtDone r"
  shows "\<exists>q u i. threads \<sigma> q = Some u \<and> send_step i q u \<sigma> \<noteq> None \<and>
    (q = pid \<or> (\<exists>l. userLocks (svc \<sigma>) (th_key th) = Some l \<and> holder (lock_heap (svc \<sigma>) l) = Some q) \<or>
     relay_holder \<sigma> = Some q)"
proof -
  note inv = sys_reach_inv [OF assms(1)]
  have relay: "\<exists>u i. threads \<sigma> q = Some u \<and> send_step i q u \<sigma> \<noteq> None" if "relay_holder \<sigma> = Some q" for q
  proof -
    from sys_invD(3) [OF inv] that obtain u where "threads \<sigma> q = Some u" "in_relay (th_pc u)"
      unfolding relay_ok_def by blast
    with in_relay_free [of u] show ?thesis by blast
  qed
  have free: "(\<exists>i. send_step i q u \<sigma> \<noteq> None) \<or> (\<exists>q'. relay_holder \<sigma> = Some q')"
    if "th_pc u = AtRelayLock l" for q u l
    using that by (cases "relay_holder \<sigma>") (simp_all add: send_step_def)
  have holds: "(\<exists>i. send_step i q u \<sigma> \<noteq> None) \<or> (\<exists>q'. relay_holder \<sigma> = Some q')" if "holds_lock (th_pc u)" for q u
    using that free send_step_free [of u] by (cases "th_pc u") (auto simp: holds_lock_def lock_of_def)
  have own: ?thesis if "send_step i pid th \<sigma> \<noteq> None" for i
    using that assms(2) by blast
  show ?thesis
  proof (cases "th_pc th")
    case (AtTurn t)
    with sys_invD(4) [OF inv] assms(2) have "turn_pc_ok (th_tx th) t" by (simp add: turns_ok_def)
    from turn_free [OF this AtTurn, of pid \<sigma>] assms(2) show ?thesis by blast
  next
    case (AtLock l)
    then have l: "userLocks (svc \<sigma>) (th_key th) = Some l"
      using locks_okD(2) [OF sys_invD(2) [OF inv] assms(2)] by (simp add: lock_of_def)
    show ?thesis
    proof (cases "holder (lock_heap (svc \<sigma>) l)")
      case None
      then have "send_step i pid th \<sigma> \<noteq> None" for i using AtLock by (simp add: send_step_def lockUser_acquire_def)
      with assms(2) show ?thesis by blast
    next
      case (Some q)
      with locks_okD(7) [OF sys_invD(2) [OF inv] l] obtain u where u: "threads \<sigma> q = Some u" "holds_lock (th_pc u)"
        by blast
      show ?thesis using holds [OF u(2), of q] relay u(1) l Some by blast
    qed
  next
    case (AtRelayLock l)
    show ?thesis using free [OF AtRelayLock, of pid] relay assms(2) by blast
  qed (rule own [OF send_step_free]; use assms(3) in simp)+
qed

text \<open>
  The gas of a metatx refused for exceeding the limit of the block stays counted: while the block
  lasts, every other metatx is refused too, even one that would have fitted.
\<close>

theorem refused_gas_stays_counted:
  assumes "VerifyGasLimit env big used = (Inr False, used')" "unat used' + unat small < 2 ^ 64"
  shows "fst (VerifyGasLimit env small used') = Inr False"
  using assms by (auto simp: VerifyGasLimit_def increment_def Let_def word_less_nat_alt unat_add_lem [THEN iffD1]
      split: option.splits sum.splits)

section \<open>A concrete run\<close>

text \<open>Nonces 3 and 4 of one user arrive together, 4 first; both go out, 3 first.\<close>

fun sys_run :: "(nat \<times> send_input) list \<Rightarrow> sys \<Rightarrow> sys option" where
  "sys_run [] \<sigma> = Some \<sigma>"
| "sys_run ((pid, i) # xs) \<sigma> =
     (case threads \<sigma> pid of
        None \<Rightarrow> None
      | Some th \<Rightarrow> (case send_step i pid th \<sigma> of None \<Rightarrow> None | Some \<sigma>' \<Rightarrow> sys_run xs \<sigma>'))"

lemma sys_run_reach: "sys_reach cfg \<sigma> \<Longrightarrow> sys_run xs \<sigma> = Some \<sigma>' \<Longrightarrow> sys_reach cfg \<sigma>'"
  by (induction xs \<sigma> rule: sys_run.induct)
    (auto split: option.splits dest: reach_step sys_thread)

lemma goto_fields [simp]:
  "svc (goto pid th pc \<sigma>) = svc \<sigma>" "gas_used (goto pid th pc \<sigma>) = gas_used \<sigma>"
  "relay_holder (goto pid th pc \<sigma>) = relay_holder \<sigma>" "sent (goto pid th pc \<sigma>) = sent \<sigma>"
  by (simp_all add: goto_def)

definition burst_config :: Config where
  "burst_config = sample_config\<lparr>Reorder := DefaultReorderConfig\<lparr>Reorder_Enabled := True\<rparr>\<rparr>"

definition sample_thread :: "uint64 \<Rightarrow> thread" where
  "sample_thread n = \<lparr>th_tx = sample_tx n, th_ctx = Background, th_pc = AtGate\<rparr>"

definition sample_sys :: sys where
  "sample_sys = (sys_init burst_config)\<lparr>threads := [0 \<mapsto> sample_thread 4, 1 \<mapsto> sample_thread 3]\<rparr>"

definition sample_send_input :: "Hash \<Rightarrow> send_input" where
  "sample_send_input h =
     \<lparr>in_now = 0, in_env = sample_env, in_case = SelectWake, in_order = [],
      in_gas = \<lparr>gas_Connect = None, GetNodeGasLimit = Inr 1000000\<rparr>, 
      in_send = \<lparr>send_Connect = None, HexToECDSA = None, ConfigTransaction = (\<lambda>_. None),
        SendMetatransaction = (\<lambda>_ _ _ _ _. Inr \<lparr>tx_Hash = h, tx_Nonce = 0\<rparr>)\<rparr>\<rparr>"

definition sample_schedule :: "(nat \<times> send_input) list" where
  "sample_schedule =
     replicate 6 (0, sample_send_input 11) @ replicate 15 (1, sample_send_input 12) @
     replicate 10 (0, sample_send_input 11)"

lemma sample_sys_reach: "sys_reach burst_config sample_sys"
proof -
  let ?\<sigma> = "sys_init burst_config"
  have "sys_step ?\<sigma> (?\<sigma>\<lparr>threads := (threads ?\<sigma>)(0 \<mapsto> sample_thread 4)\<rparr>)"
    unfolding sample_thread_def by (rule sys_request) (simp add: sys_init_def)
  note one = reach_step [OF reach_init this]
  have "sys_step (?\<sigma>\<lparr>threads := (threads ?\<sigma>)(0 \<mapsto> sample_thread 4)\<rparr>) sample_sys"
    using sys_request [of "?\<sigma>\<lparr>threads := (threads ?\<sigma>)(0 \<mapsto> sample_thread 4)\<rparr>" 1 "sample_tx 3" Background]
    by (simp add: sample_sys_def sys_init_def sample_thread_def fun_upd_def)
  from reach_step [OF one this] show ?thesis .
qed


lemma sample_run_broadcast:
  "map_option (\<lambda>\<sigma>. (map (\<lambda>p. map_option th_pc (threads \<sigma> p)) [0, 1], map_option th_key (threads \<sigma> 0), sent \<sigma>,
      senders (svc \<sigma>) ''u'')) (sys_run sample_schedule sample_sys) =
     Some ([Some (AtBroadcast 4), Some (AtDone (Inr 12))], Some ''u'', [(3, 3)], Some 3)"
  by code_simp

lemma sample_run_sent:
  "map_option sent (sys_run (sample_schedule @ replicate 3 (0, sample_send_input 11)) sample_sys) = Some [(3, 3), (3, 4)]"
  by code_simp


lemma sample_at_broadcast:
  obtains \<sigma> th u where "sys_reach burst_config \<sigma>" "threads \<sigma> 0 = Some th" "th_pc th = AtBroadcast 4" "th_key th = ''u''"
    "threads \<sigma> 1 = Some u" "th_pc u = AtDone (Inr 12)" "senders (svc \<sigma>) ''u'' = Some 3" "sent \<sigma> = [(3, 3)]"
proof -
  from sample_run_broadcast obtain \<sigma> where run: "sys_run sample_schedule sample_sys = Some \<sigma>"
    by (cases "sys_run sample_schedule sample_sys") auto
  from sys_run_reach [OF sample_sys_reach run] sample_run_broadcast show ?thesis
    by (auto simp: run intro: that)
qed

theorem reachable_bookkeeping_witness:
  "\<exists>\<sigma>. sys_reach burst_config \<sigma> \<and> senders (svc \<sigma>) ''u'' = Some 3 \<and>
     chan_closes (svc \<sigma>) 1 \<le> 1 \<and> 0 \<le> pending (chain_heap (svc \<sigma>) 3) \<and> distinct (held_list (svc \<sigma>) ''u'')"
proof -
  obtain \<sigma> where "sys_reach burst_config \<sigma>" "senders (svc \<sigma>) ''u'' = Some 3" by (rule sample_at_broadcast)
  with reachable_bookkeeping [of burst_config \<sigma> 1 3 "''u''"] show ?thesis by blast
qed

theorem user_sections_exclude_each_other_witness:
  "\<exists>\<sigma> th. sys_reach burst_config \<sigma> \<and> threads \<sigma> 0 = Some th \<and> holds_lock (th_pc th) \<and>
     (\<forall>q u. threads \<sigma> q = Some u \<and> th_key u = ''u'' \<and> holds_lock (th_pc u) \<longrightarrow> q = 0)"
proof -
  obtain \<sigma> th where s: "sys_reach burst_config \<sigma>" "threads \<sigma> 0 = Some th" "th_pc th = AtBroadcast 4" "th_key th = ''u''"
    by (rule sample_at_broadcast)
  have h: "holds_lock (th_pc th)" by (simp add: s(3) holds_lock_def lock_of_def)
  from user_sections_exclude_each_other [OF s(1) s(2) _ _ h] s h show ?thesis by metis
qed

theorem broadcast_carries_expected_nonce_witness:
  "\<exists>\<sigma> th. sys_reach burst_config \<sigma> \<and> threads \<sigma> 0 = Some th \<and> th_pc th = AtBroadcast 4 \<and>
     Nonce (th_tx th) = next_nonce (chain_heap (svc \<sigma>) 3)"
proof -
  obtain \<sigma> th where s: "sys_reach burst_config \<sigma>" "threads \<sigma> 0 = Some th" "th_pc th = AtBroadcast 4" "th_key th = ''u''"
      "senders (svc \<sigma>) ''u'' = Some 3" by (rule sample_at_broadcast)
  from broadcast_carries_expected_nonce [OF s(1,2,3), of 3] s show ?thesis by auto
qed

theorem send_path_never_deadlocks_witness:
  "\<exists>\<sigma> q u i. sys_reach burst_config \<sigma> \<and> threads \<sigma> q = Some u \<and> send_step i q u \<sigma> \<noteq> None"
proof -
  obtain \<sigma> th where s: "sys_reach burst_config \<sigma>" "threads \<sigma> 0 = Some th" "th_pc th = AtBroadcast 4"
    by (rule sample_at_broadcast)
  from send_path_never_deadlocks [OF s(1,2)] s(3) obtain q u i where "threads \<sigma> q = Some u" "send_step i q u \<sigma> \<noteq> None"
    by auto
  with s(1) show ?thesis by blast
qed

theorem refused_gas_stays_counted_witness:
  "fst (VerifyGasLimit \<lparr>gas_Connect = None, GetNodeGasLimit = Inr 100\<rparr> 200 10) = Inr False \<and>
   fst (VerifyGasLimit \<lparr>gas_Connect = None, GetNodeGasLimit = Inr 100\<rparr> 50 10) = Inr True \<and>
   fst (VerifyGasLimit \<lparr>gas_Connect = None, GetNodeGasLimit = Inr 100\<rparr> 50 210) = Inr False"
  using refused_gas_stays_counted [of "\<lparr>gas_Connect = None, GetNodeGasLimit = Inr 100\<rparr>" 200 10 210 50]
  by (simp add: VerifyGasLimit_def increment_def)

end
