(* ===== verification/Prepare.thy ===== *)
theory Prepare
  imports Metatx Send
begin

text \<open>
  \<open>PrepareMetaTx\<close> (\<open>service/prepare.go\<close>): from the raw transaction a client sent to the metatx the send
  path works on, with every check on the way and what is logged about it; \<open>DecodedFields\<close>, the
  description of a decoded metatx; and \<open>ReserveGasAndSend\<close>, which picks the send path.
\<close>

section \<open>What is logged\<close>

definition received_fields :: "meta_lib \<Rightarrow> bool \<Rightarrow> string \<Rightarrow> fields" where
  "received_fields lib shouldLogRawTx rawTx =
     (let hash = RawTxHash lib rawTx
      in [(''rawTxHash'', if hash \<noteq> [] then DText hash else DNull), (''rawTxBytes'', DInt (int (RawTxBytes rawTx)))] @
         (if shouldLogRawTx then [(''rawTx'', DText rawTx)] else []))"

definition DecodedFields :: "meta_lib \<Rightarrow> int \<Rightarrow> Transaction \<Rightarrow> Address \<Rightarrow> uint64 \<Rightarrow> fields" where
  "DecodedFields lib now tx from metaTxGasLimit =
     (let gasModel = DecodeGasModelSuffix lib (tx_data tx);
          expiration = (if Decoded gasModel then ExpirationSeconds gasModel else None)
      in [(''from'', DText (Address_Hex lib from)),
          (''to'', case tx_to tx of None \<Rightarrow> DNull | Some to \<Rightarrow> DText (Address_Hex lib to)),
          (''isDeploy'', DBool (tx_to tx = None)),
          (''nonce'', DUint (tx_nonce tx)),
          (''userGasLimit'', DUint (tx_gas tx)),
          (''metaTxGasLimit'', DUint metaTxGasLimit),
          (''dataBytes'', DInt (int (length (tx_data tx)))),
          (''nodeAddress'', if Decoded gasModel then DText (gm_NodeAddress gasModel) else DNull),
          (''expiration'', case expiration of None \<Rightarrow> DNull | Some e \<Rightarrow> DUint e),
          (''expiresInSeconds'', case expiration of None \<Rightarrow> DNull | Some e \<Rightarrow> DInt (go_int64 (int64_of_uint64 e - now))),
          (''selector'', if Decoded gasModel \<and> Selector gasModel \<noteq> [] then DText (Selector gasModel) else DNull)])"

section \<open>The signature and the gas\<close>

text \<open>
  \<open>fmt.Sprintf("%064x", v)\<close>, decoded and copied into 32 bytes: digits beyond the first 64 are cut off,
  and an odd number of digits loses the last one.
\<close>

definition pad64 :: "string \<Rightarrow> string" where
  "pad64 v = replicate (64 - length v) CHR ''0'' @ v"

definition signature_word :: "nat \<Rightarrow> bytes" where
  "signature_word v = take 32 (fst (hex_DecodeString (pad64 (hex_nat v))))"

definition metaTxGasLimit_of :: "Transaction \<Rightarrow> uint64" where
  "metaTxGasLimit_of tx = word_of_nat (length (tx_data tx) * 105 + 300000) + tx_gas tx"

section \<open>Preparing\<close>

record prepare_env =
  pr_now :: time
  pr_answered :: time
  pr_unix :: int
  pr_rules :: rules_env
  pr_logRawTx :: bool

definition bad_signature :: go_error where "bad_signature = errors_New ''bad signature ECDSA'' (- 32000)"

definition not_pre_EIP155 :: go_error where
  "not_pre_EIP155 = errors_New ''transaction must be signed pre-EIP155 (chainId=0, v=27 or 28)'' (- 32000)"

definition sender_not_permitted :: go_error where
  "sender_not_permitted = errors_New ''account sender is not permitted to send transactions'' (- 32000)"

text \<open>The part that only looks at the transaction: the signature values, their form, and the signer.\<close>

definition check_signature :: "meta_lib \<Rightarrow> Transaction \<Rightarrow> Rejection + (nat \<times> nat \<times> nat \<times> Address)" where
  "check_signature lib tx =
     (case (tx_v tx, tx_r tx, tx_s tx) of
        (Some v, Some r, Some s) \<Rightarrow>
          (let vUint = (word_of_nat v :: uint64)
           in if vUint \<noteq> 27 \<and> vUint \<noteq> 28 then Inl (Reject not_pre_EIP155 CodeBadMetaTx)
              else case AsMessage_From lib tx of
                     Inl e \<Rightarrow> Inl (Reject e CodeBadMetaTx)
                   | Inr from \<Rightarrow> Inr (v, r, s, from))
      | _ \<Rightarrow> Inl (Reject bad_signature CodeBadMetaTx))"

definition check_sender ::
    "prepare_env \<Rightarrow> Address \<Rightarrow> RelaySignerService \<Rightarrow> Rejection option \<times> RelaySignerService" where
  "check_sender env from s =
     (if \<not> permissionsEnabled s then (None, s)
      else case VerifySender (pr_now env) (pr_answered env) (pr_rules env) from s of
             (Inl e, s1) \<Rightarrow> (Some (Reject e CodePermissioningUnavailable), s1)
           | (Inr p, s1) \<Rightarrow> (if p then None else Some (Reject sender_not_permitted CodeSenderNotPermitted), s1))"

definition signing_data :: "Transaction \<Rightarrow> txdata" where
  "signing_data tx =
     (case tx_to tx of
        Some to \<Rightarrow> NewTransaction (tx_nonce tx) to (tx_value tx) (tx_gas tx) (tx_gasPrice tx) (tx_data tx)
      | None \<Rightarrow> NewContractCreation (tx_nonce tx) (tx_value tx) (tx_gas tx) (tx_gasPrice tx) (tx_data tx))"

definition prepared_of :: "meta_lib \<Rightarrow> Transaction \<Rightarrow> nat \<Rightarrow> nat \<Rightarrow> nat \<Rightarrow> Address \<Rightarrow> bytes \<Rightarrow> PreparedMetaTx" where
  "prepared_of lib tx v r s from rlp =
     \<lparr>From = from, To = tx_to tx, SigningData = rlp, V = ucast (word_of_nat v :: uint64), R = signature_word r,
      S = signature_word s, Nonce = tx_nonce tx, MetaTxGasLimit = metaTxGasLimit_of tx, IsDeploy = (tx_to tx = None),
      SenderKey = Address_Hex lib from\<rparr>"

text \<open>
  The whole of \<open>PrepareMetaTx\<close>; the decoded transaction that the struct also holds is returned beside
  it. The node's address is that of the configured key.
\<close>

definition PrepareMetaTx ::
    "meta_lib \<Rightarrow> prepare_env \<Rightarrow> string \<Rightarrow> RelaySignerService \<Rightarrow>
       (Rejection + Transaction \<times> PreparedMetaTx) \<times> log_entry list \<times> RelaySignerService" where
  "PrepareMetaTx lib env rawTx s =
     (let received = (LevelInfo, ''relay.received'', received_fields lib (pr_logRawTx env) rawTx) in
      case GetTransaction lib (trimHexPrefix rawTx) of
        Inl e \<Rightarrow> (Inl (Reject e CodeBadRawTx), [received], s)
      | Inr tx \<Rightarrow>
          (case check_signature lib tx of
             Inl r \<Rightarrow> (Inl r, [received], s)
           | Inr (v, r, sv, from) \<Rightarrow>
               (let decoded = (LevelInfo, ''relay.decoded'', DecodedFields lib (pr_unix env) tx from (metaTxGasLimit_of tx));
                    node = (case Cfg s of Some c \<Rightarrow> NodeAddress_of lib c | None \<Rightarrow> Inl (errors_New [] 0))
                in case validateGasModelSuffix lib node (pr_unix env) (tx_data tx) s of
                     (Some rej, lg) \<Rightarrow> (Inl rej, received # decoded # lg, s)
                   | (None, lg) \<Rightarrow>
                       (case check_sender env from s of
                          (Some rej, s1) \<Rightarrow> (Inl rej, received # decoded # lg, s1)
                        | (None, s1) \<Rightarrow>
                            (case rlp_EncodeToBytes lib (signing_data tx) of
                               Inl _ \<Rightarrow>
                                 (Inl (Reject (errors_New ''internal error'' (- 32603)) CodeRelayError), received # decoded # lg, s1)
                             | Inr rlp \<Rightarrow> (Inr (tx, prepared_of lib tx v r sv from rlp), received # decoded # lg, s1))))))"

section \<open>Sending\<close>

text \<open>
  \<open>ReserveGasAndSend\<close>: with reordering on a request starts at the gate; with it off it goes straight
  into the critical section, which is then one sequential call.
\<close>

definition ReserveGasAndSend ::
    "time \<Rightarrow> Hash list \<Rightarrow> (Hash \<Rightarrow> string) \<Rightarrow> gas_env \<Rightarrow> broadcast_env \<Rightarrow> Context \<Rightarrow> PreparedMetaTx \<Rightarrow>
       RelaySignerService \<times> uint64 \<Rightarrow> thread + ((relay_error + Hash \<times> fields) \<times> RelaySignerService \<times> uint64)" where
  "ReserveGasAndSend now order hex genv env ctx p sg =
     (if reorderEnabled (fst sg) then Inl \<lparr>th_tx = p, th_ctx = ctx, th_pc = AtGate\<rparr>
      else Inr (reserveGasAndSend now order hex genv env ctx p sg))"

section \<open>The signature words\<close>

fun hexw :: "nat \<Rightarrow> nat \<Rightarrow> string" where
  "hexw 0 v = []"
| "hexw (Suc k) v = hexw k (v div 16) @ [digit_char (v mod 16)]"

lemma digit_char_0: "digit_char 0 = CHR ''0''"
  by (simp add: digit_char_def)

lemma hexw_0: "hexw k 0 = replicate k CHR ''0''"
  by (induction k) (simp_all add: digit_char_0 replicate_append_same)

lemma hexw_pad: "v < 16 ^ k \<Longrightarrow> 0 < k \<Longrightarrow> hexw k v = replicate (k - length (hex_nat v)) CHR ''0'' @ hex_nat v"
proof (induction k arbitrary: v)
  case (Suc k)
  show ?case
  proof (cases "v < 16")
    case True
    then show ?thesis by (simp add: hex_nat_def digits_in.simps hexw_0 digit_char_def)
  next
    case False
    then have k: "0 < k" "v div 16 < 16 ^ k" using Suc.prems by (cases k; simp add: less_mult_imp_div_less)+
    have "hex_nat v = hex_nat (v div 16) @ [digit_char (v mod 16)]"
      using False by (simp add: hex_nat_def digits_in.simps [of 16 v])
    with Suc.IH [OF k(2,1)] show ?thesis by simp
  qed
qed simp

lemma hexw_bytes: "hexw (2 * k) v = hex_EncodeToString (be_bytes k v)"
proof (induction k arbitrary: v)
  case (Suc k)
  have "unat (word_of_nat (v mod 256) :: byte) = v mod 256" by (simp add: unat_of_nat)
  moreover have "v div 16 mod 16 = v mod 256 div 16" "v mod 256 mod 16 = v mod 16" "v div 16 div 16 = v div 256"
    by (simp_all add: div_mult2_eq [symmetric] mod_mod_cancel) (simp add: modulo_nat_def div_mult2_eq [symmetric])
  ultimately show ?case
    using Suc.IH [of "v div 256"] by (simp add: hex_EncodeToString_def hex_byte_def)
qed (simp add: hex_EncodeToString_def)

lemma signature_word_bytes: "v < 2 ^ 256 \<Longrightarrow> signature_word v = be_bytes 32 v"
proof -
  assume "v < 2 ^ 256"
  then have "pad64 (hex_nat v) = hex_EncodeToString (be_bytes 32 v)"
    using hexw_pad [of v 64] hexw_bytes [of 32 v] by (simp add: pad64_def del: hexw.simps be_bytes.simps)
  then show ?thesis by (simp add: signature_word_def hex_Decode_Encode del: be_bytes.simps)
qed

section \<open>What a prepared metatx has passed\<close>

lemma check_signature_ok:
  "check_signature lib tx = Inr (v, r, s, from) \<Longrightarrow>
     tx_v tx = Some v \<and> tx_r tx = Some r \<and> tx_s tx = Some s \<and> AsMessage_From lib tx = Inr from \<and>
     (word_of_nat v :: uint64) \<in> {27, 28}"
  by (auto simp: check_signature_def Let_def split: option.splits if_splits sum.splits)

lemma check_sender_ok:
  "check_sender env from s = (None, s1) \<Longrightarrow> permissionsEnabled s \<Longrightarrow>
     fst (VerifySender (pr_now env) (pr_answered env) (pr_rules env) from s) = Inr True"
  by (auto simp: check_sender_def split: prod.splits sum.splits if_splits)

text \<open>
  C12: only a metatx that passed every check is handed to the send path. It was decoded from the raw
  transaction, carries a signature of the old form from the sender it names, goes out with that
  sender's nonce and with the signature's own numbers in 32 bytes each, was not refused for its
  suffix, and, when permissions are demanded, its sender is permitted.
\<close>

theorem PrepareMetaTx_passed_every_check:
  assumes "PrepareMetaTx lib env rawTx s = (Inr (tx, p), lg, s')" "the (tx_r tx) < 2 ^ 256" "the (tx_s tx) < 2 ^ 256"
    "Cfg s = Some c"
  shows "GetTransaction lib (trimHexPrefix rawTx) = Inr tx \<and> AsMessage_From lib tx = Inr (From p) \<and>
    V p \<in> {27, 28} \<and> SenderKey p = Address_Hex lib (From p) \<and> Nonce p = tx_nonce tx \<and>
    big_of_bytes (R p) = the (tx_r tx) \<and> big_of_bytes (S p) = the (tx_s tx) \<and> length (R p) = 32 \<and> length (S p) = 32 \<and>
    fst (validateGasModelSuffix lib (NodeAddress_of lib c) (pr_unix env) (tx_data tx) s) = None \<and>
    (permissionsEnabled s \<longrightarrow> fst (VerifySender (pr_now env) (pr_answered env) (pr_rules env) (From p) s) = Inr True)"
proof -
  from assms(1,4) obtain v r sv rlp s1 where ok:
      "GetTransaction lib (trimHexPrefix rawTx) = Inr tx" "check_signature lib tx = Inr (v, r, sv, From p)"
      "fst (validateGasModelSuffix lib (NodeAddress_of lib c) (pr_unix env) (tx_data tx) s) = None"
      "check_sender env (From p) s = (None, s1)" "p = prepared_of lib tx v r sv (From p) rlp"
    by (auto simp: PrepareMetaTx_def Let_def prepared_of_def split: sum.splits prod.splits option.splits)
  note sig = check_signature_ok [OF ok(2)]
  have "signature_word r = be_bytes 32 r" "signature_word sv = be_bytes 32 sv"
    using sig assms(2,3) by (auto intro: signature_word_bytes)
  moreover have "r < 256 ^ 32" "sv < 256 ^ 32" using sig assms(2,3) by simp_all
  ultimately have "big_of_bytes (R p) = r" "big_of_bytes (S p) = sv" "length (R p) = 32" "length (S p) = 32"
    by (subst ok(5), simp add: prepared_of_def big_of_be_bytes del: be_bytes.simps)+
  moreover have "V p \<in> {27, 28}" using sig by (subst ok(5)) (auto simp: prepared_of_def)
  moreover have "SenderKey p = Address_Hex lib (From p)" "Nonce p = tx_nonce tx"
    by (subst ok(5), simp add: prepared_of_def)+
  ultimately show ?thesis using ok(1,3) sig check_sender_ok [OF ok(4)] by simp
qed

text \<open>
  Every raw transaction leaves a trace. The first event is always \<open>relay.received\<close>, however
  malformed the input, and the second, for every input whose signature could be read, is
  \<open>relay.decoded\<close>; so every refusal for the suffix, the permissions or the nonce comes after both.
\<close>

theorem PrepareMetaTx_always_leaves_a_trace:
  "\<exists>rest. fst (snd (PrepareMetaTx lib env rawTx s)) =
     (LevelInfo, ''relay.received'', received_fields lib (pr_logRawTx env) rawTx) # rest \<and>
   (case GetTransaction lib (trimHexPrefix rawTx) of
      Inl _ \<Rightarrow> rest = []
    | Inr tx \<Rightarrow>
        (case check_signature lib tx of
           Inl _ \<Rightarrow> rest = []
         | Inr (v, r, sv, from) \<Rightarrow>
             \<exists>more. rest = (LevelInfo, ''relay.decoded'', DecodedFields lib (pr_unix env) tx from (metaTxGasLimit_of tx)) # more))"
  by (auto simp: PrepareMetaTx_def Let_def split: sum.split prod.split option.split)

text \<open>
  A raw transaction is read the same with and without its prefix, in lower or upper case, and what
  is decoded is exactly the bytes the client encoded.
\<close>

theorem raw_transaction_roundtrip:
  "GetTransaction lib (trimHexPrefix (''0x'' @ hex_EncodeToString bs)) = Inr (rlp_DecodeBytes lib bs) \<and>
   GetTransaction lib (trimHexPrefix (''0X'' @ hex_EncodeToString bs)) = Inr (rlp_DecodeBytes lib bs) \<and>
   RawTxHash lib (''0x'' @ hex_EncodeToString bs) = ''0x'' @ hex_EncodeToString (Keccak256 lib bs) \<and>
   RawTxBytes (''0x'' @ hex_EncodeToString bs) = length bs"
proof -
  have "TrimPrefix (''0x'' @ v) ''0x'' = v" for v by (rule TrimPrefix_append)
  then show ?thesis
    by (simp add: trimHexPrefix_def GetTransaction_def RawTxHash_def RawTxBytes_def hex_Decode_Encode)
qed

section \<open>A concrete metatx\<close>

definition sample_prepare_env :: prepare_env where
  "sample_prepare_env = \<lparr>pr_now = 0, pr_answered = 0, pr_unix = 1700000000, pr_rules = sample_rules_env, pr_logRawTx = False\<rparr>"

theorem PrepareMetaTx_passed_every_check_witness:
  "\<exists>tx p lg s'. PrepareMetaTx sample_meta_lib sample_prepare_env ''0x'' enforcing_service = (Inr (tx, p), lg, s') \<and>
     Nonce p = 5 \<and> big_of_bytes (R p) = 1 \<and>
     fst (VerifySender 0 0 sample_rules_env (From p) enforcing_service) = Inr True"
proof -
  let ?tx = "rlp_DecodeBytes sample_meta_lib []"
  obtain p lg s' where run: "PrepareMetaTx sample_meta_lib sample_prepare_env ''0x'' enforcing_service = (Inr (?tx, p), lg, s')"
    by (simp add: PrepareMetaTx_def Let_def GetTransaction_def trimHexPrefix_def check_signature_def check_sender_def
        sample_meta_lib_def eth_lib.defs validateGasModelSuffix_def validationConfig_def permissionsEnabled_def VerifySender_def
        AccountPermitted_def accountRulesOf_def cached_def sample_prepare_env_def enforcing_defs DefaultValidationConfig_def)
  have sig: "tx_r ?tx = Some 1" "tx_s ?tx = Some 2" "tx_nonce ?tx = 5" by (simp_all add: sample_meta_lib_def eth_lib.defs)
  obtain c where c: "Cfg enforcing_service = Some c" "permissionsEnabled enforcing_service"
    by (simp add: enforcing_service_def new_service_def permissionsEnabled_def sample_config_def)
  from PrepareMetaTx_passed_every_check [OF run _ _ c(1)] run sig c(2) show ?thesis
    by (auto simp: sample_prepare_env_def)
qed

end
