(* ===== verification/Handout.thy ===== *)
theory Handout
  imports Send
begin

text \<open>
  \<open>service/handout.go\<close> and \<open>service/nonce.go\<close>: the queue in which the clients of one user take their
  nonces. Every request takes a ticket, waits until the ticket before its own is closed, reads the
  expected nonce, and leaves its ticket open until its metatx arrives or the ticket expires. Requests
  run concurrently; each is a thread whose program counter names its next atomic step.
\<close>

section \<open>Settings\<close>

definition autoNonceEnabled :: "RelaySignerService \<Rightarrow> bool" where
  "autoNonceEnabled s = (case Cfg s of Some c \<Rightarrow> AutoNonce (Reorder c) | None \<Rightarrow> False)"

definition ticketWindow :: "RelaySignerService \<Rightarrow> duration" where
  "ticketWindow s =
     (case Cfg s of
        Some c \<Rightarrow> if AutoNonceTicketMs (Reorder c) > 0 then go_int64 (AutoNonceTicketMs (Reorder c) * millisecond)
                  else DefaultReorderAutoNonceTicketMs * millisecond
      | None \<Rightarrow> DefaultReorderAutoNonceTicketMs * millisecond)"

section \<open>One request for a nonce\<close>

datatype handout_pc =
    HEnqueue
  | HWait ref "ref option"
  | HExpect ref
  | HOpen ref uint64
  | HDone ref "go_error + uint64" time
  | HPeek
  | HPeeked "go_error + uint64"

record handout =
  h_from :: string
  h_peek :: bool
  h_pc :: handout_pc

definition h_key :: "handout \<Rightarrow> string" where
  "h_key h = senderKey (h_from h)"

record handout_sys =
  h_svc :: RelaySignerService
  h_threads :: "nat \<rightharpoonup> handout"

definition h_goto :: "nat \<Rightarrow> handout \<Rightarrow> handout_pc \<Rightarrow> RelaySignerService \<Rightarrow> handout_sys \<Rightarrow> handout_sys" where
  "h_goto pid h pc s \<sigma> = \<sigma>\<lparr>h_svc := s, h_threads := (h_threads \<sigma>)(pid \<mapsto> h\<lparr>h_pc := pc\<rparr>)\<rparr>"

definition HandOutNonce_start :: "RelaySignerService \<Rightarrow> bool \<Rightarrow> handout_pc" where
  "HandOutNonce_start s peek = (if \<not> autoNonceEnabled s \<or> peek then HPeek else HEnqueue)"

text \<open>
  The steps of \<open>HandOutNonce\<close>. The channel receive is enabled once the previous ticket is closed;
  a request that cannot be answered closes its own ticket. A finished request remembers when its
  ticket expires.
\<close>

definition HandOutNonce_step :: "time \<Rightarrow> node_env \<Rightarrow> nat \<Rightarrow> handout \<Rightarrow> handout_sys \<Rightarrow> handout_sys option" where
  "HandOutNonce_step now env pid h \<sigma> =
     (let s = h_svc \<sigma>; key = h_key h in
      case h_pc h of
        HPeek \<Rightarrow> (case expectedNonce now env (h_from h) s of (r, s1) \<Rightarrow> Some (h_goto pid h (HPeeked r) s1 \<sigma>))
      | HPeeked _ \<Rightarrow> None
      | HEnqueue \<Rightarrow> (case new_ticket key s of (mine, s1) \<Rightarrow> Some (h_goto pid h (HWait mine (handouts s key)) s1 \<sigma>))
      | HWait mine previous \<Rightarrow>
          (case previous of
             None \<Rightarrow> Some (h_goto pid h (HExpect mine) s \<sigma>)
           | Some p \<Rightarrow> if ticket_closed (ticket_heap s p) then Some (h_goto pid h (HExpect mine) s \<sigma>) else None)
      | HExpect mine \<Rightarrow>
          (case expectedNonce now env (h_from h) s of
             (Inl e, s1) \<Rightarrow> Some (h_goto pid h (HDone mine (Inl e) now) (closeTicket key mine s1) \<sigma>)
           | (Inr n, s1) \<Rightarrow> Some (h_goto pid h (HOpen mine n) s1 \<sigma>))
      | HOpen mine n \<Rightarrow>
          Some (h_goto pid h (HDone mine (Inr n) (now + ticketWindow s)) (s\<lparr>openTickets := (openTickets s)(key \<mapsto> mine)\<rparr>) \<sigma>)
      | HDone _ _ _ \<Rightarrow> None)"

text \<open>The callback of the ticket's timer.\<close>

definition ticket_expires :: "time \<Rightarrow> handout \<Rightarrow> handout_sys \<Rightarrow> handout_sys option" where
  "ticket_expires now h \<sigma> =
     (case h_pc h of
        HDone mine (Inr _) due \<Rightarrow>
          if due \<le> now then Some (\<sigma>\<lparr>h_svc := closeTicket (h_key h) mine (h_svc \<sigma>)\<rparr>) else None
      | _ \<Rightarrow> None)"

section \<open>The system\<close>

text \<open>
  The send path closes the open ticket of a user when a metatx of that user goes out, and everything
  else the service does leaves the tickets alone.
\<close>

definition same_tickets :: "RelaySignerService \<Rightarrow> RelaySignerService \<Rightarrow> bool" where
  "same_tickets s s' \<longleftrightarrow> handouts s' = handouts s \<and> openTickets s' = openTickets s \<and> ticket_heap s' = ticket_heap s \<and>
     fresh s \<le> fresh s' \<and> Cfg s' = Cfg s"

inductive handout_step :: "handout_sys \<Rightarrow> handout_sys \<Rightarrow> bool" where
  handout_request: "h_threads \<sigma> pid = None \<Longrightarrow>
     handout_step \<sigma> (\<sigma>\<lparr>h_threads := (h_threads \<sigma>)(pid \<mapsto>
       \<lparr>h_from = from, h_peek = peek, h_pc = HandOutNonce_start (h_svc \<sigma>) peek\<rparr>)\<rparr>)"
| handout_thread: "h_threads \<sigma> pid = Some h \<Longrightarrow> HandOutNonce_step now env pid h \<sigma> = Some \<sigma>' \<Longrightarrow> handout_step \<sigma> \<sigma>'"
| handout_expiry: "h_threads \<sigma> pid = Some h \<Longrightarrow> ticket_expires now h \<sigma> = Some \<sigma>' \<Longrightarrow> handout_step \<sigma> \<sigma>'"
| handout_sent: "handout_step \<sigma> (\<sigma>\<lparr>h_svc := closeOpenTicket key (h_svc \<sigma>)\<rparr>)"
| handout_other: "same_tickets (h_svc \<sigma>) s' \<Longrightarrow> handout_step \<sigma> (\<sigma>\<lparr>h_svc := s'\<rparr>)"

inductive handout_reach :: "Config \<Rightarrow> handout_sys \<Rightarrow> bool" for cfg where
  handout_init: "handout_reach cfg \<lparr>h_svc = new_service (Some cfg), h_threads = Map.empty\<rparr>"
| handout_next: "handout_reach cfg \<sigma> \<Longrightarrow> handout_step \<sigma> \<sigma>' \<Longrightarrow> handout_reach cfg \<sigma>'"

inductive_cases handout_stepE: "handout_step \<sigma> \<sigma>'"

section \<open>The invariant of the queue\<close>

definition ticket_of :: "handout_pc \<Rightarrow> ref option" where
  "ticket_of pc = (case pc of HWait m _ \<Rightarrow> Some m | HExpect m \<Rightarrow> Some m | HOpen m _ \<Rightarrow> Some m | HDone m _ _ \<Rightarrow> Some m | _ \<Rightarrow> None)"

definition past_wait :: "handout_pc \<Rightarrow> bool" where
  "past_wait pc = (case pc of HExpect _ \<Rightarrow> True | HOpen _ _ \<Rightarrow> True | HDone _ _ _ \<Rightarrow> True | _ \<Rightarrow> False)"

lemmas h_pc_defs = ticket_of_def past_wait_def

type_synonym handouts = "nat \<rightharpoonup> handout"

text \<open>The tickets that requests of one user took.\<close>

definition tickets :: "handouts \<Rightarrow> string \<Rightarrow> ref set" where
  "tickets T key = {m. \<exists>pid h. T pid = Some h \<and> h_key h = key \<and> ticket_of (h_pc h) = Some m}"

abbreviation closed_in :: "RelaySignerService \<Rightarrow> ref \<Rightarrow> bool" where
  "closed_in s m \<equiv> ticket_closed (ticket_heap s m)"

text \<open>
  Tickets are taken in increasing order. A closed ticket has only closed ones before it, the entry of
  the queue is the newest ticket of its user, a user without an entry has no open ticket, a request
  waits for the newest ticket before its own, and once past the wait every ticket before it is closed.
\<close>

definition tickets_ordered :: "handouts \<Rightarrow> RelaySignerService \<Rightarrow> bool" where
  "tickets_ordered T s \<longleftrightarrow>
     (\<forall>k m. m \<in> tickets T k \<longrightarrow> m < fresh s) \<and>
     (\<forall>k m m'. m \<in> tickets T k \<longrightarrow> m' \<in> tickets T k \<longrightarrow> m' < m \<longrightarrow> closed_in s m \<longrightarrow> closed_in s m')"

definition queue_head :: "handouts \<Rightarrow> RelaySignerService \<Rightarrow> bool" where
  "queue_head T s \<longleftrightarrow>
     (\<forall>k p. handouts s k = Some p \<longrightarrow> p \<in> tickets T k \<and> (\<forall>m. m \<in> tickets T k \<longrightarrow> m \<le> p)) \<and>
     (\<forall>k m. handouts s k = None \<longrightarrow> m \<in> tickets T k \<longrightarrow> closed_in s m)"

definition waiter_ok :: "handouts \<Rightarrow> RelaySignerService \<Rightarrow> handout \<Rightarrow> bool" where
  "waiter_ok T s h \<longleftrightarrow>
     (\<forall>m prev. h_pc h = HWait m prev \<longrightarrow>
        (\<forall>m'. m' \<in> tickets T (h_key h) \<longrightarrow> m' < m \<longrightarrow> closed_in s m' \<or> (\<exists>p. prev = Some p \<and> m' \<le> p)) \<and>
        (\<forall>p. prev = Some p \<longrightarrow> p \<in> tickets T (h_key h) \<and> p < m)) \<and>
     (\<forall>m m'. past_wait (h_pc h) \<longrightarrow> ticket_of (h_pc h) = Some m \<longrightarrow> m' \<in> tickets T (h_key h) \<longrightarrow> m' < m \<longrightarrow> closed_in s m')"

definition tickets_owned :: "handouts \<Rightarrow> RelaySignerService \<Rightarrow> bool" where
  "tickets_owned T s \<longleftrightarrow>
     (\<forall>k m. openTickets s k = Some m \<longrightarrow>
        (\<exists>pid h. T pid = Some h \<and> h_key h = k \<and> past_wait (h_pc h) \<and> ticket_of (h_pc h) = Some m)) \<and>
     (\<forall>pid pid' h h' m. T pid = Some h \<longrightarrow> T pid' = Some h' \<longrightarrow> ticket_of (h_pc h) = Some m \<longrightarrow>
        ticket_of (h_pc h') = Some m \<longrightarrow> pid = pid')"

definition queue_ok :: "handouts \<Rightarrow> RelaySignerService \<Rightarrow> bool" where
  "queue_ok T s \<longleftrightarrow> tickets_ordered T s \<and> queue_head T s \<and> (\<forall>pid h. T pid = Some h \<longrightarrow> waiter_ok T s h) \<and> tickets_owned T s"

lemma queue_okD:
  assumes "queue_ok T s"
  shows "tickets_ordered T s" "queue_head T s" "T pid = Some h \<Longrightarrow> waiter_ok T s h" "tickets_owned T s"
  using assms by (auto simp: queue_ok_def)

lemma queue_okI:
  "tickets_ordered T s \<Longrightarrow> queue_head T s \<Longrightarrow> (\<And>pid h. T pid = Some h \<Longrightarrow> waiter_ok T s h) \<Longrightarrow> tickets_owned T s \<Longrightarrow> queue_ok T s"
  by (simp add: queue_ok_def)

lemma owner_unique:
  "tickets_owned T s \<Longrightarrow> T pid = Some h \<Longrightarrow> T pid' = Some h' \<Longrightarrow> ticket_of (h_pc h) = Some m \<Longrightarrow>
     ticket_of (h_pc h') = Some m \<Longrightarrow> pid = pid'"
  unfolding tickets_owned_def by blast

lemma past_wait_closed:
  "waiter_ok T s h \<Longrightarrow> past_wait (h_pc h) \<Longrightarrow> ticket_of (h_pc h) = Some m \<Longrightarrow> m' \<in> tickets T (h_key h) \<Longrightarrow> m' < m \<Longrightarrow>
     closed_in s m'"
  unfolding waiter_ok_def by blast

lemma ticketsI: "T pid = Some h \<Longrightarrow> ticket_of (h_pc h) = Some m \<Longrightarrow> m \<in> tickets T (h_key h)"
  by (auto simp: tickets_def)

lemma tickets_upd:
  "m \<in> tickets (T(pid \<mapsto> g)) k \<longleftrightarrow>
     (h_key g = k \<and> ticket_of (h_pc g) = Some m) \<or> (\<exists>q h. q \<noteq> pid \<and> T q = Some h \<and> h_key h = k \<and> ticket_of (h_pc h) = Some m)"
  unfolding tickets_def by (auto split: if_splits)

lemma tickets_keep:
  assumes "T pid = Some h" "ticket_of pc = ticket_of (h_pc h)"
  shows "tickets (T(pid \<mapsto> h\<lparr>h_pc := pc\<rparr>)) k = tickets T k"
proof -
  have "tickets (T(pid \<mapsto> h\<lparr>h_pc := pc\<rparr>)) k = tickets (T(pid \<mapsto> h)) k"
    using assms(2) by (intro set_eqI) (simp add: tickets_upd h_key_def)
  with assms(1) show ?thesis by (simp add: fun_upd_idem)
qed

lemma tickets_take:
  assumes "T pid = Some h" "ticket_of (h_pc h) = None" "ticket_of pc = Some m"
  shows "tickets (T(pid \<mapsto> h\<lparr>h_pc := pc\<rparr>)) k = (if k = h_key h then insert m (tickets T k) else tickets T k)"
proof -
  have "tickets (T(pid \<mapsto> h\<lparr>h_pc := pc\<rparr>)) k = (if k = h_key h then insert m (tickets (T(pid \<mapsto> h)) k) else tickets (T(pid \<mapsto> h)) k)"
    using assms(2,3) by (intro set_eqI) (auto simp: tickets_upd h_key_def)
  with assms(1) show ?thesis by (simp add: fun_upd_idem)
qed

lemma tickets_new:
  assumes "T pid = None" "ticket_of (h_pc g) = None"
  shows "tickets (T(pid \<mapsto> g)) k = tickets T k"
proof -
  have "(\<exists>q h. q \<noteq> pid \<and> T q = Some h \<and> h_key h = k \<and> ticket_of (h_pc h) = Some m) \<longleftrightarrow> m \<in> tickets T k" for m
  proof
    assume "m \<in> tickets T k"
    then obtain q h where q: "T q = Some h" "h_key h = k" "ticket_of (h_pc h) = Some m" by (auto simp: tickets_def)
    moreover from this assms(1) have "q \<noteq> pid" by auto
    ultimately show "\<exists>q h. q \<noteq> pid \<and> T q = Some h \<and> h_key h = k \<and> ticket_of (h_pc h) = Some m" by blast
  qed (auto simp: tickets_def)
  with assms(2) show ?thesis by (intro set_eqI) (simp add: tickets_upd)
qed

lemma h_key_pc [simp]: "h_key (h\<lparr>h_pc := pc\<rparr>) = h_key h"
  by (simp add: h_key_def)

lemma queue_ok_same: "queue_ok T s \<Longrightarrow> same_tickets s s' \<Longrightarrow> queue_ok T s'"
  unfolding same_tickets_def queue_ok_def tickets_ordered_def queue_head_def waiter_ok_def tickets_owned_def
  by (auto intro: order_less_le_trans)

text \<open>A request that keeps its ticket; one that stops waiting has only closed tickets before its own.\<close>

lemma queue_ok_move:
  assumes ok: "queue_ok T s" and th: "T pid = Some h" and tk: "ticket_of pc = ticket_of (h_pc h)"
    and pw: "past_wait (h_pc h) \<Longrightarrow> past_wait pc" and self: "waiter_ok T s (h\<lparr>h_pc := pc\<rparr>)"
  shows "queue_ok (T(pid \<mapsto> h\<lparr>h_pc := pc\<rparr>)) s"
proof -
  let ?T = "T(pid \<mapsto> h\<lparr>h_pc := pc\<rparr>)"
  note ts = tickets_keep [where T = T and pid = pid and h = h and pc = pc, OF th tk]
  show ?thesis
  proof (rule queue_okI)
    show "tickets_ordered ?T s" "queue_head ?T s"
      using queue_okD(1,2) [OF ok] by (simp_all add: tickets_ordered_def queue_head_def ts)
    fix q g
    assume "?T q = Some g"
    moreover have "waiter_ok ?T s g = waiter_ok T s g" by (simp add: waiter_ok_def ts)
    ultimately show "waiter_ok ?T s g" using self queue_okD(3) [OF ok, of q g] by (auto split: if_splits)
  next
    have own: "\<exists>q g. ?T q = Some g \<and> h_key g = k \<and> past_wait (h_pc g) \<and> ticket_of (h_pc g) = Some m"
      if "T q0 = Some g0" "h_key g0 = k" "past_wait (h_pc g0)" "ticket_of (h_pc g0) = Some m" for q0 g0 k m
    proof (cases "q0 = pid")
      case True
      with that th tk pw show ?thesis by (intro exI [of _ pid] exI [of _ "h\<lparr>h_pc := pc\<rparr>"]) auto
    next
      case False
      with that show ?thesis by (intro exI [of _ q0] exI [of _ g0]) auto
    qed
    have uniq: "q = q'" if "?T q = Some g" "?T q' = Some g'" "ticket_of (h_pc g) = Some m" "ticket_of (h_pc g') = Some m" for q q' g g' m
      using that owner_unique [OF queue_okD(4) [OF ok]] th tk by (auto split: if_splits)
    show "tickets_owned ?T s"
      unfolding tickets_owned_def
    proof (intro conjI allI impI)
      fix k m
      assume "openTickets s k = Some m"
      then obtain q0 g0 where "T q0 = Some g0" "h_key g0 = k" "past_wait (h_pc g0)" "ticket_of (h_pc g0) = Some m"
        using queue_okD(4) [OF ok] unfolding tickets_owned_def by blast
      then show "\<exists>q g. ?T q = Some g \<and> h_key g = k \<and> past_wait (h_pc g) \<and> ticket_of (h_pc g) = Some m" by (rule own)
    qed (rule uniq)
  qed
qed

text \<open>Closing the ticket of a request that is past its wait.\<close>

lemma closeTicket_heap [simp]:
  "closed_in (closeTicket k m s) m' \<longleftrightarrow> m' = m \<or> closed_in s m'"
  "handouts (closeTicket k m s) k' = (if k' = k \<and> handouts s k = Some m then None else handouts s k')"
  "openTickets (closeTicket k m s) k' = (if k' = k \<and> openTickets s k = Some m then None else openTickets s k')"
  by (auto simp: closeTicket_def ticket_close_def upd_ticket_def Let_def)

declare closeTicket_def [simp del]

lemma queue_ok_close:
  assumes ok: "queue_ok T s" and th: "T pid = Some h" "past_wait (h_pc h)" "ticket_of (h_pc h) = Some m"
  shows "queue_ok T (closeTicket (h_key h) m s)"
proof (rule queue_okI)
  have owner: "k = h_key h" if "m \<in> tickets T k" for k
    using that owner_unique [OF queue_okD(4) [OF ok] _ th(1) _ th(3)] th(1) by (auto simp: tickets_def)
  have before: "closed_in s m'" if "m' \<in> tickets T (h_key h)" "m' < m" for m'
    by (rule past_wait_closed [OF queue_okD(3) [OF ok th(1)] th(2,3) that])
  show "tickets_ordered T (closeTicket (h_key h) m s)"
    using queue_okD(1) [OF ok] owner before unfolding tickets_ordered_def by (auto; metis)
  show "queue_head T (closeTicket (h_key h) m s)"
    using queue_okD(2) [OF ok] before unfolding queue_head_def by (auto simp: order_le_less split: if_splits)
  show "waiter_ok T (closeTicket (h_key h) m s) g" if "T q = Some g" for q g
    using queue_okD(3) [OF ok that] unfolding waiter_ok_def by auto
  show "tickets_owned T (closeTicket (h_key h) m s)"
    using queue_okD(4) [OF ok] unfolding tickets_owned_def by (auto split: if_splits)
qed

lemma queue_ok_closeOpen:
  assumes "queue_ok T s" shows "queue_ok T (closeOpenTicket key s)"
proof (cases "openTickets s key")
  case None
  with assms show ?thesis by (simp add: closeOpenTicket_def)
next
  case (Some m)
  then obtain pid h where "T pid = Some h" "h_key h = key" "past_wait (h_pc h)" "ticket_of (h_pc h) = Some m"
    using queue_okD(4) [OF assms] unfolding tickets_owned_def by blast
  with queue_ok_close [OF assms, of pid h m] Some show ?thesis by (simp add: closeOpenTicket_def)
qed

text \<open>Taking a ticket, which is newer than every other.\<close>

lemma waiter_ok_grow:
  assumes "waiter_ok T s h"
    and "\<And>m m'. ticket_of (h_pc h) = Some m \<Longrightarrow> m' \<in> tickets T' (h_key h) \<Longrightarrow> m' < m \<Longrightarrow> m' \<in> tickets T (h_key h)"
    and "\<And>m. m \<in> tickets T (h_key h) \<Longrightarrow> m \<in> tickets T' (h_key h)"
    and "\<And>m. m \<in> tickets T (h_key h) \<Longrightarrow> closed_in s m \<Longrightarrow> closed_in s' m"
  shows "waiter_ok T' s' h"
proof -
  have wait: "ticket_of (h_pc h) = Some m" if "h_pc h = HWait m prev" for m prev
    using that by (simp add: ticket_of_def)
  show ?thesis
    unfolding waiter_ok_def
  proof (intro conjI allI impI)
    fix m prev m'
    assume a: "h_pc h = HWait m prev" "m' \<in> tickets T' (h_key h)" "m' < m"
    from assms(2) [OF wait [OF a(1)] a(2,3)] have t: "m' \<in> tickets T (h_key h)" .
    with assms(1) a have "closed_in s m' \<or> (\<exists>p. prev = Some p \<and> m' \<le> p)" unfolding waiter_ok_def by blast
    with assms(4) [OF t] show "closed_in s' m' \<or> (\<exists>p. prev = Some p \<and> m' \<le> p)" by blast
  next
    fix m m'
    assume a: "past_wait (h_pc h)" "ticket_of (h_pc h) = Some m" "m' \<in> tickets T' (h_key h)" "m' < m"
    from assms(2) [OF a(2,3,4)] have t: "m' \<in> tickets T (h_key h)" .
    from assms(4) [OF t past_wait_closed [OF assms(1) a(1,2) t a(4)]] show "closed_in s' m'" .
  next
    fix m prev p
    assume "h_pc h = HWait m prev" "prev = Some p"
    with assms(1) have "p \<in> tickets T (h_key h)" "p < m" unfolding waiter_ok_def by blast+
    with assms(3) show "p \<in> tickets T' (h_key h)" "p < m" by blast+
  qed
qed

lemma new_ticket_facts:
  "closed_in (snd (new_ticket k s)) m \<longleftrightarrow> m \<noteq> fresh s \<and> closed_in s m" "fresh (snd (new_ticket k s)) = Suc (fresh s)"
  "handouts (snd (new_ticket k s)) k' = (if k' = k then Some (fresh s) else handouts s k')"
  "openTickets (snd (new_ticket k s)) = openTickets s"
  by (simp_all add: new_ticket_def zero_ticket_def)

lemma tickets_fresh: "queue_ok T s \<Longrightarrow> m \<in> tickets T k \<Longrightarrow> m < fresh s"
  using queue_okD(1) [of T s] by (auto simp: tickets_ordered_def)

text \<open>The tickets after one was taken: the new one is added, to its user only.\<close>

lemma tickets_enqueue:
  assumes "T pid = Some h" "h_pc h = HEnqueue"
  shows "tickets (T(pid \<mapsto> h\<lparr>h_pc := HWait m p\<rparr>)) k = (if k = h_key h then insert m (tickets T k) else tickets T k)"
  using tickets_take [of T pid h "HWait m p" m k] assms by (simp add: ticket_of_def)

lemma tickets_ordered_take:
  assumes ok: "queue_ok T s" and th: "T pid = Some h" "h_pc h = HEnqueue"
  shows "tickets_ordered (T(pid \<mapsto> h\<lparr>h_pc := HWait (fresh s) p\<rparr>)) (snd (new_ticket (h_key h) s))" (is "tickets_ordered ?T ?s")
  unfolding tickets_ordered_def
proof (intro conjI allI impI)
  note lt = tickets_fresh [OF ok]
  fix k m
  assume "m \<in> tickets ?T k"
  then show "m < fresh ?s" using lt [of m k] by (auto simp: tickets_enqueue [where T = T and pid = pid and h = h, OF th] new_ticket_facts split: if_splits)
next
  note lt = tickets_fresh [OF ok] and ts = tickets_enqueue [where T = T and pid = pid and h = h, OF th, of "fresh s" p]
  fix k m m'
  assume a: "m \<in> tickets ?T k" "m' \<in> tickets ?T k" "m' < m" "closed_in ?s m"
  then have "m \<noteq> fresh s" "closed_in s m" using new_ticket_facts(1) by blast+
  moreover from this a have t: "m \<in> tickets T k" by (auto simp: ts split: if_splits)
  moreover from lt [OF t] a have "m' \<in> tickets T k" "m' \<noteq> fresh s" by (auto simp: ts split: if_splits)
  ultimately show "closed_in ?s m'"
    using queue_okD(1) [OF ok] a(3) unfolding tickets_ordered_def new_ticket_facts by blast
qed

lemma waiter_ok_take:
  assumes ok: "queue_ok T s" and th: "T pid = Some h" "h_pc h = HEnqueue"
  defines "T' \<equiv> T(pid \<mapsto> h\<lparr>h_pc := HWait (fresh s) (handouts s (h_key h))\<rparr>)"
  assumes g: "T' q = Some g"
  shows "waiter_ok T' (snd (new_ticket (h_key h) s)) g"
proof (cases "q = pid")
  note lt = tickets_fresh [OF ok] and ts = tickets_enqueue [where T = T and pid = pid and h = h, OF th, of "fresh s" "handouts s (h_key h)"] and heap = new_ticket_facts
  {
    case True
    with g have "g = h\<lparr>h_pc := HWait (fresh s) (handouts s (h_key h))\<rparr>" by (simp add: T'_def)
    moreover have "tickets T' (h_key h) = insert (fresh s) (tickets T (h_key h))" by (simp add: ts T'_def)
    moreover have "closed_in s m' \<or> (\<exists>p. handouts s (h_key h) = Some p \<and> m' \<le> p)" if "m' \<in> tickets T (h_key h)" for m'
      using queue_okD(2) [OF ok] that unfolding queue_head_def by (cases "handouts s (h_key h)") auto
    moreover have "p \<in> tickets T (h_key h)" if "handouts s (h_key h) = Some p" for p
      using queue_okD(2) [OF ok] that unfolding queue_head_def by blast
    ultimately show ?thesis using lt [of _ "h_key h"] by (auto simp: waiter_ok_def heap past_wait_def)
  next
    case False
    with g have g': "T q = Some g" by (simp add: T'_def)
    have old: "m < fresh s" if "ticket_of (h_pc g) = Some m" for m
      using lt ticketsI [of T q g m] g' that by fastforce
    from queue_okD(3) [OF ok g'] show ?thesis
      by (rule waiter_ok_grow) (use old lt in \<open>auto simp: T'_def ts heap dest: order_less_trans split: if_splits\<close>)
  }
qed

lemma tickets_owned_take:
  assumes ok: "queue_ok T s" and th: "T pid = Some h" "h_pc h = HEnqueue"
  shows "tickets_owned (T(pid \<mapsto> h\<lparr>h_pc := HWait (fresh s) p\<rparr>)) (snd (new_ticket (h_key h) s))" (is "tickets_owned ?T ?s")
  unfolding tickets_owned_def new_ticket_facts
proof (intro conjI allI impI)
  fix k m
  assume "openTickets s k = Some m"
  then obtain q g where g: "T q = Some g" "h_key g = k" "past_wait (h_pc g)" "ticket_of (h_pc g) = Some m"
    using queue_okD(4) [OF ok] unfolding tickets_owned_def by blast
  then have "q \<noteq> pid" using th by (auto simp: past_wait_def)
  with g show "\<exists>q g. ?T q = Some g \<and> h_key g = k \<and> past_wait (h_pc g) \<and> ticket_of (h_pc g) = Some m"
    by (intro exI [of _ q] exI [of _ g]) simp
next
  have old: "m \<noteq> fresh s" if "T q = Some g" "ticket_of (h_pc g) = Some m" for q g m
    using tickets_fresh [OF ok] ticketsI [of T q g m] that by fastforce
  fix q q' g g' m
  assume "?T q = Some g" "?T q' = Some g'" "ticket_of (h_pc g) = Some m" "ticket_of (h_pc g') = Some m"
  then show "q = q'"
    using owner_unique [OF queue_okD(4) [OF ok], of q g q' g' m] old [of q g m] old [of q' g' m]
    by (auto simp: ticket_of_def split: if_splits)
qed

lemma queue_ok_take:
  assumes ok: "queue_ok T s" and th: "T pid = Some h" "h_pc h = HEnqueue"
  shows "queue_ok (T(pid \<mapsto> h\<lparr>h_pc := HWait (fresh s) (handouts s (h_key h))\<rparr>)) (snd (new_ticket (h_key h) s))"
  using tickets_ordered_take [OF assms] waiter_ok_take [OF assms] tickets_owned_take [OF assms]
proof (intro queue_okI)
  show "queue_head (T(pid \<mapsto> h\<lparr>h_pc := HWait (fresh s) (handouts s (h_key h))\<rparr>)) (snd (new_ticket (h_key h) s))"
    using queue_okD(2) [OF ok] tickets_fresh [OF ok] unfolding queue_head_def
    by (auto simp: tickets_enqueue [where T = T and pid = pid and h = h, OF th] new_ticket_facts order_less_imp_le split: if_splits)
qed blast+

section \<open>Every step keeps the queue\<close>

lemma same_tickets_expected: "same_tickets s (snd (expectedNonce now env from s))"
  by (simp add: same_tickets_def expectedNonce_eq)

lemma waiter_ok_other:
  "\<forall>m prev. pc \<noteq> HWait m prev \<Longrightarrow> \<not> past_wait pc \<Longrightarrow> waiter_ok T s (h\<lparr>h_pc := pc\<rparr>)"
  by (simp add: waiter_ok_def)

lemma waiter_ok_stay:
  "waiter_ok T s h \<Longrightarrow> past_wait (h_pc h) \<Longrightarrow> ticket_of pc = ticket_of (h_pc h) \<Longrightarrow> \<forall>m prev. pc \<noteq> HWait m prev \<Longrightarrow>
     waiter_ok T s (h\<lparr>h_pc := pc\<rparr>)"
  by (simp add: waiter_ok_def)

lemma waiter_ok_go:
  assumes "waiter_ok T s h" "h_pc h = HWait m prev" "tickets_ordered T s" "\<forall>p. prev = Some p \<longrightarrow> closed_in s p"
  shows "waiter_ok T s (h\<lparr>h_pc := HExpect m\<rparr>)"
proof -
  have "closed_in s m'" if m': "m' \<in> tickets T (h_key h)" "m' < m" for m'
  proof (rule ccontr)
    assume open_: "\<not> closed_in s m'"
    with assms(1,2) m' obtain p where p: "prev = Some p" "m' \<le> p" "p \<in> tickets T (h_key h)"
      unfolding waiter_ok_def by blast
    with assms(4) open_ have "closed_in s p" "m' < p" by (auto simp: order_le_less)
    with assms(3) m'(1) p(3) open_ show False unfolding tickets_ordered_def by blast
  qed
  then show ?thesis by (simp add: waiter_ok_def ticket_of_def)
qed

lemma queue_ok_goto:
  assumes ok: "queue_ok (h_threads \<sigma>) (h_svc \<sigma>)" and th: "h_threads \<sigma> pid = Some h"
    and "same_tickets (h_svc \<sigma>) s" "ticket_of pc = ticket_of (h_pc h)" "past_wait (h_pc h) \<Longrightarrow> past_wait pc"
    "waiter_ok (h_threads \<sigma>) (h_svc \<sigma>) (h\<lparr>h_pc := pc\<rparr>)"
  shows "queue_ok (h_threads (h_goto pid h pc s \<sigma>)) (h_svc (h_goto pid h pc s \<sigma>))"
  using queue_ok_same [OF queue_ok_move [OF ok th assms(4,5,6)] assms(3)] by (simp add: h_goto_def)

lemma same_tickets_refl [simp]: "same_tickets s s"
  by (simp add: same_tickets_def)

lemma tickets_owned_open:
  assumes "tickets_owned T s" "T pid = Some g" "h_key g = h_key h" "past_wait (h_pc g)" "ticket_of (h_pc g) = Some m"
  shows "tickets_owned T (s\<lparr>openTickets := (openTickets s)(h_key h \<mapsto> m)\<rparr>)"
  unfolding tickets_owned_def
proof (intro conjI allI impI)
  fix k m'
  assume op: "openTickets (s\<lparr>openTickets := (openTickets s)(h_key h \<mapsto> m)\<rparr>) k = Some m'"
  show "\<exists>pid h. T pid = Some h \<and> h_key h = k \<and> past_wait (h_pc h) \<and> ticket_of (h_pc h) = Some m'"
  proof (cases "k = h_key h")
    case True
    with assms(2-5) op show ?thesis by (intro exI [of _ pid] exI [of _ g]) simp
  next
    case False
    with op have "openTickets s k = Some m'" by simp
    with assms(1) show ?thesis unfolding tickets_owned_def by blast
  qed
qed (rule owner_unique [OF assms(1)])

lemma queue_ok_expect:
  assumes ok: "queue_ok (h_threads \<sigma>) (h_svc \<sigma>)" and th: "h_threads \<sigma> pid = Some h" and pc0: "h_pc h = HExpect m"
    and step: "HandOutNonce_step now env pid h \<sigma> = Some \<sigma>'"
  shows "queue_ok (h_threads \<sigma>') (h_svc \<sigma>')"
proof -
  obtain r s1 where ex: "expectedNonce now env (h_from h) (h_svc \<sigma>) = (r, s1)" by fastforce
  have s1: "same_tickets (h_svc \<sigma>) s1" using same_tickets_expected [of "h_svc \<sigma>" now env "h_from h"] ex by simp
  have stay: "queue_ok (h_threads (h_goto pid h pc s1 \<sigma>)) s1" if "ticket_of pc = Some m" "past_wait pc" for pc
    using queue_ok_goto [OF ok th s1, of pc] waiter_ok_stay [OF queue_okD(3) [OF ok th], of pc] that pc0
    by (cases pc) (auto simp: h_pc_defs h_goto_def)
  show ?thesis
  proof (cases r)
    case (Inl e)
    let ?h = "h\<lparr>h_pc := HDone m (Inl e) now\<rparr>"
    have "queue_ok ((h_threads \<sigma>)(pid \<mapsto> ?h)) s1" using stay [of "HDone m (Inl e) now"] by (simp add: h_pc_defs h_goto_def)
    from queue_ok_close [OF this, of pid ?h m] step pc0 ex Inl show ?thesis
      by (auto simp: HandOutNonce_step_def h_goto_def h_pc_defs)
  next
    case (Inr n)
    with stay [of "HOpen m n"] step pc0 ex show ?thesis
      by (auto simp: HandOutNonce_step_def h_pc_defs h_goto_def)
  qed
qed

lemma queue_ok_open:
  assumes ok: "queue_ok (h_threads \<sigma>) (h_svc \<sigma>)" and th: "h_threads \<sigma> pid = Some h" and pc0: "h_pc h = HOpen m n"
    and step: "HandOutNonce_step now env pid h \<sigma> = Some \<sigma>'"
  shows "queue_ok (h_threads \<sigma>') (h_svc \<sigma>')"
proof -
  let ?s = "(h_svc \<sigma>)\<lparr>openTickets := (openTickets (h_svc \<sigma>))(h_key h \<mapsto> m)\<rparr>"
  define pc where "pc = HDone m (Inr n) (now + ticketWindow (h_svc \<sigma>))"
  have tk: "ticket_of pc = ticket_of (h_pc h)" "past_wait pc" "past_wait (h_pc h)" by (simp_all add: pc_def pc0 h_pc_defs)
  have moved: "queue_ok ((h_threads \<sigma>)(pid \<mapsto> h\<lparr>h_pc := pc\<rparr>)) (h_svc \<sigma>)"
    by (rule queue_ok_move [OF ok th tk(1)])
      (use tk waiter_ok_stay [OF queue_okD(3) [OF ok th] tk(3,1)] in \<open>auto simp: pc_def\<close>)
  have own: "tickets_owned ((h_threads \<sigma>)(pid \<mapsto> h\<lparr>h_pc := pc\<rparr>)) ?s"
    by (rule tickets_owned_open [where h = h and m = m and pid = pid and g = "h\<lparr>h_pc := pc\<rparr>", OF queue_okD(4) [OF moved]]) (use tk in \<open>simp_all add: pc0 h_pc_defs\<close>)
  have "queue_ok ((h_threads \<sigma>)(pid \<mapsto> h\<lparr>h_pc := pc\<rparr>)) ?s"
    by (rule queue_okI [OF _ _ _ own])
      (use queue_okD(1-3) [OF moved] in \<open>simp_all add: tickets_ordered_def queue_head_def waiter_ok_def\<close>)
  with step pc0 show ?thesis by (auto simp: HandOutNonce_step_def h_goto_def pc_def Let_def)
qed

lemma queue_ok_step:
  assumes ok: "queue_ok (h_threads \<sigma>) (h_svc \<sigma>)" and th: "h_threads \<sigma> pid = Some h"
    and step: "HandOutNonce_step now env pid h \<sigma> = Some \<sigma>'"
  shows "queue_ok (h_threads \<sigma>') (h_svc \<sigma>')"
proof (cases "h_pc h")
  case HEnqueue
  with step queue_ok_take [OF ok th HEnqueue] show ?thesis
    by (auto simp: HandOutNonce_step_def h_goto_def new_ticket_def Let_def)
next
  case (HWait m prev)
  then have go: "\<forall>p. prev = Some p \<longrightarrow> closed_in (h_svc \<sigma>) p" "\<sigma>' = h_goto pid h (HExpect m) (h_svc \<sigma>) \<sigma>"
    using step by (cases prev; auto simp: HandOutNonce_step_def Let_def split: if_splits)+
  show ?thesis
    unfolding go(2)
    by (rule queue_ok_goto [OF ok th same_tickets_refl])
      (simp_all add: HWait h_pc_defs waiter_ok_go [OF queue_okD(3) [OF ok th] HWait queue_okD(1) [OF ok] go(1)])
next
  case (HExpect m)
  show ?thesis by (rule queue_ok_expect [OF ok th HExpect step])
next
  case (HOpen m n)
  show ?thesis by (rule queue_ok_open [OF ok th HOpen step])
next
  case HPeek
  obtain r s1 where ex: "expectedNonce now env (h_from h) (h_svc \<sigma>) = (r, s1)" by fastforce
  have s1: "same_tickets (h_svc \<sigma>) s1" using same_tickets_expected [of "h_svc \<sigma>" now env "h_from h"] ex by simp
  have "\<sigma>' = h_goto pid h (HPeeked r) s1 \<sigma>" using step HPeek ex by (simp add: HandOutNonce_step_def)
  with queue_ok_goto [OF ok th s1, of "HPeeked r"] waiter_ok_other [of "HPeeked r"] show ?thesis
    by (simp add: HPeek h_pc_defs)
qed (use step in \<open>simp_all add: HandOutNonce_step_def\<close>)

lemma queue_ok_request:
  assumes ok: "queue_ok T s" and fresh_pid: "T pid = None" and pc: "pc = HPeek \<or> pc = HEnqueue"
  shows "queue_ok (T(pid \<mapsto> \<lparr>h_from = from, h_peek = peek, h_pc = pc\<rparr>)) s"
proof -
  let ?h = "\<lparr>h_from = from, h_peek = peek, h_pc = pc\<rparr>"
  let ?T = "T(pid \<mapsto> ?h)"
  have none: "ticket_of pc = None" "\<not> past_wait pc" "\<forall>m prev. pc \<noteq> HWait m prev" using pc by (auto simp: h_pc_defs)
  have ts: "tickets ?T k = tickets T k" for k
    by (rule tickets_new) (simp_all add: fresh_pid none)
  show ?thesis
  proof (rule queue_okI)
    show "tickets_ordered ?T s" "queue_head ?T s"
      using queue_okD(1,2) [OF ok] by (simp_all add: tickets_ordered_def queue_head_def ts)
    show "waiter_ok ?T s g" if "?T q = Some g" for q g
    proof -
      have "waiter_ok ?T s g = waiter_ok T s g" by (simp add: waiter_ok_def ts)
      with that none queue_okD(3) [OF ok, of q g] show ?thesis by (auto simp: waiter_ok_def split: if_splits)
    qed
    show "tickets_owned ?T s"
      unfolding tickets_owned_def
    proof (intro conjI allI impI)
      fix k m
      assume "openTickets s k = Some m"
      then obtain q g where g: "T q = Some g" "h_key g = k" "past_wait (h_pc g)" "ticket_of (h_pc g) = Some m"
        using queue_okD(4) [OF ok] unfolding tickets_owned_def by blast
      with fresh_pid show "\<exists>q g. ?T q = Some g \<and> h_key g = k \<and> past_wait (h_pc g) \<and> ticket_of (h_pc g) = Some m"
        by (intro exI [of _ q] exI [of _ g]) auto
    next
      fix q q' g g' m
      assume "?T q = Some g" "?T q' = Some g'" "ticket_of (h_pc g) = Some m" "ticket_of (h_pc g') = Some m"
      then show "q = q'" using owner_unique [OF queue_okD(4) [OF ok]] none(1) by (auto split: if_splits)
    qed
  qed
qed

lemma handout_reach_ok: "handout_reach cfg \<sigma> \<Longrightarrow> queue_ok (h_threads \<sigma>) (h_svc \<sigma>)"
proof (induction rule: handout_reach.induct)
  case handout_init
  show ?case
    by (simp add: queue_ok_def tickets_ordered_def queue_head_def tickets_owned_def tickets_def new_service_def)
next
  case (handout_next \<sigma> \<sigma>')
  from handout_next.hyps(2) handout_next.IH show ?case
  proof (induction rule: handout_step.induct)
    case (handout_request \<sigma> pid addr peek)
    moreover have "HandOutNonce_start (h_svc \<sigma>) peek = HPeek \<or> HandOutNonce_start (h_svc \<sigma>) peek = HEnqueue"
      by (simp add: HandOutNonce_start_def)
    ultimately show ?case
      using queue_ok_request [of "h_threads \<sigma>" "h_svc \<sigma>" pid "HandOutNonce_start (h_svc \<sigma>) peek" addr peek]
      by (simp del: fun_upd_apply)
  next
    case (handout_expiry \<sigma> pid h now \<sigma>')
    then show ?case
      using queue_ok_close [of "h_threads \<sigma>" "h_svc \<sigma>" pid h]
      by (auto simp: ticket_expires_def h_pc_defs split: handout_pc.splits sum.splits if_splits)
  qed (simp_all add: queue_ok_step queue_ok_closeOpen queue_ok_same)
qed

section \<open>What the queue guarantees\<close>

text \<open>
  C10: nonces are handed out one at a time. While a client of a user is between getting its turn and
  the end of its ticket, which its metatx or the clock brings, every other client of that user with
  an open ticket is still waiting, so no two of them sign with the same nonce.
\<close>

theorem handout_one_at_a_time:
  assumes "handout_reach cfg \<sigma>" "h_threads \<sigma> p = Some g" "h_threads \<sigma> q = Some h" "p \<noteq> q" "h_key g = h_key h"
    "past_wait (h_pc g)" "ticket_of (h_pc g) = Some m" "\<not> closed_in (h_svc \<sigma>) m"
    "ticket_of (h_pc h) = Some m'" "\<not> closed_in (h_svc \<sigma>) m'"
  shows "\<not> past_wait (h_pc h)"
proof
  assume pw: "past_wait (h_pc h)"
  have ok: "queue_ok (h_threads \<sigma>) (h_svc \<sigma>)" by (rule handout_reach_ok [OF assms(1)])
  have "m \<in> tickets (h_threads \<sigma>) (h_key h)" "m' \<in> tickets (h_threads \<sigma>) (h_key g)"
    using ticketsI [of "h_threads \<sigma>" p g m] ticketsI [of "h_threads \<sigma>" q h m'] assms by simp_all
  with past_wait_closed [OF queue_okD(3) [OF ok assms(2)] assms(6,7)] past_wait_closed [OF queue_okD(3) [OF ok assms(3)] pw assms(9)]
    assms(8,10) have "m = m'" by (metis linorder_neqE_nat)
  with owner_unique [OF queue_okD(4) [OF ok] assms(2,3,7)] assms(4,9) show False by simp
qed

text \<open>A request that failed has closed its ticket, and a closed ticket stays closed.\<close>

definition failed_closed :: "handout_sys \<Rightarrow> bool" where
  "failed_closed \<sigma> \<longleftrightarrow> (\<forall>pid h m e d. h_threads \<sigma> pid = Some h \<longrightarrow> h_pc h = HDone m (Inl e) d \<longrightarrow> closed_in (h_svc \<sigma>) m)"

lemma failed_closedI:
  assumes "failed_closed \<sigma>" "queue_ok (h_threads \<sigma>) (h_svc \<sigma>)"
    and "\<And>m. m < fresh (h_svc \<sigma>) \<Longrightarrow> closed_in (h_svc \<sigma>) m \<Longrightarrow> closed_in (h_svc \<sigma>') m"
    and "\<And>pid h m e d. h_threads \<sigma>' pid = Some h \<Longrightarrow> h_pc h = HDone m (Inl e) d \<Longrightarrow>
           h_threads \<sigma> pid = Some h \<or> closed_in (h_svc \<sigma>') m"
  shows "failed_closed \<sigma>'"
  unfolding failed_closed_def
proof (intro allI impI)
  fix pid h m e d
  assume a: "h_threads \<sigma>' pid = Some h" "h_pc h = HDone m (Inl e) d"
  from assms(4) [OF a] show "closed_in (h_svc \<sigma>') m"
  proof
    assume old: "h_threads \<sigma> pid = Some h"
    have "m \<in> tickets (h_threads \<sigma>) (h_key h)"
      by (rule ticketsI [where pid = pid]) (simp_all add: old a(2) ticket_of_def)
    with queue_okD(1) [OF assms(2)] have "m < fresh (h_svc \<sigma>)" by (auto simp: tickets_ordered_def)
    with assms(1,3) old a(2) show ?thesis unfolding failed_closed_def by blast
  qed
qed

lemma closeOpenTicket_closed: "closed_in s m \<Longrightarrow> closed_in (closeOpenTicket k s) m"
  by (simp add: closeOpenTicket_def split: option.split)

lemma failed_closed_thread:
  assumes "failed_closed \<sigma>" "queue_ok (h_threads \<sigma>) (h_svc \<sigma>)" "HandOutNonce_step now env pid h \<sigma> = Some \<sigma>'"
  shows "failed_closed \<sigma>'"
proof (rule failed_closedI [OF assms(1,2)])
  have heap: "ticket_heap (snd (expectedNonce now env from s)) = ticket_heap s" for "from" s
    using same_tickets_expected [of s now env "from"] by (simp add: same_tickets_def)
  note split_rules = handout_pc.splits option.splits if_splits prod.splits sum.splits
  show "closed_in (h_svc \<sigma>') m" if "m < fresh (h_svc \<sigma>)" "closed_in (h_svc \<sigma>) m" for m
    using assms(3) that heap [of "h_from h" "h_svc \<sigma>"]
    by (auto simp: HandOutNonce_step_def h_goto_def new_ticket_def Let_def split: split_rules)
  show "h_threads \<sigma> q = Some g \<or> closed_in (h_svc \<sigma>') m"
    if "h_threads \<sigma>' q = Some g" "h_pc g = HDone m (Inl e) d" for q g m e d
    using assms(3) that
    by (auto simp: HandOutNonce_step_def h_goto_def new_ticket_def Let_def split: split_rules)
qed

lemma handout_reach_failed: "handout_reach cfg \<sigma> \<Longrightarrow> failed_closed \<sigma>"
proof (induction rule: handout_reach.induct)
  case handout_init
  show ?case by (simp add: failed_closed_def)
next
  case (handout_next \<sigma> \<sigma>')
  note ok = handout_reach_ok [OF handout_next.hyps(1)]
  from handout_next.hyps(2) show ?case
  proof cases
    case (handout_thread pid h now env)
    then show ?thesis using failed_closed_thread [OF handout_next.IH ok] by blast
  next
    case (handout_expiry pid h now)
    then show ?thesis
      by (intro failed_closedI [OF handout_next.IH ok])
        (auto simp: ticket_expires_def split: handout_pc.splits sum.splits if_splits)
  qed (rule failed_closedI [OF handout_next.IH ok];
       auto simp: closeOpenTicket_closed same_tickets_def HandOutNonce_start_def split: if_splits)+
qed

definition can_step :: "handout_sys \<Rightarrow> nat \<Rightarrow> handout \<Rightarrow> bool" where
  "can_step \<sigma> pid h \<longleftrightarrow> (\<forall>now env. HandOutNonce_step now env pid h \<sigma> \<noteq> None)"

lemma can_step_free:
  assumes "queue_ok (h_threads \<sigma>) (h_svc \<sigma>)" "h_threads \<sigma> pid = Some h" "h_pc h = HWait m prev"
    "\<And>m'. m' \<in> tickets (h_threads \<sigma>) (h_key h) \<Longrightarrow> m' < m \<Longrightarrow> closed_in (h_svc \<sigma>) m'"
  shows "can_step \<sigma> pid h"
proof (cases prev)
  case None
  with assms(3) show ?thesis by (simp add: can_step_def HandOutNonce_step_def Let_def)
next
  case (Some p)
  with queue_okD(3) [OF assms(1,2)] assms(3) have "p \<in> tickets (h_threads \<sigma>) (h_key h)" "p < m"
    unfolding waiter_ok_def by blast+
  with assms(3,4) Some show ?thesis by (simp add: can_step_def HandOutNonce_step_def Let_def)
qed

text \<open>
  C11: nobody waits for ever. While a client waits for its nonce, either its own next step is enabled
  or some request ahead of it in its user's queue holds an open ticket and can either take its next
  step or has a ticket that the clock closes from a known instant on.
\<close>

theorem handout_never_stuck:
  assumes "handout_reach cfg \<sigma>" "h_threads \<sigma> q = Some h" "h_pc h = HWait m prev"
  shows "can_step \<sigma> q h \<or>
     (\<exists>p g m'. h_threads \<sigma> p = Some g \<and> h_key g = h_key h \<and> ticket_of (h_pc g) = Some m' \<and> m' < m \<and>
        \<not> closed_in (h_svc \<sigma>) m' \<and> (can_step \<sigma> p g \<or> (\<exists>due. \<forall>now. due \<le> now \<longrightarrow> ticket_expires now g \<sigma> \<noteq> None)))"
proof (cases "can_step \<sigma> q h")
  case False
  let ?open = "\<lambda>m'. m' \<in> tickets (h_threads \<sigma>) (h_key h) \<and> m' < m \<and> \<not> closed_in (h_svc \<sigma>) m'"
  have ok: "queue_ok (h_threads \<sigma>) (h_svc \<sigma>)" by (rule handout_reach_ok [OF assms(1)])
  from False can_step_free [OF ok assms(2,3)] obtain m0 where "?open m0" by blast
  then have first: "?open (LEAST m'. ?open m')" by (rule LeastI)
  define m' where "m' = (LEAST m'. ?open m')"
  from first obtain p g where g: "h_threads \<sigma> p = Some g" "h_key g = h_key h" "ticket_of (h_pc g) = Some m'"
    by (auto simp: tickets_def m'_def)
  have before: "closed_in (h_svc \<sigma>) n" if "n \<in> tickets (h_threads \<sigma>) (h_key g)" "n < m'" for n
    using not_less_Least [of n ?open] that first g(2) unfolding m'_def by auto
  have "can_step \<sigma> p g \<or> (\<exists>due. \<forall>now. due \<le> now \<longrightarrow> ticket_expires now g \<sigma> \<noteq> None)"
  proof (cases "h_pc g")
    case (HWait a b)
    with g(3) have "a = m'" by (simp add: ticket_of_def)
    with can_step_free [OF ok g(1) HWait] before show ?thesis by simp
  next
    case (HDone a r d)
    with g(3) have "a = m'" by (simp add: ticket_of_def)
    with HDone handout_reach_failed [OF assms(1)] g(1) have "closed_in (h_svc \<sigma>) m'" if "r = Inl e" for e
      using that unfolding failed_closed_def by blast
    with first obtain n where "r = Inr n" unfolding m'_def [symmetric] by (cases r) auto
    with HDone show ?thesis by (auto simp: ticket_expires_def)
  qed (use g(3) in \<open>auto simp: can_step_def HandOutNonce_step_def ticket_of_def Let_def split: prod.split sum.split\<close>)
  with g first show ?thesis
    unfolding m'_def [symmetric] by blast
qed simp

section \<open>Both nonces of an address\<close>

record NonceState =
  ns_Address :: Address
  OnChain :: "nat option"
  Next :: "nat option"
  Pending :: uint64

text \<open>
  \<open>NonceOf\<close>. \<open>answer\<close> is what the call of \<open>HandOutNonce\<close> gave, which may have waited for its turn, and
  \<open>s\<close> the service when it did. Comparing with a nonce of the hub that is nil panics.
\<close>

definition NonceOf ::
    "time \<Rightarrow> node_env \<Rightarrow> (Address \<Rightarrow> string) \<Rightarrow> Address \<Rightarrow> go_error + uint64 \<Rightarrow> RelaySignerService \<Rightarrow>
     (go_error + NonceState) go_result \<times> RelaySignerService" where
  "NonceOf now env hex address answer s =
     (case Option.bind (Cfg s) (\<lambda>c. RelayHubContractAddress (Application c)) of
        None \<Rightarrow> (Returns (Inl hub_not_resolved), s)
      | Some hub \<Rightarrow>
     (case NodeAddress env of
        Inl e \<Rightarrow> (Returns (Inl e), s)
      | Inr nodeAddress \<Rightarrow>
     (case Connect env of
        Some e \<Rightarrow> (Returns (Inl e), s)
      | None \<Rightarrow>
     (case GetTransactionCount env hub address nodeAddress of
        Inl e \<Rightarrow> (Returns (Inl e), s)
      | Inr onChain \<Rightarrow>
          (let state = \<lparr>ns_Address = address, OnChain = onChain, Next = onChain, Pending = 0\<rparr>;
               handed = (case answer of
                   Inl _ \<Rightarrow> Returns state
                 | Inr n \<Rightarrow>
                     (case onChain of
                        None \<Rightarrow> Panics ''nil pointer dereference''
                      | Some oc \<Rightarrow>
                          if oc < unat n then Returns (state\<lparr>Next := Some (unat n), Pending := word_of_nat (unat n - oc)\<rparr>)
                          else Returns state))
           in case handed of
                Panics r \<Rightarrow> (Panics r, s)
              | Returns st \<Rightarrow>
                  if reorderEnabled s
                  then (case inflightOf now (hex address) s of (k, s1) \<Rightarrow> (Returns (Inr (st\<lparr>Pending := word_of_int k\<rparr>)), s1))
                  else (Returns (Inr st), s))))))"

text \<open>
  What a client is told. When the hub answers, \<open>NonceOf\<close> does not panic; the next nonce is the
  larger of the one on the chain of blocks and the one handed out, and with reordering off the
  pending count is their difference, without wrap-around.
\<close>

theorem NonceOf_counts:
  assumes "fst (NonceOf now env hex address (Inr n) s) = Returns (Inr st)"
  shows "\<exists>oc. OnChain st = Some oc \<and> Next st = Some (max oc (unat n)) \<and>
     (\<not> reorderEnabled s \<longrightarrow> oc + unat (Pending st) = max oc (unat n))"
proof -
  have "unat n - k < 2 ^ 64" for k
    by (rule order_le_less_trans [OF diff_le_self order_less_le_trans [OF unsigned_less]]) simp
  then have small: "unat (word_of_nat (unat n - k) :: uint64) = unat n - k" for k
    by (simp add: unat_of_nat)
  show ?thesis
    using assms
    by (auto simp: NonceOf_def Let_def small max_absorb1 max_absorb2 simp del: of_nat_diff
        split: option.splits sum.splits if_splits prod.splits)
qed

section \<open>Two clients of one user\<close>

text \<open>
  With the queue on, two clients ask for a nonce of the same user: the first gets it and its ticket
  stays open, the second waits for that ticket.
\<close>

definition queue_config :: Config where
  "queue_config = sample_config\<lparr>Reorder := DefaultReorderConfig\<lparr>Reorder_Enabled := True, AutoNonce := True\<rparr>\<rparr>"

definition sample_request :: handout where
  "sample_request = \<lparr>h_from = ''u'', h_peek = False, h_pc = HEnqueue\<rparr>"

definition sample_queue :: handout_sys where
  "sample_queue = \<lparr>h_svc = new_service (Some queue_config), h_threads = [0 \<mapsto> sample_request, 1 \<mapsto> sample_request]\<rparr>"

fun handout_run :: "nat list \<Rightarrow> handout_sys \<Rightarrow> handout_sys option" where
  "handout_run [] \<sigma> = Some \<sigma>"
| "handout_run (pid # pids) \<sigma> =
     (case h_threads \<sigma> pid of
        None \<Rightarrow> None
      | Some h \<Rightarrow> (case HandOutNonce_step 0 sample_env pid h \<sigma> of None \<Rightarrow> None | Some \<sigma>' \<Rightarrow> handout_run pids \<sigma>'))"

lemma handout_run_reach: "handout_run pids \<sigma> = Some \<sigma>' \<Longrightarrow> handout_reach cfg \<sigma> \<Longrightarrow> handout_reach cfg \<sigma>'"
  by (induction pids \<sigma> rule: handout_run.induct)
    (auto split: option.splits dest: handout_thread handout_next)

lemma sample_queue_reach: "handout_reach queue_config sample_queue"
proof -
  let ?\<sigma> = "\<lparr>h_svc = new_service (Some queue_config), h_threads = Map.empty\<rparr>"
  have start: "HandOutNonce_start (new_service (Some queue_config)) False = HEnqueue"
    by (simp add: HandOutNonce_start_def autoNonceEnabled_def queue_config_def new_service_def)
  have "handout_reach queue_config (?\<sigma>\<lparr>h_threads := [0 \<mapsto> sample_request]\<rparr>)"
    using handout_next [OF handout_init handout_request [of ?\<sigma> 0 "''u''" False]] start
    by (simp add: sample_request_def)
  from handout_next [OF this handout_request [of _ 1 "''u''" False]] start show ?thesis
    by (simp add: sample_request_def sample_queue_def fun_upd_def)
qed

lemma sample_queue_run:
  "map_option (\<lambda>\<sigma>. (map (\<lambda>p. map_option (\<lambda>h. (h_pc h, h_key h)) (h_threads \<sigma> p)) [0, 1], map (closed_in (h_svc \<sigma>)) [0, 1]))
     (handout_run [0, 1, 0, 0, 0] sample_queue) =
   Some ([Some (HDone 0 (Inr 3) (ticketWindow (new_service (Some queue_config))), ''u''), Some (HWait 1 (Some 0), ''u'')],
         [False, False])"
  by code_simp

lemma sample_waiting:
  obtains \<sigma> g h where "handout_reach queue_config \<sigma>" "h_threads \<sigma> 0 = Some g" "h_threads \<sigma> 1 = Some h"
    "h_pc g = HDone 0 (Inr 3) (ticketWindow (new_service (Some queue_config)))" "h_pc h = HWait 1 (Some 0)"
    "h_key g = ''u''" "h_key h = ''u''" "\<not> closed_in (h_svc \<sigma>) 0" "\<not> closed_in (h_svc \<sigma>) 1"
proof -
  from sample_queue_run obtain \<sigma> where run: "handout_run [0, 1, 0, 0, 0] sample_queue = Some \<sigma>"
    by (cases "handout_run [0, 1, 0, 0, 0] sample_queue") auto
  from handout_run_reach [OF run sample_queue_reach] sample_queue_run [unfolded run] show ?thesis
    by (auto intro: that)
qed

theorem handout_one_at_a_time_witness:
  "\<exists>\<sigma> g h. handout_reach queue_config \<sigma> \<and> h_threads \<sigma> 0 = Some g \<and> h_threads \<sigma> 1 = Some h \<and> past_wait (h_pc g) \<and>
     \<not> past_wait (h_pc h)"
proof -
  obtain \<sigma> g h where s: "handout_reach queue_config \<sigma>" "h_threads \<sigma> 0 = Some g" "h_threads \<sigma> 1 = Some h"
    "h_pc g = HDone 0 (Inr 3) (ticketWindow (new_service (Some queue_config)))" "h_pc h = HWait 1 (Some 0)"
    "h_key g = ''u''" "h_key h = ''u''" "\<not> closed_in (h_svc \<sigma>) 0" "\<not> closed_in (h_svc \<sigma>) 1"
    by (rule sample_waiting)
  from handout_one_at_a_time [OF s(1,2,3), of 0 1] s have "\<not> past_wait (h_pc h)" by (simp add: h_pc_defs)
  moreover have "past_wait (h_pc g)" by (simp add: s(4) past_wait_def)
  ultimately show ?thesis using s by blast
qed

theorem handout_never_stuck_witness:
  "\<exists>\<sigma> h. handout_reach queue_config \<sigma> \<and> h_threads \<sigma> 1 = Some h \<and> h_pc h = HWait 1 (Some 0) \<and>
     (can_step \<sigma> 1 h \<or> (\<exists>p g. h_threads \<sigma> p = Some g \<and> h_key g = ''u''))"
proof -
  obtain \<sigma> g h where s: "handout_reach queue_config \<sigma>" "h_threads \<sigma> 0 = Some g" "h_threads \<sigma> 1 = Some h"
    "h_pc g = HDone 0 (Inr 3) (ticketWindow (new_service (Some queue_config)))" "h_pc h = HWait 1 (Some 0)"
    "h_key g = ''u''" "h_key h = ''u''" "\<not> closed_in (h_svc \<sigma>) 0" "\<not> closed_in (h_svc \<sigma>) 1"
    by (rule sample_waiting)
  from handout_never_stuck [OF s(1,3,5)] s show ?thesis by metis
qed

theorem NonceOf_counts_witness:
  "\<exists>st oc. fst (NonceOf 0 sample_env (\<lambda>_. ''u'') 9 (Inr 5) (new_service (Some sample_config))) = Returns (Inr st) \<and>
     OnChain st = Some oc \<and> Next st = Some (max oc 5)"
proof -
  obtain st where st: "fst (NonceOf 0 sample_env (\<lambda>_. ''u'') 9 (Inr 5) (new_service (Some sample_config))) = Returns (Inr st)"
    by (atomize_elim) (simp add: NonceOf_def sample_env_def sample_config_def new_service_def Let_def split: prod.split)
  from NonceOf_counts [OF st] st show ?thesis by auto
qed

end
