(* ===== verification/Errors.thy ===== *)
theory Errors
  imports Prelude
begin

text \<open>
  Package \<open>errors\<close> (\<open>errors/errors.go\<close>): errors with a type, a code and a context. It is built on
  \<open>github.com/pkg/errors\<close>, whose constructors and \<open>Cause\<close> are functions of a record, and on \<open>fmt\<close>,
  whose rendering of a format and its arguments is one too.
\<close>

section \<open>Types\<close>

datatype ErrorType =
    NoType | BadTransaction | FailedTransaction | FailedConnection | FailedKeystore | FailedReadFile | FailedReadEnv
  | FailedKeyConfig | FailedConfigTransaction | FailedContract | CallBlockchainFailed | MalformedRawTransaction
  | InvalidAddress

record errorContext =
  ctx_Field :: string
  ctx_Message :: string

definition emptyContext :: errorContext where
  "emptyContext = \<lparr>ctx_Field = [], ctx_Message = []\<rparr>"

text \<open>
  An error value: one of this package, or one of another package, of which only the text is seen.
  A missing error is \<open>None\<close>. The struct's fields are in the order of the source.
\<close>

datatype error_value =
    customError ErrorType "error_value option" errorContext int
  | Foreign string "error_value option"

record errors_lib =
  pkg_New :: "string \<Rightarrow> error_value"
  pkg_Wrapf :: "error_value option \<Rightarrow> string \<Rightarrow> string list \<Rightarrow> error_value option"
  pkg_Cause :: "error_value option \<Rightarrow> error_value option"
  fmt_Sprintf :: "string \<Rightarrow> string list \<Rightarrow> string"
  fmt_Errorf :: "string \<Rightarrow> string list \<Rightarrow> error_value"

text \<open>\<open>Error()\<close>: a custom error without an original one dereferences nil.\<close>

fun Error_of :: "error_value \<Rightarrow> string go_result" where
  "Error_of (customError _ None _ _) = Panics ''nil pointer dereference''"
| "Error_of (customError _ (Some e) _ _) = Error_of e"
| "Error_of (Foreign msg _) = Returns msg"

definition ErrorCode_of :: "error_value \<Rightarrow> int option" where
  "ErrorCode_of e = (case e of customError _ _ _ code \<Rightarrow> Some code | Foreign _ _ \<Rightarrow> None)"

section \<open>The methods of an error type\<close>

definition type_New :: "errors_lib \<Rightarrow> ErrorType \<Rightarrow> string \<Rightarrow> int \<Rightarrow> error_value" where
  "type_New lib errorType msg code = customError errorType (Some (pkg_New lib msg)) emptyContext code"

definition type_Newf :: "errors_lib \<Rightarrow> ErrorType \<Rightarrow> string \<Rightarrow> string list \<Rightarrow> error_value" where
  "type_Newf lib errorType msg args = customError errorType (Some (fmt_Errorf lib msg args)) emptyContext 0"

definition type_Wrapf :: "errors_lib \<Rightarrow> ErrorType \<Rightarrow> error_value option \<Rightarrow> string \<Rightarrow> int \<Rightarrow> string list \<Rightarrow> error_value" where
  "type_Wrapf lib errorType err msg code args = customError errorType (pkg_Wrapf lib err msg args) emptyContext code"

definition type_Wrap :: "errors_lib \<Rightarrow> ErrorType \<Rightarrow> error_value option \<Rightarrow> string \<Rightarrow> int \<Rightarrow> error_value" where
  "type_Wrap lib errorType err msg code = type_Wrapf lib errorType err msg code []"

section \<open>The functions of the package\<close>

definition New :: "errors_lib \<Rightarrow> string \<Rightarrow> int \<Rightarrow> error_value" where
  "New lib msg code = customError NoType (Some (pkg_New lib msg)) emptyContext code"

definition Newf :: "errors_lib \<Rightarrow> string \<Rightarrow> int \<Rightarrow> string list \<Rightarrow> error_value" where
  "Newf lib msg code args = customError NoType (Some (pkg_New lib (fmt_Sprintf lib msg args))) emptyContext code"

definition Cause :: "errors_lib \<Rightarrow> error_value option \<Rightarrow> error_value option" where
  "Cause lib err = pkg_Cause lib err"

definition Wrapf :: "errors_lib \<Rightarrow> error_value option \<Rightarrow> string \<Rightarrow> string list \<Rightarrow> error_value" where
  "Wrapf lib err msg args =
     (let wrappedError = pkg_Wrapf lib err msg args
      in case err of
           Some (customError errorType _ context _) \<Rightarrow> customError errorType wrappedError context 0
         | _ \<Rightarrow> customError NoType wrappedError emptyContext 0)"

definition Wrap :: "errors_lib \<Rightarrow> error_value option \<Rightarrow> string \<Rightarrow> error_value" where
  "Wrap lib err msg = Wrapf lib err msg []"

definition AddErrorContext :: "error_value option \<Rightarrow> string \<Rightarrow> string \<Rightarrow> error_value" where
  "AddErrorContext err field message =
     (let context = \<lparr>ctx_Field = field, ctx_Message = message\<rparr>
      in case err of
           Some (customError errorType originalError _ _) \<Rightarrow> customError errorType originalError context 0
         | _ \<Rightarrow> customError NoType err context 0)"

text \<open>
  \<open>GetErrorContext\<close>: the code asks whether the assertion succeeded \<^emph>\<open>or\<close> the context is set. A failed
  assertion gives the zero value, whose context is empty.
\<close>

definition GetErrorContext :: "error_value option \<Rightarrow> (string \<times> string) list option" where
  "GetErrorContext err =
     (case (case err of Some (customError t e context c) \<Rightarrow> (True, context) | _ \<Rightarrow> (False, emptyContext)) of
        (ok, context) \<Rightarrow>
          if ok \<or> context \<noteq> emptyContext
          then Some [(''field'', ctx_Field context), (''message'', ctx_Message context)]
          else None)"

definition GetType :: "error_value option \<Rightarrow> ErrorType" where
  "GetType err = (case err of Some (customError t _ _ _) \<Rightarrow> t | _ \<Rightarrow> NoType)"

section \<open>What the package promises\<close>

text \<open>
  The documented behaviour of \<open>github.com/pkg/errors\<close>: an error made from a text has that text, and
  wrapping keeps nil and puts the message before the text of the error.
\<close>

definition pkg_errors_ok :: "errors_lib \<Rightarrow> bool" where
  "pkg_errors_ok lib \<longleftrightarrow>
     (\<forall>msg. Error_of (pkg_New lib msg) = Returns msg) \<and>
     (\<forall>msg args. pkg_Wrapf lib None msg args = None) \<and>
     (\<forall>e t msg. Error_of e = Returns t \<longrightarrow>
        (\<exists>w. pkg_Wrapf lib (Some e) msg [] = Some w \<and> Error_of w = Returns (msg @ '': '' @ t)))"

lemma GetErrorContext_iff: "GetErrorContext err = None \<longleftrightarrow> (\<forall>t e c k. err \<noteq> Some (customError t e c k))"
  by (auto simp: GetErrorContext_def split: option.split error_value.split)

text \<open>Every error of the package carries the type it was made with, through any number of wraps.\<close>

lemma GetType_made [simp]:
  "GetType (Some (type_New lib t msg code)) = t"
  "GetType (Some (type_Newf lib t msg args)) = t"
  "GetType (Some (type_Wrap lib t err msg code)) = t"
  "GetType (Some (New lib msg code)) = NoType"
  "GetType (Some (Newf lib msg code args)) = NoType"
  "GetType (Some (Wrap lib err msg)) = GetType err"
  "GetType (Some (Wrapf lib err msg args)) = GetType err"
  "GetType (Some (AddErrorContext err f m)) = GetType err"
  by (auto simp: GetType_def type_New_def type_Newf_def type_Wrap_def type_Wrapf_def New_def Newf_def Wrap_def Wrapf_def
      AddErrorContext_def Let_def split: option.split error_value.split)

lemma Error_of_Wrap:
  assumes "pkg_errors_ok lib" "Error_of e = Returns t"
  shows "Error_of (Wrap lib (Some e) msg) = Returns (msg @ '': '' @ t)"
proof -
  obtain w where "pkg_Wrapf lib (Some e) msg [] = Some w" "Error_of w = Returns (msg @ '': '' @ t)"
    using assms unfolding pkg_errors_ok_def by blast
  then show ?thesis by (simp add: Wrap_def Wrapf_def Let_def split: error_value.split)
qed

fun wrap_all :: "errors_lib \<Rightarrow> string list \<Rightarrow> error_value \<Rightarrow> error_value" where
  "wrap_all lib [] e = e"
| "wrap_all lib (msg # msgs) e = Wrap lib (Some (wrap_all lib msgs e)) msg"

text \<open>
  Wrapping an error any number of times keeps its type and prefixes its text with the messages,
  outermost first; from the first wrap on, the code reads zero, whatever it was.
\<close>

theorem wrapped_error:
  assumes "pkg_errors_ok lib"
  shows "GetType (Some (wrap_all lib msgs (type_New lib t msg code))) = t \<and>
     Error_of (wrap_all lib msgs (type_New lib t msg code)) = Returns (Join '': '' (msgs @ [msg])) \<and>
     ErrorCode_of (wrap_all lib msgs (type_New lib t msg code)) = Some (if msgs = [] then code else 0)"
proof (induction msgs)
  case Nil
  show ?case using assms by (simp add: type_New_def ErrorCode_of_def pkg_errors_ok_def GetType_def)
next
  case (Cons m msgs)
  have join: "Join '': '' (m # msgs @ [msg]) = m @ '': '' @ Join '': '' (msgs @ [msg])" by (cases "msgs @ [msg]") auto
  from Cons.IH have "Error_of (Wrap lib (Some (wrap_all lib msgs (type_New lib t msg code))) m) = Returns (m @ '': '' @ Join '': '' (msgs @ [msg]))"
    by (intro Error_of_Wrap [OF assms]) simp
  moreover have "ErrorCode_of (Wrap lib (Some e) m) = Some 0" for e
    by (simp add: ErrorCode_of_def Wrap_def Wrapf_def Let_def split: error_value.split)
  ultimately show ?case using Cons.IH by (simp add: join)
qed

text \<open>A library that behaves as documented.\<close>

definition error_text :: "error_value \<Rightarrow> string" where
  "error_text e = (case Error_of e of Returns t \<Rightarrow> t | Panics _ \<Rightarrow> [])"

definition sample_errors_lib :: errors_lib where
  "sample_errors_lib =
     \<lparr>pkg_New = (\<lambda>msg. Foreign msg None),
      pkg_Wrapf = (\<lambda>err msg args. map_option (\<lambda>e. Foreign (msg @ '': '' @ error_text e) (Some e)) err),
      pkg_Cause = (\<lambda>err. err),
      fmt_Sprintf = (\<lambda>msg args. msg),
      fmt_Errorf = (\<lambda>msg args. Foreign msg None)\<rparr>"

lemma sample_errors_ok: "pkg_errors_ok sample_errors_lib"
  by (simp add: pkg_errors_ok_def sample_errors_lib_def error_text_def)

theorem wrapped_error_witness:
  "Error_of (wrap_all sample_errors_lib [''b'', ''a''] (type_New sample_errors_lib InvalidAddress ''x'' 7)) =
     Returns ''b: a: x'' \<and>
   ErrorCode_of (wrap_all sample_errors_lib [''b'', ''a''] (type_New sample_errors_lib InvalidAddress ''x'' 7)) = Some 0"
  using wrapped_error [OF sample_errors_ok, of "[''b'', ''a'']" InvalidAddress "''x''" 7] by simp

end
