(* ===== verification/Json_Text.thy ===== *)
theory Json_Text
  imports Prelude
begin

text \<open>
  JSON texts as the standard library reads them: the scanner of \<open>encoding/json\<close>, one character at a
  time, the value at the head of a text, and the decoder that hands out the values of an array one by
  one. \<open>rpc/json.go\<close> reads a batch through this decoder.
\<close>

section \<open>The scanner\<close>

definition json_space :: "char \<Rightarrow> bool" where
  "json_space c = (c = CHR 0x20 \<or> c = CHR 0x09 \<or> c = CHR 0x0A \<or> c = CHR 0x0D)"

definition json_digit :: "char \<Rightarrow> bool" where
  "json_digit c = (c \<in> set ''0123456789'')"

datatype parse_state = ObjectKey | ObjectValue | ArrayValue

datatype scan_phase =
    BeginValue | BeginValueOrEmpty | BeginString | BeginStringOrEmpty | EndValue
  | InString | InStringEsc | InStringEscU nat
  | NumNeg | Num0 | Num1 | NumDot | NumDot0 | NumE | NumESign | NumE0
  | InLiteral string

datatype scan_outcome = Go scan_phase "parse_state list" | AtEnd | ScanError

definition maxNestingDepth :: nat where "maxNestingDepth = 10000"

definition push_state :: "scan_phase \<Rightarrow> parse_state \<Rightarrow> parse_state list \<Rightarrow> scan_outcome" where
  "push_state ph p ps = (if length ps < maxNestingDepth then Go ph (p # ps) else ScanError)"

text \<open>Behind a value; with nothing open the value was the whole text and the scan ends before the character.\<close>

fun end_value :: "char \<Rightarrow> parse_state list \<Rightarrow> scan_outcome" where
  "end_value c [] = AtEnd"
| "end_value c (p # ps) =
     (if json_space c then Go EndValue (p # ps)
      else case p of
        ObjectKey \<Rightarrow> if c = CHR '':'' then Go BeginValue (ObjectValue # ps) else ScanError
      | ObjectValue \<Rightarrow>
          if c = CHR '','' then Go BeginString (ObjectKey # ps) else if c = CHR ''}'' then Go EndValue ps else ScanError
      | ArrayValue \<Rightarrow>
          if c = CHR '','' then Go BeginValue (ArrayValue # ps) else if c = CHR '']'' then Go EndValue ps else ScanError)"

definition begin_value :: "char \<Rightarrow> parse_state list \<Rightarrow> scan_outcome" where
  "begin_value c ps =
     (if json_space c then Go BeginValue ps
      else if c = CHR ''{'' then push_state BeginStringOrEmpty ObjectKey ps
      else if c = CHR ''['' then push_state BeginValueOrEmpty ArrayValue ps
      else if c = CHR 0x22 then Go InString ps
      else if c = CHR ''-'' then Go NumNeg ps
      else if c = CHR ''0'' then Go Num0 ps
      else if c = CHR ''t'' then Go (InLiteral ''rue'') ps
      else if c = CHR ''f'' then Go (InLiteral ''alse'') ps
      else if c = CHR ''n'' then Go (InLiteral ''ull'') ps
      else if json_digit c then Go Num1 ps
      else ScanError)"

definition begin_string :: "char \<Rightarrow> parse_state list \<Rightarrow> scan_outcome" where
  "begin_string c ps = (if json_space c then Go BeginString ps else if c = CHR 0x22 then Go InString ps else ScanError)"

definition exponent_sign :: "char \<Rightarrow> parse_state list \<Rightarrow> scan_outcome" where
  "exponent_sign c ps = (if json_digit c then Go NumE0 ps else ScanError)"

definition after_zero :: "char \<Rightarrow> parse_state list \<Rightarrow> scan_outcome" where
  "after_zero c ps =
     (if c = CHR ''.'' then Go NumDot ps else if c = CHR ''e'' \<or> c = CHR ''E'' then Go NumE ps else end_value c ps)"

fun scan_step :: "scan_phase \<Rightarrow> parse_state list \<Rightarrow> char \<Rightarrow> scan_outcome" where
  "scan_step BeginValue ps c = begin_value c ps"
| "scan_step BeginValueOrEmpty ps c =
     (if json_space c then Go BeginValueOrEmpty ps else if c = CHR '']'' then end_value c ps else begin_value c ps)"
| "scan_step BeginString ps c = begin_string c ps"
| "scan_step BeginStringOrEmpty ps c =
     (if json_space c then Go BeginStringOrEmpty ps
      else if c = CHR ''}'' then (case ps of [] \<Rightarrow> ScanError | _ # qs \<Rightarrow> end_value c (ObjectValue # qs))
      else begin_string c ps)"
| "scan_step EndValue ps c = end_value c ps"
| "scan_step InString ps c =
     (if c = CHR 0x22 then Go EndValue ps else if c = CHR 0x5C then Go InStringEsc ps
      else if (of_char c :: nat) < 0x20 then ScanError else Go InString ps)"
| "scan_step InStringEsc ps c =
     (if c \<in> set ''bfnrt/'' \<or> c = CHR 0x5C \<or> c = CHR 0x22 then Go InString ps
      else if c = CHR ''u'' then Go (InStringEscU 3) ps else ScanError)"
| "scan_step (InStringEscU k) ps c =
     (if c \<in> set ''0123456789abcdefABCDEF'' then (case k of 0 \<Rightarrow> Go InString ps | Suc j \<Rightarrow> Go (InStringEscU j) ps) else ScanError)"
| "scan_step NumNeg ps c = (if c = CHR ''0'' then Go Num0 ps else if json_digit c then Go Num1 ps else ScanError)"
| "scan_step Num1 ps c = (if json_digit c then Go Num1 ps else after_zero c ps)"
| "scan_step Num0 ps c = after_zero c ps"
| "scan_step NumDot ps c = (if json_digit c then Go NumDot0 ps else ScanError)"
| "scan_step NumDot0 ps c =
     (if json_digit c then Go NumDot0 ps else if c = CHR ''e'' \<or> c = CHR ''E'' then Go NumE ps else end_value c ps)"
| "scan_step NumE ps c = (if c = CHR ''+'' \<or> c = CHR ''-'' then Go NumESign ps else exponent_sign c ps)"
| "scan_step NumESign ps c = exponent_sign c ps"
| "scan_step NumE0 ps c = (if json_digit c then Go NumE0 ps else end_value c ps)"
| "scan_step (InLiteral lit) ps c =
     (case lit of
        [] \<Rightarrow> end_value c ps
      | l # ls \<Rightarrow> if c = l then Go (if ls = [] then EndValue else InLiteral ls) ps else ScanError)"

section \<open>The value at the head of a text\<close>

text \<open>
  The scan of a value goes on until the character behind it; at the end of the text a space is invented.
  What was scanned and what is left, or nothing on a syntax error.
\<close>

fun read_rest :: "scan_phase \<Rightarrow> parse_state list \<Rightarrow> string \<Rightarrow> (string \<times> string) option" where
  "read_rest ph ps [] = (if scan_step ph ps CHR '' '' = AtEnd then Some ([], []) else None)"
| "read_rest ph ps (c # cs) =
     (case scan_step ph ps c of
        AtEnd \<Rightarrow> Some ([], c # cs)
      | ScanError \<Rightarrow> None
      | Go ph1 ps1 \<Rightarrow> map_option (\<lambda>(v, r). (c # v, r)) (read_rest ph1 ps1 cs))"

definition readValue :: "string \<Rightarrow> (string \<times> string) option" where
  "readValue s = read_rest BeginValue [] s"

text \<open>A text that is one value, up to white space before it; and what \<open>Unmarshal\<close> accepts.\<close>

definition json_text :: "string \<Rightarrow> bool" where
  "json_text e = (readValue e = Some (e, []))"

definition checkValid :: "string \<Rightarrow> bool" where
  "checkValid s = (case readValue s of None \<Rightarrow> False | Some (_, r) \<Rightarrow> list_all json_space r)"

section \<open>The decoder of an array\<close>

datatype token_state = ArrayStart | ArrayElem | ArrayComma

text \<open>The unread text, what the decoder expects next, and whether a syntax error stopped it for good.\<close>

record Decoder =
  dec_rest :: string
  tokenState :: token_state
  dec_err :: bool

definition peek :: "Decoder \<Rightarrow> char option \<times> Decoder" where
  "peek d =
     (case dropWhile json_space (dec_rest d) of
        [] \<Rightarrow> (None, d)
      | c # cs \<Rightarrow> (Some c, d\<lparr>dec_rest := c # cs\<rparr>))"

definition More :: "Decoder \<Rightarrow> bool \<times> Decoder" where
  "More d =
     (case peek d of
        (None, d1) \<Rightarrow> (False, d1)
      | (Some c, d1) \<Rightarrow> (c \<noteq> CHR '']'' \<and> c \<noteq> CHR ''}'', d1))"

text \<open>The comma between two elements; that it is missing is an error that does not stop the decoder.\<close>

definition prepareForDecode :: "Decoder \<Rightarrow> bool \<times> Decoder" where
  "prepareForDecode d =
     (if tokenState d \<noteq> ArrayComma then (True, d)
      else case peek d of
        (None, d1) \<Rightarrow> (False, d1)
      | (Some c, d1) \<Rightarrow>
          if c = CHR '','' then (True, d1\<lparr>dec_rest := tl (dec_rest d1), tokenState := ArrayElem\<rparr>) else (False, d1))"

definition DecodeValue :: "Decoder \<Rightarrow> string option \<times> Decoder" where
  "DecodeValue d =
     (if dec_err d then (None, d)
      else case prepareForDecode d of
        (False, d1) \<Rightarrow> (None, d1)
      | (True, d1) \<Rightarrow>
          (case readValue (dec_rest d1) of
             None \<Rightarrow> (None, d1\<lparr>dec_err := True\<rparr>)
           | Some (v, r) \<Rightarrow> (Some v, d1\<lparr>dec_rest := r, tokenState := ArrayComma\<rparr>)))"

text \<open>\<open>NewDecoder\<close> and the \<open>Token\<close> that skips the opening bracket.\<close>

definition array_decoder :: "string \<Rightarrow> Decoder" where
  "array_decoder s = \<lparr>dec_rest = tl (dropWhile json_space s), tokenState = ArrayStart, dec_err = False\<rparr>"

section \<open>Values inside an array\<close>

lemma json_space_simps [simp]:
  "json_space CHR '' ''" "\<not> json_space CHR ''[''" "\<not> json_space CHR '']''" "\<not> json_space CHR '',''" "\<not> json_space CHR ''}''"
  by (simp_all add: json_space_def)

lemmas scan_defs = begin_value_def begin_string_def push_state_def exponent_sign_def after_zero_def

text \<open>What can stand behind a value in an array ends it.\<close>

lemma separator_ends:
  assumes "scan_step ph ps CHR '' '' = AtEnd" "json_space c \<or> c = CHR '','' \<or> c = CHR '']''"
  shows "scan_step ph ps c = AtEnd"
proof -
  have "ps = []" using assms(1) by (cases ph; cases ps) (auto simp: scan_defs split: if_splits list.splits)
  with assms show ?thesis
    by (cases ph) (auto simp: scan_defs json_digit_def json_space_def split: if_splits list.splits)
qed

lemma read_then_separator:
  "read_rest ph ps e = Some (e, []) \<Longrightarrow> json_space c \<or> c = CHR '','' \<or> c = CHR '']'' \<Longrightarrow>
     read_rest ph ps (e @ c # r) = Some (e, c # r)"
proof (induction e arbitrary: ph ps)
  case Nil
  then show ?case using separator_ends [of ph ps c] by (simp split: if_splits)
next
  case (Cons x e)
  then show ?case by (auto split: scan_outcome.splits)
qed

lemma read_value_in_array:
  "json_text e \<Longrightarrow> list_all json_space w \<Longrightarrow> c = CHR '','' \<or> c = CHR '']'' \<Longrightarrow> readValue (e @ w @ c # r) = Some (e, w @ c # r)"
  using read_then_separator [of BeginValue "[]" e] by (cases w) (auto simp: json_text_def readValue_def)

section \<open>The elements of a text that was accepted\<close>

text \<open>
  A value inside an array is scanned by the decoder on its own, with nothing open, after the whole text
  was scanned with the array open. The two scans go together until the value ends.
\<close>

lemma end_value_open:
  "end_value c (ps @ [ArrayValue]) = Go ph qs \<Longrightarrow>
     (\<exists>ps'. end_value c ps = Go ph ps' \<and> qs = ps' @ [ArrayValue]) \<or> ps = [] \<and> end_value c ps = AtEnd"
  by (cases ps) (auto split: if_splits parse_state.splits)

lemma begin_value_open:
  "begin_value c (ps @ [ArrayValue]) = Go ph qs \<Longrightarrow> \<exists>ps'. begin_value c ps = Go ph ps' \<and> qs = ps' @ [ArrayValue]"
  unfolding begin_value_def push_state_def by (simp split: if_split_asm) (auto simp: json_space_def)

lemma begin_string_open:
  "begin_string c (ps @ [ArrayValue]) = Go ph qs \<Longrightarrow> \<exists>ps'. begin_string c ps = Go ph ps' \<and> qs = ps' @ [ArrayValue]"
  unfolding begin_string_def by (simp split: if_split_asm) (auto simp: json_space_def)

lemma exponent_sign_open:
  "exponent_sign c (ps @ [ArrayValue]) = Go ph qs \<Longrightarrow> \<exists>ps'. exponent_sign c ps = Go ph ps' \<and> qs = ps' @ [ArrayValue]"
  unfolding exponent_sign_def by (simp split: if_split_asm)

lemmas begin_open = begin_value_open begin_string_open exponent_sign_open

lemma after_zero_open:
  "after_zero c (ps @ [ArrayValue]) = Go ph qs \<Longrightarrow>
     (\<exists>ps'. after_zero c ps = Go ph ps' \<and> qs = ps' @ [ArrayValue]) \<or> ps = [] \<and> after_zero c ps = AtEnd \<and> end_value c [ArrayValue] = Go ph qs"
  using end_value_open [of c ps ph qs] by (auto simp: after_zero_def split: if_splits)

text \<open>An object that was just opened is open.\<close>

definition scan_ok :: "scan_phase \<Rightarrow> parse_state list \<Rightarrow> bool" where
  "scan_ok ph ps = (ph \<in> {BeginStringOrEmpty, BeginValueOrEmpty} \<longrightarrow> ps \<noteq> [])"

lemma end_value_ok: "end_value c ps = Go ph qs \<Longrightarrow> scan_ok ph qs"
  by (cases ps) (auto simp: scan_ok_def split: if_splits parse_state.splits)

lemma begin_value_ok: "begin_value c ps = Go ph qs \<Longrightarrow> scan_ok ph qs"
  unfolding begin_value_def push_state_def scan_ok_def by (simp split: if_splits) auto

lemma begin_string_ok: "begin_string c ps = Go ph qs \<Longrightarrow> scan_ok ph qs"
  by (auto simp: scan_ok_def begin_string_def split: if_splits)

lemma exponent_sign_ok: "exponent_sign c ps = Go ph qs \<Longrightarrow> scan_ok ph qs"
  by (auto simp: scan_ok_def exponent_sign_def split: if_splits)

lemmas helpers_ok = end_value_ok begin_value_ok begin_string_ok exponent_sign_ok

lemma after_zero_ok: "after_zero c ps = Go ph qs \<Longrightarrow> scan_ok ph qs"
  using helpers_ok(1) [of c ps ph qs] by (auto simp: after_zero_def scan_ok_def split: if_splits)

lemma plain_ok [simp]: "ph \<notin> {BeginStringOrEmpty, BeginValueOrEmpty} \<Longrightarrow> scan_ok ph ps"
  by (simp add: scan_ok_def)

lemma scan_step_ok:
  assumes "scan_step ph ps c = Go ph' ps'" "scan_ok ph ps" shows "scan_ok ph' ps'"
proof (cases ph)
  case BeginStringOrEmpty
  with assms show ?thesis by (auto split: if_splits list.splits simp del: end_value.simps dest: helpers_ok)
qed (use assms in \<open>auto split: if_splits list.splits nat.splits simp del: end_value.simps dest: helpers_ok after_zero_ok\<close>)

lemma scan_step_open:
  assumes "scan_step ph (ps @ [ArrayValue]) c = Go ph' qs" "scan_ok ph ps"
  shows "(\<exists>ps'. scan_step ph ps c = Go ph' ps' \<and> qs = ps' @ [ArrayValue]) \<or>
     scan_step ph ps c = AtEnd \<and> end_value c [ArrayValue] = Go ph' qs"
proof -
  note e = end_value_open [of c ps ph' qs] and b = begin_open [of c ps ph' qs] and z = after_zero_open [of c ps ph' qs]
  show ?thesis
  proof (cases ph)
    case BeginStringOrEmpty
    with assms obtain p qs' where ps: "ps = p # qs'" by (cases ps) (auto simp: scan_ok_def)
    from end_value_open [of c "ObjectValue # qs'" ph' qs] b(2) assms show ?thesis
      unfolding BeginStringOrEmpty ps
      by (cases "json_space c"; cases "c = CHR ''}''") (auto simp del: end_value.simps simp: ps)
  next
    case EndValue
    with assms e show ?thesis by auto
  next
    case BeginValueOrEmpty
    with assms e b(1) show ?thesis by (simp split: if_splits del: end_value.simps) auto
  next
    case BeginValue
    with assms b(1) show ?thesis by simp
  next
    case BeginString
    with assms b(2) show ?thesis by simp
  next
    case Num0
    with assms z show ?thesis by (simp del: end_value.simps) auto
  next
    case Num1
    with assms z show ?thesis by (simp split: if_splits del: end_value.simps) auto
  next
    case NumDot0
    with assms e show ?thesis by (simp split: if_splits del: end_value.simps) auto
  next
    case NumE0
    with assms e show ?thesis by (simp split: if_splits del: end_value.simps) auto
  next
    case (InLiteral lit)
    with assms e show ?thesis by (cases lit) (simp_all split: if_splits del: end_value.simps, auto)
  next
    case NumE
    with assms b(3) show ?thesis by (auto split: if_splits simp del: end_value.simps)
  next
    case NumESign
    with assms b(3) show ?thesis by simp
  next
    case (InStringEscU k)
    with assms show ?thesis by (cases k) (simp_all split: if_splits)
  qed (use assms in \<open>auto split: if_split_asm simp: json_digit_def simp del: end_value.simps\<close>)
qed

definition accepts :: "scan_phase \<Rightarrow> parse_state list \<Rightarrow> string \<Rightarrow> bool" where
  "accepts ph ps t = (read_rest ph ps t = Some (t, []))"

lemma never_at_end_open: "ps \<noteq> [] \<Longrightarrow> scan_step ph ps c \<noteq> AtEnd"
  by (cases ps; cases ph) (auto simp: scan_defs split: if_splits list.splits parse_state.splits nat.splits)

lemma accepts_Nil: "ps \<noteq> [] \<Longrightarrow> \<not> accepts ph ps []"
  using never_at_end_open by (simp add: accepts_def)

lemma accepts_Cons: "accepts ph ps (c # t) \<longleftrightarrow> (\<exists>ph' ps'. scan_step ph ps c = Go ph' ps' \<and> accepts ph' ps' t)"
  by (auto simp: accepts_def split: scan_outcome.split)

lemma element_of_accepted:
  "accepts ph (ps @ [ArrayValue]) t \<Longrightarrow> scan_ok ph ps \<Longrightarrow>
     \<exists>v r. read_rest ph ps t = Some (v, r) \<and> t = v @ r \<and> accepts EndValue [ArrayValue] r"
proof (induction t arbitrary: ph ps)
  case Nil
  then show ?case using accepts_Nil by blast
next
  case (Cons c t)
  then obtain ph' qs where go: "scan_step ph (ps @ [ArrayValue]) c = Go ph' qs" "accepts ph' qs t" by (auto simp: accepts_Cons)
  from scan_step_open [OF go(1) Cons.prems(2)] show ?case
  proof
    assume "\<exists>ps'. scan_step ph ps c = Go ph' ps' \<and> qs = ps' @ [ArrayValue]"
    then obtain ps' where ps': "scan_step ph ps c = Go ph' ps'" "qs = ps' @ [ArrayValue]" by blast
    from Cons.IH [of ph' ps'] go(2) ps' scan_step_ok [OF ps'(1) Cons.prems(2)] show ?thesis by auto
  next
    assume "scan_step ph ps c = AtEnd \<and> end_value c [ArrayValue] = Go ph' qs"
    with go(2) show ?thesis by (auto simp: accepts_Cons)
  qed
qed

lemma accepts_skip:
  assumes "ph \<in> {EndValue, BeginValueOrEmpty, BeginValue}" "ps \<noteq> []" "accepts ph ps t"
  shows "accepts ph ps (dropWhile json_space t)"
  using assms(3)
proof (induction t)
  case (Cons c t)
  then show ?case
    using assms(1,2) by (cases ps) (auto simp: accepts_Cons scan_defs)
qed simp

lemma begin_value_goes: "begin_value c ps \<noteq> AtEnd"
  by (simp add: begin_value_def push_state_def)

lemma readValue_nonempty: "readValue t = Some (v, r) \<Longrightarrow> v \<noteq> []"
  by (cases t) (auto simp: readValue_def begin_value_goes split: scan_outcome.splits if_splits)

text \<open>White space before a value does not matter.\<close>

lemma json_text_strip:
  assumes "json_text e"
  shows "json_text (dropWhile json_space e)" "dropWhile json_space e \<noteq> []"
    "hd (dropWhile json_space e) \<noteq> CHR '']''" "hd (dropWhile json_space e) \<noteq> CHR ''}''"
proof -
  have "json_text (dropWhile json_space e) \<and> dropWhile json_space e \<noteq> [] \<and>
      hd (dropWhile json_space e) \<noteq> CHR '']'' \<and> hd (dropWhile json_space e) \<noteq> CHR ''}''"
    using assms
  proof (induction e)
    case Nil
    then show ?case by (simp add: json_text_def readValue_def scan_defs)
  next
    case (Cons c e)
    show ?case
    proof (cases "json_space c")
      case True
      with Cons show ?thesis by (auto simp: json_text_def readValue_def begin_value_def)
    next
      case False
      with Cons.prems show ?thesis
        by (auto simp: json_text_def readValue_def begin_value_def push_state_def json_digit_def)
    qed
  qed
  then show "json_text (dropWhile json_space e)" "dropWhile json_space e \<noteq> []"
    "hd (dropWhile json_space e) \<noteq> CHR '']''" "hd (dropWhile json_space e) \<noteq> CHR ''}''" by blast+
qed

end
