(* ===== verification/Rpc.thy ===== *)
theory Rpc
  imports Errors Json_Text
begin

text \<open>
  Package \<open>rpc\<close> (\<open>rpc/json.go\<close>, \<open>rpc/errors.go\<close>): JSON-RPC messages, the predicates the router
  dispatches on, answers and errors, and the reading of batches and of positional arguments. A
  \<open>json.RawMessage\<close> is its text, or nil. Decoding one value into a Go type is an argument; which texts are
  values and how a batch splits into its elements is the scanner of \<open>Json_Text\<close>.
\<close>

type_synonym RawMessage = "string option"

section \<open>Constants\<close>

definition vsn :: string where "vsn = ''2.0''"
definition serviceMethodSeparator :: char where "serviceMethodSeparator = CHR ''_''"
definition subscribeMethodSuffix :: string where "subscribeMethodSuffix = ''_subscribe''"
definition unsubscribeMethodSuffix :: string where "unsubscribeMethodSuffix = ''_unsubscribe''"
definition privTransactionMethodPreffix :: string where "privTransactionMethodPreffix = ''priv_''"
definition privSendRawTransactionMethodPreffix :: string where "privSendRawTransactionMethodPreffix = ''eea_''"
definition sendRawTransactionMethodSuffix :: string where "sendRawTransactionMethodSuffix = ''_sendRawTransaction''"
definition getTransactionReceiptSuffix :: string where "getTransactionReceiptSuffix = ''_getTransactionReceipt''"
definition getTransactionCountSuffix :: string where "getTransactionCountSuffix = ''_getTransactionCount''"
definition getBlockByNumber :: string where "getBlockByNumber = ''_getBlockByNumber''"
definition getMetaTxResultSuffix :: string where "getMetaTxResultSuffix = ''_getMetaTxResult''"
definition defaultWriteTimeout :: duration where "defaultWriteTimeout = 10 * second"
definition defaultErrorCode :: int where "defaultErrorCode = - 32000"
definition null :: RawMessage where "null = Some ''null''"

lemmas method_names = subscribeMethodSuffix_def unsubscribeMethodSuffix_def privTransactionMethodPreffix_def
  privSendRawTransactionMethodPreffix_def sendRawTransactionMethodSuffix_def getTransactionReceiptSuffix_def
  getTransactionCountSuffix_def getBlockByNumber_def getMetaTxResultSuffix_def

section \<open>Messages\<close>

record jsonError =
  je_Code :: int
  je_Message :: string
  je_Data :: "string option"

record JsonrpcMessage =
  msg_Version :: string
  msg_ID :: RawMessage
  msg_Method :: string
  msg_Params :: RawMessage
  msg_Error :: "jsonError option"
  msg_Result :: RawMessage

definition zero_message :: JsonrpcMessage where
  "zero_message = \<lparr>msg_Version = [], msg_ID = None, msg_Method = [], msg_Params = None, msg_Error = None, msg_Result = None\<rparr>"

definition isNotification :: "JsonrpcMessage \<Rightarrow> bool" where
  "isNotification msg = (msg_ID msg = None \<and> msg_Method msg \<noteq> [])"

definition hasValidID :: "JsonrpcMessage \<Rightarrow> bool" where
  "hasValidID msg =
     (case msg_ID msg of Some (c # _) \<Rightarrow> c \<noteq> CHR ''{'' \<and> c \<noteq> CHR ''['' | _ \<Rightarrow> False)"

definition isCall :: "JsonrpcMessage \<Rightarrow> bool" where
  "isCall msg = (hasValidID msg \<and> msg_Method msg \<noteq> [])"

definition isResponse :: "JsonrpcMessage \<Rightarrow> bool" where
  "isResponse msg =
     (hasValidID msg \<and> msg_Method msg = [] \<and> msg_Params msg = None \<and> (msg_Result msg \<noteq> None \<or> msg_Error msg \<noteq> None))"

definition isSubscribe :: "JsonrpcMessage \<Rightarrow> bool" where
  "isSubscribe msg = HasSuffix (msg_Method msg) subscribeMethodSuffix"

definition isUnsubscribe :: "JsonrpcMessage \<Rightarrow> bool" where
  "isUnsubscribe msg = HasSuffix (msg_Method msg) unsubscribeMethodSuffix"

definition IsPrivTransaction :: "JsonrpcMessage \<Rightarrow> bool" where
  "IsPrivTransaction msg = HasPrefix (msg_Method msg) privTransactionMethodPreffix"

definition IsPrivRawTransaction :: "JsonrpcMessage \<Rightarrow> bool" where
  "IsPrivRawTransaction msg = HasPrefix (msg_Method msg) privSendRawTransactionMethodPreffix"

definition IsRawTransaction :: "JsonrpcMessage \<Rightarrow> bool" where
  "IsRawTransaction msg = HasSuffix (msg_Method msg) sendRawTransactionMethodSuffix"

definition IsGetTransactionReceipt :: "JsonrpcMessage \<Rightarrow> bool" where
  "IsGetTransactionReceipt msg = HasSuffix (msg_Method msg) getTransactionReceiptSuffix"

definition IsGetTransactionCount :: "JsonrpcMessage \<Rightarrow> bool" where
  "IsGetTransactionCount msg = HasSuffix (msg_Method msg) getTransactionCountSuffix"

definition IsGetMetaTxResult :: "JsonrpcMessage \<Rightarrow> bool" where
  "IsGetMetaTxResult msg = HasSuffix (msg_Method msg) getMetaTxResultSuffix"

definition IsGetBlockByNumber :: "JsonrpcMessage \<Rightarrow> bool" where
  "IsGetBlockByNumber msg = HasSuffix (msg_Method msg) getBlockByNumber"

text \<open>\<open>strings.SplitN(method, "_", 2)[0]\<close>.\<close>

definition namespace :: "JsonrpcMessage \<Rightarrow> string" where
  "namespace msg = takeWhile (\<lambda>c. c \<noteq> serviceMethodSeparator) (msg_Method msg)"

section \<open>Errors\<close>

text \<open>\<open>%q\<close> of \<open>fmt\<close> on ASCII text.\<close>

definition quote_char :: "char \<Rightarrow> string" where
  "quote_char c =
     (let n = of_char c :: nat
      in if c = CHR 0x22 then [CHR 0x5C, CHR 0x22]
         else if c = CHR 0x5C then [CHR 0x5C, CHR 0x5C]
         else if 32 \<le> n \<and> n < 127 then [c]
         else if 7 \<le> n \<and> n \<le> 13 then [CHR 0x5C, ''abtnvfr'' ! (n - 7)]
         else [CHR 0x5C, CHR ''x'', digit_char (n div 16), digit_char (n mod 16)])"

definition Quote :: "string \<Rightarrow> string" where
  "Quote s = [CHR 0x22] @ concat (map quote_char s) @ [CHR 0x22]"

datatype rpc_error =
    methodNotFoundError string
  | subscriptionNotFoundError string string
  | parseError string
  | invalidRequestError string
  | invalidMessageError string
  | invalidParamsError string
  | jsonErrorValue jsonError
  | otherError go_error

definition jsonError_Error :: "jsonError \<Rightarrow> string" where
  "jsonError_Error err =
     (if je_Message err = []
      then ''json-rpc error '' @ (if je_Code err < 0 then ''-'' else []) @ decimal_nat (nat \<bar>je_Code err\<bar>)
      else je_Message err)"

fun rpc_ErrorCode :: "rpc_error \<Rightarrow> int option" where
  "rpc_ErrorCode (methodNotFoundError _) = Some (- 32601)"
| "rpc_ErrorCode (subscriptionNotFoundError _ _) = Some (- 32601)"
| "rpc_ErrorCode (parseError _) = Some (- 32700)"
| "rpc_ErrorCode (invalidRequestError _) = Some (- 32600)"
| "rpc_ErrorCode (invalidMessageError _) = Some (- 32700)"
| "rpc_ErrorCode (invalidParamsError _) = Some (- 32602)"
| "rpc_ErrorCode (jsonErrorValue err) = Some (je_Code err)"
| "rpc_ErrorCode (otherError err) = err_code err"

fun rpc_Error :: "rpc_error \<Rightarrow> string" where
  "rpc_Error (methodNotFoundError m) = ''the method '' @ m @ '' does not exist/is not available''"
| "rpc_Error (subscriptionNotFoundError ns sub) = ''no '' @ Quote sub @ '' subscription in '' @ ns @ '' namespace''"
| "rpc_Error (parseError message) = message"
| "rpc_Error (invalidRequestError message) = message"
| "rpc_Error (invalidMessageError message) = message"
| "rpc_Error (invalidParamsError message) = message"
| "rpc_Error (jsonErrorValue err) = jsonError_Error err"
| "rpc_Error (otherError err) = err_text err"

fun rpc_ErrorData :: "rpc_error \<Rightarrow> string option" where
  "rpc_ErrorData (jsonErrorValue err) = je_Data err"
| "rpc_ErrorData _ = None"

section \<open>Answers\<close>

definition errorMessage :: "rpc_error \<Rightarrow> JsonrpcMessage" where
  "errorMessage err =
     zero_message\<lparr>msg_Version := vsn, msg_ID := null,
       msg_Error := Some \<lparr>je_Code = (case rpc_ErrorCode err of Some c \<Rightarrow> c | None \<Rightarrow> defaultErrorCode),
                         je_Message = rpc_Error err, je_Data = rpc_ErrorData err\<rparr>\<rparr>"

definition ErrorResponse :: "JsonrpcMessage \<Rightarrow> rpc_error \<Rightarrow> JsonrpcMessage" where
  "ErrorResponse msg err = (errorMessage err)\<lparr>msg_ID := msg_ID msg\<rparr>"

text \<open>\<open>Response\<close>; \<open>enc\<close> is what \<open>json.Marshal\<close> makes of the result.\<close>

definition Response :: "JsonrpcMessage \<Rightarrow> go_error + string \<Rightarrow> JsonrpcMessage" where
  "Response msg enc =
     (case enc of
        Inl e \<Rightarrow> ErrorResponse msg (otherError e)
      | Inr r \<Rightarrow> zero_message\<lparr>msg_Version := vsn, msg_ID := msg_ID msg, msg_Result := Some r\<rparr>)"

section \<open>The codec\<close>

text \<open>\<open>sync.Once\<close> lets the first close through; \<open>closes\<close> counts how often the channel was closed.\<close>

record jsonCodec =
  remote :: string
  closer_done :: bool
  closes :: nat
  conn_closed :: bool
  write_deadline :: "time option"

definition remoteAddr :: "jsonCodec \<Rightarrow> string" where "remoteAddr c = remote c"

definition codec_close :: "jsonCodec \<Rightarrow> jsonCodec" where
  "codec_close c =
     (if closer_done c then c else c\<lparr>closer_done := True, closes := Suc (closes c), conn_closed := True\<rparr>)"

definition writeJSON :: "time \<Rightarrow> time option \<Rightarrow> (jsonCodec \<Rightarrow> go_error option) \<Rightarrow> jsonCodec \<Rightarrow> go_error option \<times> jsonCodec" where
  "writeJSON now ctx_deadline encode c =
     (let deadline = (case ctx_deadline of None \<Rightarrow> now + defaultWriteTimeout | Some d \<Rightarrow> d);
          c1 = c\<lparr>write_deadline := Some deadline\<rparr>
      in (encode c1, c1))"

section \<open>Batches\<close>

fun isBatch :: "string \<Rightarrow> bool" where
  "isBatch [] = False"
| "isBatch (c # cs) = (if json_space c then isBatch cs else c = CHR ''['')"

text \<open>
  A value decoded into a pointer to a message: \<open>null\<close> makes the pointer nil, anything else goes into the
  message it points to. \<open>Unmarshal\<close> is that last part, and leaves the zero message on nonsense.
\<close>

definition decode_pointer :: "(string \<Rightarrow> JsonrpcMessage) \<Rightarrow> string \<Rightarrow> JsonrpcMessage option" where
  "decode_pointer Unmarshal v =
     (let w = dropWhile json_space v in if HasPrefix w ''null'' then None else Some (Unmarshal w))"

text \<open>
  The loop of \<open>parseMessage\<close> over the elements: a message is appended before each decoding, and the
  error of a decoding is dropped, so a decoder stopped by an error makes it run for ever.
\<close>

partial_function (option) decode_all ::
    "(string \<Rightarrow> JsonrpcMessage) \<Rightarrow> Decoder \<Rightarrow> JsonrpcMessage option list \<Rightarrow> JsonrpcMessage option list option" where
  "decode_all Unmarshal d msgs =
     (let (more, d1) = More d
      in if \<not> more then Some msgs
         else let (v, d2) = DecodeValue d1
              in decode_all Unmarshal d2
                   (msgs @ [case v of None \<Rightarrow> Some zero_message | Some t \<Rightarrow> decode_pointer Unmarshal t]))"

text \<open>\<open>parseMessage\<close>; no value is a call that does not return.\<close>

definition parseMessage :: "(string \<Rightarrow> JsonrpcMessage) \<Rightarrow> string \<Rightarrow> (JsonrpcMessage option list \<times> bool) option" where
  "parseMessage Unmarshal raw =
     (if \<not> isBatch raw
      then Some ([if checkValid raw then decode_pointer Unmarshal raw else Some zero_message], False)
      else map_option (\<lambda>msgs. (msgs, True)) (decode_all Unmarshal (array_decoder raw) []))"

definition readBatch ::
    "(string \<Rightarrow> JsonrpcMessage) \<Rightarrow> go_error + string \<Rightarrow> (go_error + JsonrpcMessage option list \<times> bool) option" where
  "readBatch Unmarshal decoded =
     (case decoded of Inl e \<Rightarrow> Some (Inl e) | Inr rawmsg \<Rightarrow> map_option Inr (parseMessage Unmarshal rawmsg))"

section \<open>Positional arguments\<close>

text \<open>What the first token of the arguments can be, and a Go type an argument is decoded into.\<close>

datatype json_token = TokEOF | TokError go_error | TokNull | TokArray "string list" "go_error option" | TokOther

record 'v arg_type =
  is_ptr :: bool
  decode_arg :: "string \<Rightarrow> go_error + 'v"
  zero_arg :: 'v

definition too_many :: "nat \<Rightarrow> go_error" where
  "too_many n = \<lparr>err_text = ''too many arguments, want at most '' @ decimal_nat n, err_code = None\<rparr>"

definition invalid_arg :: "nat \<Rightarrow> go_error \<Rightarrow> go_error" where
  "invalid_arg i e = \<lparr>err_text = ''invalid argument '' @ decimal_nat i @ '': '' @ err_text e, err_code = None\<rparr>"

definition missing_arg :: "nat \<Rightarrow> go_error" where
  "missing_arg i = \<lparr>err_text = ''missing value for required argument '' @ decimal_nat i, err_code = None\<rparr>"

definition plain_error :: "string \<Rightarrow> go_error" where
  "plain_error msg = \<lparr>err_text = msg, err_code = None\<rparr>"

text \<open>
  \<open>parseArgumentArray\<close>. The value tested with \<open>IsNil\<close> is the pointer \<open>reflect.New\<close> just returned, which
  is never nil, so that branch of the code cannot be taken.
\<close>

fun parseArgumentArray :: "nat \<Rightarrow> 'v arg_type list \<Rightarrow> string list \<Rightarrow> go_error option \<Rightarrow> 'v list \<Rightarrow> go_error + 'v list" where
  "parseArgumentArray n types [] fin args = (case fin of Some e \<Rightarrow> Inl e | None \<Rightarrow> Inr args)"
| "parseArgumentArray n [] (x # xs) fin args = Inl (too_many n)"
| "parseArgumentArray n (t # types) (x # xs) fin args =
     (case decode_arg t x of
        Inl e \<Rightarrow> Inl (invalid_arg (length args) e)
      | Inr v \<Rightarrow> parseArgumentArray n types xs fin (args @ [v]))"

fun fill_missing :: "nat \<Rightarrow> 'v arg_type list \<Rightarrow> 'v list \<Rightarrow> go_error + 'v list" where
  "fill_missing i [] args = Inr args"
| "fill_missing i (t # types) args =
     (if \<not> is_ptr t then Inl (missing_arg i) else fill_missing (Suc i) types (args @ [zero_arg t]))"

definition parsePositionalArguments :: "json_token \<Rightarrow> 'v arg_type list \<Rightarrow> go_error + 'v list" where
  "parsePositionalArguments tok types =
     (let parsed =
        (case tok of
           TokEOF \<Rightarrow> Inr []
         | TokNull \<Rightarrow> Inr []
         | TokError e \<Rightarrow> Inl e
         | TokArray xs fin \<Rightarrow> parseArgumentArray (length types) types xs fin []
         | TokOther \<Rightarrow> Inl (plain_error ''non-array args''))
      in case parsed of
           Inl e \<Rightarrow> Inl e
         | Inr args \<Rightarrow> fill_missing (length args) (drop (length args) types) args)"

text \<open>\<open>parseSubscriptionName\<close>; \<open>as_string\<close> reads a token as a string.\<close>

definition parseSubscriptionName :: "(string \<Rightarrow> string option) \<Rightarrow> json_token \<Rightarrow> go_error + string" where
  "parseSubscriptionName as_string tok =
     (case tok of
        TokArray xs _ \<Rightarrow>
          (case Option.bind (case xs of [] \<Rightarrow> None | x # _ \<Rightarrow> Some x) as_string of
             Some method \<Rightarrow> Inr method
           | None \<Rightarrow> Inl (plain_error ''expected subscription name as first argument''))
      | _ \<Rightarrow> Inl (plain_error ''non-array args''))"

section \<open>Properties\<close>

lemma codec_close_idem: "codec_close (codec_close c) = codec_close c"
  by (simp add: codec_close_def)

text \<open>One turn of the loop on a decoder that is not stopped.\<close>

lemma decode_all_end: "dropWhile json_space (dec_rest d) = CHR '']'' # r \<Longrightarrow> decode_all U d msgs = Some msgs"
  by (subst decode_all.simps) (simp add: More_def peek_def)

lemma decode_all_start:
  assumes "tokenState d = ArrayStart" "\<not> dec_err d" "dropWhile json_space (dec_rest d) = c # cs"
    "c \<noteq> CHR '']''" "c \<noteq> CHR ''}''" "readValue (c # cs) = Some (v, r)"
  shows "decode_all U d msgs = decode_all U (d\<lparr>dec_rest := r, tokenState := ArrayComma\<rparr>) (msgs @ [decode_pointer U v])"
  by (subst decode_all.simps) (use assms in \<open>simp add: More_def peek_def DecodeValue_def prepareForDecode_def\<close>)

lemma decode_all_comma:
  assumes "tokenState d = ArrayComma" "\<not> dec_err d" "dropWhile json_space (dec_rest d) = CHR '','' # cs"
    "readValue cs = Some (v, r)"
  shows "decode_all U d msgs = decode_all U (d\<lparr>dec_rest := r, tokenState := ArrayComma\<rparr>) (msgs @ [decode_pointer U v])"
  by (subst decode_all.simps) (use assms in \<open>simp add: More_def peek_def DecodeValue_def prepareForDecode_def\<close>)

text \<open>A decoder that an error stopped while there is more to read never comes to an end.\<close>

lemma stopped_decoder_loops:
  assumes "dec_err d" "fst (More d)"
  shows "decode_all U d msgs = None"
proof -
  have "\<not> (dec_err d \<and> fst (More d))" if "decode_all U d msgs = Some r" for r
    using that
  proof (rule decode_all.raw_induct [rotated, where P = "\<lambda>U d msgs r. \<not> (dec_err d \<and> fst (More d))"])
    fix f U' d' msgs' r'
    assume ih: "\<And>U d msgs r. f U d msgs = Some r \<Longrightarrow> \<not> (dec_err d \<and> fst (More d))"
      and run: "(let (more, d1) = More d'
        in if \<not> more then Some msgs'
           else let (v, d2) = DecodeValue d1
                in f U' d2 (msgs' @ [case v of None \<Rightarrow> Some zero_message | Some t \<Rightarrow> decode_pointer U' t])) = Some r'"
    have "dec_err (snd (More d')) = dec_err d'" by (auto simp: More_def peek_def split: list.split)
    moreover have "fst (More d') \<Longrightarrow> fst (More (snd (More d')))"
      using hd_dropWhile [of json_space "dec_rest d'"]
      by (cases "dropWhile json_space (dec_rest d')") (auto simp: More_def peek_def)
    moreover have "dec_err d1 \<Longrightarrow> DecodeValue d1 = (None, d1)" for d1 by (simp add: DecodeValue_def)
    ultimately show "\<not> (dec_err d' \<and> fst (More d'))"
      using ih [of U' "snd (More d')" "msgs' @ [Some zero_message]" r'] run by (cases "More d'") auto
  qed
  with assms show ?thesis by (cases "decode_all U d msgs") auto
qed

text \<open>What follows an element in a batch.\<close>

fun behind :: "(string \<times> string) list \<Rightarrow> string \<Rightarrow> string" where
  "behind [] rest = CHR '']'' # rest"
| "behind ((e, w) # es) rest = CHR '','' # e @ w @ behind es rest"

lemma Join_behind: "Join '','' (map (\<lambda>(e, w). e @ w) ((e, w) # es)) @ '']'' @ rest = e @ w @ behind es rest"
proof (induction es arbitrary: e w)
  case (Cons x es)
  obtain f v where "x = (f, v)" by (cases x)
  with Cons [of f v] show ?case by simp
qed simp

lemma behind_Cons: "\<exists>c t. behind es rest = c # t \<and> (c = CHR '','' \<or> c = CHR '']'')"
  by (cases es) auto

lemma dropWhile_spaces: "list_all json_space w \<Longrightarrow> dropWhile json_space (w @ t) = dropWhile json_space t"
  by (induction w) auto

lemma decode_elements:
  assumes "\<forall>(e, w) \<in> set es. json_text e \<and> list_all json_space w" "list_all json_space w0"
  shows "decode_all U \<lparr>dec_rest = w0 @ behind es rest, tokenState = ArrayComma, dec_err = False\<rparr> msgs =
     Some (msgs @ map (\<lambda>(e, w). decode_pointer U e) es)"
  using assms
proof (induction es arbitrary: w0 msgs)
  case Nil
  then show ?case by (subst decode_all_end) (auto simp: dropWhile_spaces)
next
  case (Cons x es)
  obtain e w where x: "x = (e, w)" by (cases x)
  from behind_Cons obtain c t where ct: "behind es rest = c # t" "c = CHR '','' \<or> c = CHR '']''" by blast
  from Cons.prems x have e: "json_text e" "list_all json_space w" by auto
  from read_value_in_array [OF e ct(2), of t] ct(1) have "readValue (e @ w @ behind es rest) = Some (e, w @ behind es rest)" by simp
  moreover have "\<forall>(e, w) \<in> set es. json_text e \<and> list_all json_space w" using Cons.prems(1) by simp
  ultimately show ?case
    using decode_all_comma [of "\<lparr>dec_rest = w0 @ behind (x # es) rest, tokenState = ArrayComma, dec_err = False\<rparr>"
        "e @ w @ behind es rest" e "w @ behind es rest" U msgs]
      Cons.IH [of w "msgs @ [decode_pointer U e]"] Cons.prems(2) e(2) x by (simp add: dropWhile_spaces)
qed

text \<open>
  C37: a batch is read back element by element. Whatever white space stands before the bracket, behind it
  and around the elements, and whatever follows the closing bracket, a batch written from any number of
  JSON values is taken for a batch, the loop over it ends, and it yields exactly one entry per value,
  in order: the message the value decodes to, or the nil pointer for \<open>null\<close>.
\<close>

theorem batch_roundtrip:
  assumes "list_all json_space ws" "list_all json_space ws'" "\<forall>(e, w) \<in> set es. json_text e \<and> list_all json_space w"
  shows "parseMessage Unmarshal (ws @ ''['' @ ws' @ Join '','' (map (\<lambda>(e, w). e @ w) es) @ '']'' @ rest) =
     Some (map (\<lambda>(e, w). decode_pointer Unmarshal e) es, True)"
proof -
  from assms(1) have batch: "isBatch (ws @ ''['' @ t)" "array_decoder (ws @ ''['' @ t) = \<lparr>dec_rest = t, tokenState = ArrayStart, dec_err = False\<rparr>" for t
    by (induction ws) (simp_all add: array_decoder_def)
  show ?thesis
  proof (cases es)
    case Nil
    then show ?thesis
      using batch [of "ws' @ '']'' @ rest"] assms(2) by (simp add: parseMessage_def decode_all_end dropWhile_spaces)
  next
    case (Cons x fs)
    obtain e w where x: "x = (e, w)" by (cases x)
    let ?tl = "behind fs rest" and ?e = "dropWhile json_space e"
    from behind_Cons obtain c t where ct: "?tl = c # t" "c = CHR '','' \<or> c = CHR '']''" by blast
    from assms(3) Cons x have e: "json_text e" "list_all json_space w" by auto
    from json_text_strip [OF e(1)] obtain h k where s: "json_text ?e" "?e = h # k" "h \<noteq> CHR '']''" "h \<noteq> CHR ''}''"
      by (cases ?e) auto
    from read_value_in_array [OF s(1) e(2) ct(2), of t] ct(1) have v: "readValue (?e @ w @ ?tl) = Some (?e, w @ ?tl)" by simp
    have "dropWhile json_space (e @ w @ ?tl) = ?e @ w @ ?tl"
      using s(2) by (metis dropWhile_append1 dropWhile_eq_Cons_conv in_set_conv_decomp takeWhile_dropWhile_id)
    then have dw: "dropWhile json_space (ws' @ e @ w @ ?tl) = ?e @ w @ ?tl"
      using assms(2) by (simp add: dropWhile_spaces)
    have "decode_all Unmarshal \<lparr>dec_rest = ws' @ e @ w @ ?tl, tokenState = ArrayStart, dec_err = False\<rparr> [] =
        decode_all Unmarshal \<lparr>dec_rest = w @ ?tl, tokenState = ArrayComma, dec_err = False\<rparr> [decode_pointer Unmarshal ?e]"
      using decode_all_start [of "\<lparr>dec_rest = ws' @ e @ w @ ?tl, tokenState = ArrayStart, dec_err = False\<rparr>" h "k @ w @ ?tl" ?e "w @ ?tl" Unmarshal "[]"]
        s v dw by simp
    moreover have "decode_pointer Unmarshal ?e = decode_pointer Unmarshal e" by (simp add: decode_pointer_def)
    moreover have "\<forall>(e, w) \<in> set fs. json_text e \<and> list_all json_space w" using assms(3) Cons by simp
    ultimately show ?thesis
      using decode_elements [of fs w Unmarshal rest "[decode_pointer Unmarshal e]"] e(2)
        batch [of "ws' @ e @ w @ ?tl"] Join_behind [of e w fs rest] Cons x by (simp add: parseMessage_def)
  qed
qed

text \<open>Two messages and a null, with white space around them.\<close>

theorem batch_roundtrip_witness:
  "parseMessage (\<lambda>t. zero_message\<lparr>msg_Method := t\<rparr>) '' [{}, null ,[-1.5e3]] '' =
     Some ([Some (zero_message\<lparr>msg_Method := ''{}''\<rparr>), None, Some (zero_message\<lparr>msg_Method := ''[-1.5e3]''\<rparr>)], True)"
proof -
  let ?es = "[(''{}'', []), ('' null'', '' ''), (''[-1.5e3]'', [])]" and ?U = "\<lambda>t. zero_message\<lparr>msg_Method := t\<rparr>"
  have "\<forall>(e, w) \<in> set ?es. json_text e \<and> list_all json_space w" by code_simp
  moreover have "list_all json_space '' ''" by code_simp
  moreover have "map (\<lambda>(e, w). decode_pointer ?U e) ?es =
      [Some (zero_message\<lparr>msg_Method := ''{}''\<rparr>), None, Some (zero_message\<lparr>msg_Method := ''[-1.5e3]''\<rparr>)]"
    by (simp add: decode_pointer_def json_space_def HasPrefix_def)
  ultimately show ?thesis using batch_roundtrip [of "'' ''" "[]" ?es ?U "'' ''"] by simp
qed

text \<open>
  What is left to read at the head of the loop is accepted, as the rest of an array whose first
  element is still to come or whose last element was just read.
\<close>

definition decoder_accepts :: "Decoder \<Rightarrow> bool" where
  "decoder_accepts d \<longleftrightarrow> \<not> dec_err d \<and>
     (case tokenState d of
        ArrayStart \<Rightarrow> accepts BeginValueOrEmpty [ArrayValue] (dec_rest d)
      | ArrayComma \<Rightarrow> accepts EndValue [ArrayValue] (dec_rest d)
      | ArrayElem \<Rightarrow> False)"

lemma accepted_element:
  assumes "accepts BeginValue [ArrayValue] t"
  shows "\<exists>v r. readValue t = Some (v, r) \<and> t = v @ r \<and> accepts EndValue [ArrayValue] r"
  using element_of_accepted [of BeginValue "[]" t] assms by (simp add: readValue_def)

lemma decode_all_returns: "decoder_accepts d \<Longrightarrow> \<exists>ms. decode_all U d msgs = Some ms"
proof (induction "length (dec_rest d)" arbitrary: d msgs rule: less_induct)
  case less
  let ?t = "dropWhile json_space (dec_rest d)"
  have shorter: "length ?t \<le> length (dec_rest d)" by (rule length_dropWhile_le)
  have ok: "\<not> dec_err d" using less.prems by (simp add: decoder_accepts_def)
  show ?case
  proof (cases "tokenState d")
    case ArrayStart
    with less.prems have "accepts BeginValueOrEmpty [ArrayValue] ?t"
      by (auto simp: decoder_accepts_def intro: accepts_skip)
    then obtain c cs where ct: "?t = c # cs" and acc: "accepts BeginValueOrEmpty [ArrayValue] (c # cs)"
      using accepts_Nil by (cases ?t) auto
    have sp: "\<not> json_space c" using ct by (metis hd_dropWhile list.discI list.sel(1))
    show ?thesis
    proof (cases "c = CHR '']''")
      case True
      with ct show ?thesis by (auto simp: decode_all_end)
    next
      case False
      with acc sp have "accepts BeginValue [ArrayValue] (c # cs)" by (simp add: accepts_Cons)
      from accepted_element [OF this] obtain v r where v: "readValue (c # cs) = Some (v, r)" "c # cs = v @ r"
        "accepts EndValue [ArrayValue] r" by blast
      have "c \<noteq> CHR ''}''" using v(1) by (auto simp: readValue_def begin_value_def json_space_def json_digit_def)
      moreover have "length r < length (dec_rest d)"
        using readValue_nonempty [OF v(1)] v(2) shorter ct by (cases v) auto
      moreover have "decoder_accepts (d\<lparr>dec_rest := r, tokenState := ArrayComma\<rparr>)" using ok v(3) by (simp add: decoder_accepts_def)
      ultimately show ?thesis
        using less.hyps [of "d\<lparr>dec_rest := r, tokenState := ArrayComma\<rparr>"] decode_all_start [OF ArrayStart ok ct False _ v(1), of U msgs] by simp
    qed
  next
    case ArrayComma
    with less.prems have "accepts EndValue [ArrayValue] ?t" by (auto simp: decoder_accepts_def intro: accepts_skip)
    then obtain c cs where ct: "?t = c # cs" and acc: "accepts EndValue [ArrayValue] (c # cs)"
      using accepts_Nil by (cases ?t) auto
    have sp: "\<not> json_space c" using ct by (metis hd_dropWhile list.discI list.sel(1))
    show ?thesis
    proof (cases "c = CHR '']''")
      case True
      with ct show ?thesis by (auto simp: decode_all_end)
    next
      case False
      with acc sp have c: "c = CHR '',''" and "accepts BeginValue [ArrayValue] cs" by (auto simp: accepts_Cons split: if_splits)
      from accepted_element [OF this(2)] obtain v r where v: "readValue cs = Some (v, r)" "cs = v @ r"
        "accepts EndValue [ArrayValue] r" by blast
      then have "length r < length (dec_rest d)" using shorter ct by simp
      moreover have "decoder_accepts (d\<lparr>dec_rest := r, tokenState := ArrayComma\<rparr>)" using ok v(3) by (simp add: decoder_accepts_def)
      ultimately show ?thesis
        using less.hyps [of "d\<lparr>dec_rest := r, tokenState := ArrayComma\<rparr>"] decode_all_comma [OF ArrayComma ok _ v(1), of U msgs] ct c by simp
    qed
  qed (use less.prems in \<open>simp add: decoder_accepts_def\<close>)
qed

text \<open>
  C38: reading a message always comes back. \<open>parseMessage\<close> drops the errors of its decoder, which would
  make it append messages for ever; on a text that passed the syntax check of the decoder of the stream
  that never happens, whatever the text is, so \<open>readBatch\<close> returns, and it takes the text for a batch
  exactly when the first character that is not white space is a bracket.
\<close>

theorem readBatch_returns:
  assumes "\<forall>raw. decoded = Inr raw \<longrightarrow> json_text raw"
  shows "\<exists>r. readBatch Unmarshal decoded = Some r \<and>
     (case decoded of Inl e \<Rightarrow> r = Inl e | Inr raw \<Rightarrow> \<exists>msgs. r = Inr (msgs, isBatch raw) \<and> (\<not> isBatch raw \<longrightarrow> length msgs = 1))"
proof (cases decoded)
  case (Inr raw)
  with assms have raw: "json_text raw" by simp
  show ?thesis
  proof (cases "isBatch raw")
    case True
    have strip: "isBatch t = (\<exists>u. dropWhile json_space t = CHR ''['' # u)" for t by (induction t) auto
    with True obtain u where u: "dropWhile json_space raw = CHR ''['' # u" by blast
    with json_text_strip(1) [OF raw] have "accepts BeginValue [] (CHR ''['' # u)"
      by (simp add: json_text_def readValue_def accepts_def)
    then have "accepts BeginValueOrEmpty [ArrayValue] u"
      by (simp add: accepts_Cons begin_value_def push_state_def maxNestingDepth_def)
    with u have "decoder_accepts (array_decoder raw)" by (simp add: decoder_accepts_def array_decoder_def)
    from decode_all_returns [OF this, of Unmarshal "[]"] True Inr show ?thesis
      by (auto simp: readBatch_def parseMessage_def)
  qed (use Inr in \<open>simp add: readBatch_def parseMessage_def\<close>)
qed (simp add: readBatch_def)

theorem readBatch_returns_witness:
  "\<exists>msgs. readBatch (\<lambda>_. zero_message) (Inr '' [[1,2],3 ]'') = Some (Inr (msgs, True))"
proof -
  have "json_text '' [[1,2],3 ]''" "isBatch '' [[1,2],3 ]''" by code_simp+
  with readBatch_returns [of "Inr '' [[1,2],3 ]''" "\<lambda>_. zero_message"] show ?thesis by auto
qed

text \<open>On a text that is no JSON value the loop really does not come back.\<close>

lemma invalid_batch_loops: "parseMessage Unmarshal ''[{[1,2]}]'' = None"
proof -
  have "array_decoder ''[{[1,2]}]'' = \<lparr>dec_rest = ''{[1,2]}]'', tokenState = ArrayStart, dec_err = False\<rparr>" by code_simp
  moreover have "More \<lparr>dec_rest = ''{[1,2]}]'', tokenState = ArrayStart, dec_err = False\<rparr> =
      (True, \<lparr>dec_rest = ''{[1,2]}]'', tokenState = ArrayStart, dec_err = False\<rparr>)" by code_simp
  moreover have "DecodeValue \<lparr>dec_rest = ''{[1,2]}]'', tokenState = ArrayStart, dec_err = False\<rparr> =
      (None, \<lparr>dec_rest = ''{[1,2]}]'', tokenState = ArrayStart, dec_err = True\<rparr>)" by code_simp
  moreover have "fst (More \<lparr>dec_rest = ''{[1,2]}]'', tokenState = ArrayStart, dec_err = True\<rparr>)" by code_simp
  moreover have "isBatch ''[{[1,2]}]''" by code_simp
  ultimately show ?thesis
    using stopped_decoder_loops [of "\<lparr>dec_rest = ''{[1,2]}]'', tokenState = ArrayStart, dec_err = True\<rparr>"]
    by (simp add: parseMessage_def decode_all.simps [of _ "\<lparr>dec_rest = ''{[1,2]}]'', tokenState = ArrayStart, dec_err = False\<rparr>"])
qed

lemma parseArgumentArray_length:
  "parseArgumentArray n types xs fin args = Inr vs \<Longrightarrow> length vs = length args + length xs \<and> length xs \<le> length types"
  by (induction n types xs fin args rule: parseArgumentArray.induct) (auto split: option.splits sum.splits)

lemma fill_missing_length: "fill_missing i types args = Inr vs \<Longrightarrow> length vs = length args + length types"
  by (induction types arbitrary: i args) (auto split: if_splits)

text \<open>
  Whatever the arguments are, a call that goes through gets exactly one value per declared type: the
  missing ones are filled in and surplus ones are refused.
\<close>

theorem positional_arguments_complete:
  assumes "parsePositionalArguments tok types = Inr vs"
  shows "length vs = length types"
  using assms
  by (auto simp: parsePositionalArguments_def Let_def dest!: parseArgumentArray_length fill_missing_length
      split: json_token.splits sum.splits)

text \<open>
  An answer always belongs to its request. Both kinds of answer carry the identifier of the
  request and the protocol version, and never both a result and an error; an answer is taken for a
  response exactly when the identifier of the request was valid, and an error without a code of its
  own is answered with the default code.
\<close>

theorem answer_is_a_response:
  "msg_ID (ErrorResponse msg err) = msg_ID msg \<and> msg_ID (Response msg enc) = msg_ID msg \<and>
   msg_Version (ErrorResponse msg err) = vsn \<and> msg_Version (Response msg enc) = vsn \<and>
   isResponse (ErrorResponse msg err) = hasValidID msg \<and> isResponse (Response msg enc) = hasValidID msg \<and>
   (msg_Error (Response msg enc) = None) = (msg_Result (Response msg enc) \<noteq> None) \<and>
   map_option je_Code (msg_Error (ErrorResponse msg err)) = Some (case rpc_ErrorCode err of None \<Rightarrow> defaultErrorCode | Some c \<Rightarrow> c)"
proof -
  have "hasValidID (m\<lparr>msg_ID := msg_ID msg\<rparr>) = hasValidID msg" for m :: JsonrpcMessage by (simp add: hasValidID_def)
  then show ?thesis
    by (auto simp: ErrorResponse_def Response_def errorMessage_def zero_message_def isResponse_def hasValidID_def split: sum.split option.split)
qed

end
