(* ===== verification/Handlers.thy ===== *)
theory Handlers
  imports Prepare Handout Watcher Rpc
begin

text \<open>
  The JSON-RPC handlers of \<open>service/relaySignerService.go\<close>, whole, and the synchronous relay of
  \<open>service/relay.go\<close>. They compose the components: a handler recalls under which identifiers the
  metatx was sent, asks the node, reads the receipt and answers. Encoding an answer as JSON is an
  argument, since the encoder can refuse a value.
\<close>

section \<open>Answering\<close>

definition request :: "RawMessage \<Rightarrow> JsonrpcMessage" where
  "request i = zero_message\<lparr>msg_ID := i\<rparr>"

definition HandleError :: "RawMessage \<Rightarrow> go_error \<Rightarrow> JsonrpcMessage" where
  "HandleError i e = ErrorResponse (request i) (otherError e)"

section \<open>Sending\<close>

text \<open>\<open>SendMetatransaction\<close>: a metatx from its parts, sent without the reorder gate or the gas check.\<close>

definition SendMetatransaction_rpc ::
    "meta_lib \<Rightarrow> (Hash \<Rightarrow> go_error + string) \<Rightarrow> time \<Rightarrow> Hash list \<Rightarrow> (Hash \<Rightarrow> string) \<Rightarrow> broadcast_env \<Rightarrow> Context \<Rightarrow> RawMessage \<Rightarrow>
     Address option \<Rightarrow> uint64 \<Rightarrow> bytes \<Rightarrow> byte \<Rightarrow> bytes \<Rightarrow> bytes \<Rightarrow> string \<Rightarrow> uint64 \<Rightarrow> RelaySignerService \<Rightarrow>
     JsonrpcMessage \<times> RelaySignerService" where
  "SendMetatransaction_rpc lib Marshal now order hex env ctx i to gasLimit signingData v r s sender nc st =
     (let p = \<lparr>From = lib_HexToAddress lib sender, To = to, SigningData = signingData, V = v, R = r, S = s, Nonce = nc,
               MetaTxGasLimit = gasLimit, IsDeploy = (to = None), SenderKey = sender\<rparr>
      in case sendPrepared now order hex env ctx p st of
           (Inl e, st1) \<Rightarrow> (HandleError i e, st1)
         | (Inr (hash, _), st1) \<Rightarrow> (Response (request i) (Marshal hash), st1))"

section \<open>Receipts and results\<close>

record answer_lib =
  marshal_receipt :: "Receipt option \<Rightarrow> go_error + string"
  marshal_reverted :: "Receipt \<Rightarrow> string \<Rightarrow> go_error + string"
  marshal_result :: "string \<Rightarrow> meta_result \<Rightarrow> go_error + string"
  marshal_text :: "string \<Rightarrow> go_error + string"

text \<open>
  \<open>GetTransactionReceipt\<close>. When the node answers the request with an error, the answer made of that
  error is dropped and the handler goes on without a receipt.
\<close>

definition GetTransactionReceipt_rpc ::
    "eth_lib \<Rightarrow> answer_lib \<Rightarrow> receipt_env \<Rightarrow> time \<Rightarrow> Context \<Rightarrow> RawMessage \<Rightarrow> string \<Rightarrow> RelaySignerService \<Rightarrow>
     (JsonrpcMessage \<times> RelaySignerService) go_result" where
  "GetTransactionReceipt_rpc lib al env now ctx i transactionID s =
     (let hash = HexToHash lib transactionID; s1 = snd (recallMetaTx now ctx hash s)
      in case rc_Connect env of
           Some e \<Rightarrow> Returns (HandleError i e, s1)
         | None \<Rightarrow>
             (case (case rc_GetTransactionReceipt env hash of Inl _ \<Rightarrow> None | Inr r \<Rightarrow> r) of
                None \<Rightarrow> Returns (Response (request i) (marshal_receipt al None), s1)
              | Some r \<Rightarrow>
                  (case readReceipt lib r s1 of
                     Panics why \<Rightarrow> Panics why
                   | Returns (rs, s2) \<Rightarrow>
                       Returns (Response (request i)
                         (case receiptReverted rs of
                            Some (rr, reason) \<Rightarrow> marshal_reverted al rr reason
                          | None \<Rightarrow> marshal_receipt al (Some (rs_receipt rs))), s2))))"

definition GetMetaTxResult_rpc ::
    "eth_lib \<Rightarrow> answer_lib \<Rightarrow> receipt_env \<Rightarrow> time \<Rightarrow> Context \<Rightarrow> RawMessage \<Rightarrow> string \<Rightarrow> RelaySignerService \<Rightarrow>
     (JsonrpcMessage \<times> RelaySignerService) go_result" where
  "GetMetaTxResult_rpc lib al env now ctx i transactionID s =
     (let hash = HexToHash lib transactionID; s1 = snd (recallMetaTx now ctx hash s)
      in case rc_Connect env of
           Some e \<Rightarrow> Returns (HandleError i e, s1)
         | None \<Rightarrow>
             (case rc_GetTransactionReceipt env hash of
                Inl e \<Rightarrow> Returns (HandleError i e, s1)
              | Inr receipt \<Rightarrow>
                  (case metaTxResult lib receipt s1 of
                     Panics why \<Rightarrow> Panics why
                   | Returns (out, s2) \<Rightarrow>
                       Returns (Response (request i) (marshal_result al (''0x'' @ transactionID) out), s2))))"

section \<open>The count of transactions\<close>

text \<open>\<open>fmt.Sprintf("0x%x", count)\<close> of a \<open>*big.Int\<close> that may be nil.\<close>

definition count_text :: "nat option \<Rightarrow> string" where
  "count_text count = ''0x'' @ (case count of None \<Rightarrow> ''<nil>'' | Some n \<Rightarrow> hex_nat n)"

text \<open>
  \<open>GetTransactionCount\<close>. \<open>answer\<close> is what \<open>HandOutNonce\<close> gave when the pending count was asked for. A
  missing key, public key or hub address is dereferenced.
\<close>

definition chain_count :: "meta_lib \<Rightarrow> node_env \<Rightarrow> Config option \<Rightarrow> string \<Rightarrow> nat option go_result" where
  "chain_count lib env cfg from =
     (case cfg of
        None \<Rightarrow> Panics ''nil pointer dereference''
      | Some c \<Rightarrow>
          (case lib_HexToECDSA lib (Key (Application c)) of
             Inl _ \<Rightarrow> Panics ''nil pointer dereference''
           | Inr privateKey \<Rightarrow>
               (case lib_Public lib privateKey of
                  None \<Rightarrow> Panics ''nil pointer dereference''
                | Some publicKey \<Rightarrow>
                    (case RelayHubContractAddress (Application c) of
                       None \<Rightarrow> Panics ''nil pointer dereference''
                     | Some hub \<Rightarrow>
                         (case GetTransactionCount env hub (lib_HexToAddress lib from) (PubkeyToAddress lib publicKey) of
                            Inl _ \<Rightarrow> Returns None
                          | Inr n \<Rightarrow> Returns n)))))"

definition GetTransactionCount_rpc ::
    "meta_lib \<Rightarrow> answer_lib \<Rightarrow> node_env \<Rightarrow> RawMessage \<Rightarrow> string \<Rightarrow> bool \<Rightarrow> go_error + uint64 \<Rightarrow> RelaySignerService \<Rightarrow> JsonrpcMessage go_result" where
  "GetTransactionCount_rpc lib al env i from isPending answer s =
     (case (if isPending then (case answer of Inr n \<Rightarrow> Some (unat n) | Inl _ \<Rightarrow> None) else None) of
        Some n \<Rightarrow> Returns (Response (request i) (marshal_text al (count_text (Some n))))
      | None \<Rightarrow>
          (case Connect env of
             Some e \<Rightarrow> Returns (HandleError i e)
           | None \<Rightarrow>
               (case chain_count lib env (Cfg s) from of
                  Panics why \<Rightarrow> Panics why
                | Returns count \<Rightarrow> Returns (Response (request i) (marshal_text al (count_text count))))))"

section \<open>Giving gas back\<close>

record decrease_env =
  de_Connect :: "go_error option"
  de_HexToECDSA :: "go_error option"
  de_ConfigTransaction :: "go_error option"
  de_DecreaseGasUsed :: "bool \<Rightarrow> go_error option go_result"

text \<open>
  The options are nil when they could not be made, and the client gets them all the same; the argument
  of the last call says whether it got any.
\<close>

definition DecreaseGasUsed :: "decrease_env \<Rightarrow> bool go_result" where
  "DecreaseGasUsed env =
     (case de_Connect env of
        Some _ \<Rightarrow> Returns False
      | None \<Rightarrow>
          (case de_HexToECDSA env of
             Some e \<Rightarrow> Panics (err_text e)
           | None \<Rightarrow>
               (case de_DecreaseGasUsed env (de_ConfigTransaction env = None) of
                  Panics why \<Rightarrow> Panics why
                | Returns _ \<Rightarrow> Returns True)))"

section \<open>The synchronous relay\<close>

text \<open>Connecting comes before the polling; the client's context and the deadline end the wait.\<close>

definition waitForReceipt_call :: "eth_lib \<Rightarrow> go_error option \<Rightarrow> string \<Rightarrow> Hash \<Rightarrow> poll list \<Rightarrow> (go_error + Receipt) option" where
  "waitForReceipt_call lib connect timeout hash polls =
     (case connect of Some e \<Rightarrow> Some (Inl e) | None \<Rightarrow> waitForReceipt lib timeout hash None polls)"

text \<open>
  While a request is on the send path the rest of the service goes on: other requests arrive and take
  their steps, the bookkeeping of nonces and timers runs, a new block frees the gas. A run is a list
  of such moves; a step that is not possible at its turn is no move.
\<close>

datatype move =
    Step nat send_input
  | Arrive nat PreparedMetaTx Context
  | Service "RelaySignerService \<Rightarrow> RelaySignerService"
  | NewBlock

fun run_move :: "move \<Rightarrow> sys \<Rightarrow> sys" where
  "run_move (Step pid i) \<sigma> =
     (case threads \<sigma> pid of
        None \<Rightarrow> \<sigma>
      | Some th \<Rightarrow> (case send_step i pid th \<sigma> of None \<Rightarrow> \<sigma> | Some \<sigma>' \<Rightarrow> \<sigma>'))"
| "run_move (Arrive pid p ctx) \<sigma> =
     (if threads \<sigma> pid = None then \<sigma>\<lparr>threads := (threads \<sigma>)(pid \<mapsto> \<lparr>th_tx = p, th_ctx = ctx, th_pc = AtGate\<rparr>)\<rparr> else \<sigma>)"
| "run_move (Service f) \<sigma> = \<sigma>\<lparr>svc := f (svc \<sigma>)\<rparr>"
| "run_move NewBlock \<sigma> = \<sigma>\<lparr>gas_used := decrement (gas_used \<sigma>)\<rparr>"

definition run_moves :: "move list \<Rightarrow> sys \<Rightarrow> sys" where
  "run_moves ms \<sigma> = fold run_move ms \<sigma>"

text \<open>What a request sees of the world, from its arrival to the receipt of its metatx.\<close>

record relay_env =
  re_prepare :: prepare_env
  re_now :: time
  re_order :: "Hash list"
  re_gas :: gas_env
  re_send :: broadcast_env
  re_pid :: nat
  re_moves :: "move list"
  re_wait_Connect :: "go_error option"
  re_timeout :: string
  re_polls :: "poll list"
  re_read_at :: time

text \<open>
  The whole call of \<open>ReserveGasAndSend\<close>. With reordering off it is one section; with it on the request
  becomes a thread of the send path, and the call returns when, after the moves of the run, that
  thread is done. No result is a call that has not returned yet.
\<close>

definition thread_result :: "nat \<Rightarrow> sys \<Rightarrow> send_result option" where
  "thread_result pid \<sigma> =
     (case threads \<sigma> pid of
        Some th \<Rightarrow> (case th_pc th of AtDone r \<Rightarrow> Some r | _ \<Rightarrow> None)
      | None \<Rightarrow> None)"

definition ReserveGasAndSend_call ::
    "meta_lib \<Rightarrow> relay_env \<Rightarrow> Context \<Rightarrow> PreparedMetaTx \<Rightarrow> sys \<Rightarrow> send_result option \<times> sys" where
  "ReserveGasAndSend_call lib env ctx p \<sigma> =
     (case ReserveGasAndSend (re_now env) (re_order env) (Hash_Hex lib) (re_gas env) (re_send env) ctx p (svc \<sigma>, gas_used \<sigma>) of
        Inr (r, s1, g1) \<Rightarrow> (Some (map_sum id fst r), \<sigma>\<lparr>svc := s1, gas_used := g1\<rparr>)
      | Inl th \<Rightarrow>
          if threads \<sigma> (re_pid env) \<noteq> None then (None, \<sigma>)
          else (let \<sigma>1 = run_moves (re_moves env) (\<sigma>\<lparr>threads := (threads \<sigma>)(re_pid env \<mapsto> th)\<rparr>)
                in (thread_result (re_pid env) \<sigma>1, \<sigma>1)))"

text \<open>\<open>RelayAndWait\<close> once the metatx was sent or refused. \<open>None\<close> is a wait that is not over with the answers given.\<close>

definition relay_after_send ::
    "meta_lib \<Rightarrow> relay_env \<Rightarrow> PreparedMetaTx \<Rightarrow> send_result \<Rightarrow> RelaySignerService \<times> uint64 \<Rightarrow>
     (relay_error + RelayResult) option go_result \<times> RelaySignerService \<times> uint64" where
  "relay_after_send lib env p sent_result sg =
     (case sent_result of
        Inl e \<Rightarrow> (Returns (Some (Inl e)), sg)
      | Inr hash \<Rightarrow>
          (case waitForReceipt_call (eth_lib.truncate lib) (re_wait_Connect env) (re_timeout env) hash (re_polls env) of
             None \<Rightarrow> (Returns None, sg)
           | Some (Inl e) \<Rightarrow> (Returns (Some (Inl (Rejected (Reject e CodeReceiptTimeout)))), sg)
           | Some (Inr r) \<Rightarrow>
               (case decodeRelayResult (eth_lib.truncate lib) (re_read_at env) hash p (Some r) (fst sg) of
                  Panics why \<Rightarrow> (Panics why, sg)
                | Returns (res, s3) \<Rightarrow> (Returns (Some (Inr res)), s3, snd sg))))"

definition relay_wait ::
    "meta_lib \<Rightarrow> relay_env \<Rightarrow> PreparedMetaTx \<Rightarrow> send_result \<Rightarrow> sys \<Rightarrow> (relay_error + RelayResult) option go_result \<times> sys" where
  "relay_wait lib env p sent_result \<sigma> =
     (case relay_after_send lib env p sent_result (svc \<sigma>, gas_used \<sigma>) of
        (res, s1, g1) \<Rightarrow> (res, \<sigma>\<lparr>svc := s1, gas_used := g1\<rparr>))"

definition RelayAndWait ::
    "meta_lib \<Rightarrow> relay_env \<Rightarrow> Context \<Rightarrow> string \<Rightarrow> sys \<Rightarrow> (relay_error + RelayResult) option go_result \<times> sys" where
  "RelayAndWait lib env ctx rawTx \<sigma> =
     (case PrepareMetaTx lib (re_prepare env) rawTx (svc \<sigma>) of
        (Inl rej, _, s1) \<Rightarrow> (Returns (Some (Inl (Rejected rej))), \<sigma>\<lparr>svc := s1\<rparr>)
      | (Inr (_, p), _, s1) \<Rightarrow>
          (case ReserveGasAndSend_call lib env ctx p (\<sigma>\<lparr>svc := s1\<rparr>) of
             (None, \<sigma>1) \<Rightarrow> (Returns None, \<sigma>1)
           | (Some r, \<sigma>1) \<Rightarrow> relay_wait lib env p r \<sigma>1))"

section \<open>What the handlers guarantee\<close>

lemma answer_ids [simp]:
  "msg_ID (HandleError i e) = i" "msg_ID (Response (request i) enc) = i" "msg_Version (HandleError i e) = vsn"
  "msg_Version (Response (request i) enc) = vsn"
  by (simp_all add: HandleError_def ErrorResponse_def Response_def request_def errorMessage_def zero_message_def split: sum.split)

text \<open>
  Every answer belongs to its request. Whatever the node, the encoder and the chain do, a handler
  that returns answers with the identifier it was called with and the protocol version.
\<close>

theorem handlers_answer_their_request:
  "(case GetTransactionReceipt_rpc lib al env now ctx i t s of Returns (m, _) \<Rightarrow> msg_ID m = i \<and> msg_Version m = vsn | Panics _ \<Rightarrow> True) \<and>
   (case GetMetaTxResult_rpc lib al env now ctx i t s of Returns (m, _) \<Rightarrow> msg_ID m = i \<and> msg_Version m = vsn | Panics _ \<Rightarrow> True) \<and>
   (case GetTransactionCount_rpc ml al nenv i from pend answer s of Returns m \<Rightarrow> msg_ID m = i \<and> msg_Version m = vsn | Panics _ \<Rightarrow> True) \<and>
   (case SendMetatransaction_rpc ml M now order hex benv ctx i to gl sd v r sg sender n s of (m, _) \<Rightarrow> msg_ID m = i \<and> msg_Version m = vsn)"
  by (intro conjI)
    (simp_all add: GetTransactionReceipt_rpc_def GetMetaTxResult_rpc_def GetTransactionCount_rpc_def SendMetatransaction_rpc_def Let_def
      split: option.split sum.split go_result.split prod.split)

text \<open>
  A failure of the hub is not reported. When the count is not handed out and the hub's answer is an
  error, the handler answers successfully, and the result it sends is the text \<open>0x<nil>\<close>.
\<close>

theorem GetTransactionCount_hides_failure:
  assumes "Connect env = None" "Cfg s = Some c" "lib_HexToECDSA lib (Key (Application c)) = Inr k" "lib_Public lib k = Some pk"
    "RelayHubContractAddress (Application c) = Some hub"
    "GetTransactionCount env hub (lib_HexToAddress lib from) (PubkeyToAddress lib pk) = Inl e"
  shows "GetTransactionCount_rpc lib al env i from False answer s = Returns (Response (request i) (marshal_text al ''0x<nil>''))"
  using assms by (simp add: GetTransactionCount_rpc_def chain_count_def count_text_def)

lemma VerifySender_frame:
  "VerifySender now answered env a s = (r, s1) \<Longrightarrow> \<exists>x. s1 = s\<lparr>rules := x\<rparr>"
  by (auto simp: VerifySender_def AccountPermitted_def split: option.splits prod.splits sum.splits
      intro: exI [of _ "rules s"])

lemma check_sender_frame: "check_sender env from s = (r, s1) \<Longrightarrow> \<exists>x. s1 = s\<lparr>rules := x\<rparr>"
  by (auto simp: check_sender_def split: if_splits prod.splits sum.splits dest: VerifySender_frame intro: exI [of _ "rules s"])

lemma PrepareMetaTx_frame: "PrepareMetaTx lib env rawTx s = (r, lg, s1) \<Longrightarrow> \<exists>x. s1 = s\<lparr>rules := x\<rparr>"
  by (auto simp: PrepareMetaTx_def Let_def split: prod.splits sum.splits option.splits dest: check_sender_frame
      intro: exI [of _ "rules s"])

lemma PrepareMetaTx_code: "PrepareMetaTx lib env rawTx s = (Inl rej, lg, s1) \<Longrightarrow> code rej \<noteq> CodeReceiptTimeout"
proof -
  have sig: "check_signature lib tx = Inl r \<Longrightarrow> code r = CodeBadMetaTx" for tx r
    by (auto simp: check_signature_def Let_def Reject_def split: option.splits if_splits sum.splits)
  have sender: "check_sender env a s = (Some r, s1) \<Longrightarrow> code r \<in> {CodePermissioningUnavailable, CodeSenderNotPermitted}" for a r s1
    by (auto simp: check_sender_def Reject_def split: if_splits prod.splits sum.splits)
  have suffix: "validateGasModelSuffix lib node u d s = (Some r, lg) \<Longrightarrow> code r \<in> {CodeWrongNodeAddress, CodeExpired, CodeExpirationTooLow, CodeRelayError, CodeBadMetaTx}" for node u d r lg
    by (auto simp: validateGasModelSuffix_def checkNodeAddress_def checkExpiration_def expired_def expiration_too_low_def Reject_def
        RejectWithDetails_def Let_def split: if_splits option.splits sum.splits)
  assume "PrepareMetaTx lib env rawTx s = (Inl rej, lg, s1)"
  then consider "code rej = CodeBadRawTx" | tx where "check_signature lib tx = Inl rej"
    | node u d lg' where "validateGasModelSuffix lib node u d s = (Some rej, lg')"
    | a where "check_sender env a s = (Some rej, s1)" | "code rej = CodeRelayError"
    by (auto simp: PrepareMetaTx_def Let_def Reject_def split: prod.splits sum.splits option.splits)
  then show ?thesis
    by cases (auto dest!: sig sender suffix simp: code_defs)
qed

lemma sendPrepared_unsent: "sendPrepared now order hex env ctx p s = (Inl e, s1) \<Longrightarrow> s1 = s"
  by (auto simp: sendPrepared_def split: sum.splits prod.splits)

lemma sendPrepared_remembered:
  "sendPrepared now order hex env ctx p s = (Inr (h, f), s1) \<Longrightarrow> MetaTxID ctx \<noteq> [] \<Longrightarrow> \<exists>e. metaTx s1 h = Some e \<and> \<not> settled e"
  by (auto simp: sendPrepared_def rememberMetaTx_def Let_def split: sum.splits prod.splits if_splits)

lemma reserveGasAndSend_unsent:
  "reserveGasAndSend now order hex genv env ctx p (s, g) = (Inl (Rejected r), s1, g1) \<Longrightarrow> s1 = s \<and> code r \<noteq> CodeReceiptTimeout"
  by (auto simp: reserveGasAndSend_def reserveGas_def Reject_def code_defs split: prod.splits sum.splits option.splits if_splits
      dest: sendPrepared_unsent)

lemma reserveGasAndSend_sent:
  "reserveGasAndSend now order hex genv env ctx p (s, g) = (Inr (h, f), s1, g1) \<Longrightarrow> MetaTxID ctx \<noteq> [] \<Longrightarrow> \<exists>e. metaTx s1 h = Some e \<and> \<not> settled e"
  by (auto simp: reserveGasAndSend_def split: prod.splits sum.splits option.splits dest: sendPrepared_remembered)

lemma relay_after_send_Inl [simp]: "relay_after_send lib env p (Inl e) sg = (Returns (Some (Inl e)), sg)"
  by (simp add: relay_after_send_def)

lemma relay_after_send_timeout:
  "relay_after_send lib env p (Inr h) sg = (Returns (Some (Inl (Rejected rej))), sg') \<Longrightarrow> code rej = CodeReceiptTimeout \<and> sg' = sg"
  by (auto simp: relay_after_send_def Reject_def split: option.splits sum.splits go_result.splits prod.splits)

text \<open>With reordering off the call of \<open>ReserveGasAndSend\<close> is the section \<open>reserveGasAndSend\<close>.\<close>

lemma ReserveGasAndSend_call_off:
  assumes "\<not> reorderEnabled (svc \<sigma>)"
    "reserveGasAndSend (re_now env) (re_order env) (Hash_Hex lib) (re_gas env) (re_send env) ctx p (svc \<sigma>, gas_used \<sigma>) = (r, s1, g1)"
  shows "ReserveGasAndSend_call lib env ctx p \<sigma> = (Some (map_sum id fst r), \<sigma>\<lparr>svc := s1, gas_used := g1\<rparr>)"
  using assms by (simp add: ReserveGasAndSend_call_def ReserveGasAndSend_def)


theorem GetTransactionCount_hides_failure_witness:
  "GetTransactionCount_rpc sample_meta_lib \<lparr>marshal_receipt = (\<lambda>_. Inr []), marshal_reverted = (\<lambda>_ _. Inr []),
       marshal_result = (\<lambda>_ _. Inr []), marshal_text = Inr\<rparr>
     (sample_env\<lparr>GetTransactionCount := (\<lambda>_ _ _. Inl hub_not_resolved)\<rparr>) null ''u'' False (Inr 0) (new_service (Some sample_config)) =
   Returns (Response (request null) (Inr ''0x<nil>''))"
  using GetTransactionCount_hides_failure [of "sample_env\<lparr>GetTransactionCount := (\<lambda>_ _ _. Inl hub_not_resolved)\<rparr>"
      "new_service (Some sample_config)" sample_config sample_meta_lib _ _ 1 "''u''" hub_not_resolved
      "\<lparr>marshal_receipt = (\<lambda>_. Inr []), marshal_reverted = (\<lambda>_ _. Inr []),
       marshal_result = (\<lambda>_ _. Inr []), marshal_text = Inr\<rparr>" null "Inr 0"]
  by (simp add: sample_env_def sample_config_def new_service_def sample_meta_lib_def eth_lib.defs)

definition sample_relay_env :: relay_env where
  "sample_relay_env =
     \<lparr>re_prepare = sample_prepare_env, re_now = 0, re_order = [], re_gas = \<lparr>gas_Connect = None, GetNodeGasLimit = Inr 1000000\<rparr>,
      re_send = \<lparr>send_Connect = None, HexToECDSA = None, ConfigTransaction = (\<lambda>_. None),
        SendMetatransaction = (\<lambda>_ _ _ _ _. Inr \<lparr>tx_Hash = 11, tx_Nonce = 0\<rparr>)\<rparr>,
      re_pid = 0, re_moves = [], re_wait_Connect = None, re_timeout = ''1m0s'', re_polls = [PollAnswer (Inr None), PollDeadline],
      re_read_at = 9\<rparr>"

definition direct_config :: Config where
  "direct_config = sample_config\<lparr>Reorder := DefaultReorderConfig\<lparr>Reorder_Enabled := False\<rparr>\<rparr>"


end
