(* ===== verification/Startup.thy ===== *)
theory Startup
  imports Prepare Watcher Rpc
begin

text \<open>
  Starting and watching: the hub's address from its proxy (\<open>service/httpCall.go\<close>), \<open>Init\<close> and the
  subscription to new blocks (\<open>service/relaySignerService.go\<close>), and what \<open>GET /info\<close> reports
  (\<open>service/info.go\<close>).
\<close>

section \<open>The address of the hub\<close>

definition DATA_CALL_RELAYHUB :: string where "DATA_CALL_RELAYHUB = ''0x7bdf2ec7''"

text \<open>
  What HTTP, the JSON decoder and the ABI decoder answer, each a function of what they are given; the
  last one may unpack to nothing or to a value that is not an address.
\<close>

datatype abi_value = AbiAddress Address | AbiOther string

record http_env =
  http_Do :: "string \<Rightarrow> string \<Rightarrow> duration \<Rightarrow> go_error + string"
  json_Message :: "string \<Rightarrow> go_error + JsonrpcMessage"
  json_String :: "RawMessage \<Rightarrow> go_error + string"
  Hex2Bytes :: "string \<Rightarrow> bytes"
  abi_UnpackAddress :: "bytes \<Rightarrow> go_error + abi_value list"

definition hub_request :: "string \<Rightarrow> string \<Rightarrow> string" where
  "hub_request proxy i =
     (let q = [CHR 0x22]
      in ''{'' @ q @ ''jsonrpc'' @ q @ '':'' @ q @ ''2.0'' @ q @ '','' @ q @ ''method'' @ q @ '':'' @ q @ ''eth_call'' @ q @ '','' @
         q @ ''params'' @ q @ '':[{'' @ q @ ''to'' @ q @ '':'' @ q @ proxy @ q @ '','' @ q @ ''data'' @ q @ '':'' @ q @
         DATA_CALL_RELAYHUB @ q @ ''},'' @ q @ ''latest'' @ q @ ''], '' @ q @ ''id'' @ q @ '':'' @ q @ i @ q @ ''}'')"

definition getRelayHubContractAddress :: "http_env \<Rightarrow> string \<Rightarrow> string \<Rightarrow> string \<Rightarrow> int \<Rightarrow> go_error + Address" where
  "getRelayHubContractAddress env rpcURL i proxy timeout =
     (case http_Do env rpcURL (hub_request proxy i) (go_int64 (timeout * second)) of
        Inl e \<Rightarrow> Inl e
      | Inr body \<Rightarrow>
     (case json_Message env body of
        Inl e \<Rightarrow> Inl e
      | Inr msg \<Rightarrow>
     (case msg_Error msg of
        Some je \<Rightarrow> Inl (plain_error (''node returned a json-rpc error resolving the relayHub address: '' @ jsonError_Error je))
      | None \<Rightarrow>
     (case json_String env (msg_Result msg) of
        Inl e \<Rightarrow> Inl (plain_error (''can't decode eth_call result as a hex string: '' @ err_text e))
      | Inr result \<Rightarrow>
          (let resultHex = TrimPrefix result ''0x''
           in if length resultHex \<noteq> 64
              then Inl (plain_error (''unexpected eth_call result length resolving the relayHub address: got '' @
                     decimal_nat (length resultHex) @ '' hex chars, want 64''))
              else
     (case abi_UnpackAddress env (Hex2Bytes env resultHex) of
        Inl e \<Rightarrow> Inl e
      | Inr [] \<Rightarrow> Inl (plain_error ''eth_call result unpacked to no values resolving the relayHub address'')
      | Inr (AbiAddress a # _) \<Rightarrow> Inr a
      | Inr (AbiOther t # _) \<Rightarrow>
          Inl (plain_error (''unexpected type '' @ t @ '' resolving the relayHub address, want common.Address''))))))))"

section \<open>Init\<close>

record init_env =
  ie_LookupEnv :: "string option"
  ie_HexToECDSA :: "string \<Rightarrow> go_error + nat"
  ie_is_ECDSA :: "nat \<Rightarrow> bool"
  ie_IsHexAddress :: "string \<Rightarrow> bool"
  ie_http :: http_env

definition init_error :: "string \<Rightarrow> int \<Rightarrow> go_error" where
  "init_error msg cd = errors_New msg cd"

text \<open>
  \<open>Init\<close> works on the service it is given; what it has written stays when it fails. Slicing a key that
  is too short panics.
\<close>

definition Init :: "init_env \<Rightarrow> Config \<Rightarrow> RelaySignerService \<Rightarrow> (go_error option \<times> RelaySignerService) go_result" where
  "Init env cfg s =
     (let s1 = s\<lparr>Cfg := Some cfg\<rparr>
      in case ie_LookupEnv env of
        None \<Rightarrow> Returns (Some (init_error ''Environment variable WRITER_KEY not set'' (- 32602)), s1)
      | Some k \<Rightarrow>
          if length k < 66 then Panics ''slice bounds out of range''
          else
            (let key = take 64 (drop 2 k)
             in case ie_HexToECDSA env key of
                  Inl _ \<Rightarrow> Returns (Some (init_error ''Invalid ECDSA Key'' (- 32602)), s1)
                | Inr privateKey \<Rightarrow>
                    if \<not> ie_is_ECDSA env privateKey
                    then Returns (Some (init_error ''Invalid ECDSA Public Key'' (- 32602)), s1)
                    else
                      (let cfg1 = cfg\<lparr>Application := (Application cfg)\<lparr>Key := key\<rparr>\<rparr>;
                           s2 = s1\<lparr>Cfg := Some cfg1, senders := Map.empty, metaTx := Map.empty\<rparr>
                       in if PermissionsEnabled (Security cfg) \<and>
                             \<not> ie_IsHexAddress env (AccountContractAddress (Security cfg)) \<and>
                             \<not> ie_IsHexAddress env (AccountIngressAddress (Permissioning cfg))
                          then Returns (Some (init_error ''Invalid Account Smart Contract Address'' (- 32608)), s2)
                          else
                            (let hub = getRelayHubContractAddress (ie_http env) (NodeURL (Application cfg)) ''1000'' (ContractAddress (Application cfg)) 10;
                                 s3 = s2\<lparr>Cfg := Some (cfg1\<lparr>Application := (Application cfg1)
                                        \<lparr>RelayHubContractAddress := (case hub of Inl _ \<Rightarrow> None | Inr a \<Rightarrow> Some a)\<rparr>\<rparr>)\<rparr>
                             in case hub of
                                  Inl _ \<Rightarrow> Returns (Some (init_error ''Can't get relayHub smart contract address from Proxy'' (- 32610)), s3)
                                | Inr _ \<Rightarrow> Returns (None, s3)))))"

section \<open>What the service says of itself\<close>

record ServiceInfo =
  si_NodeAddress :: string
  si_RelayHubAddress :: "string option"
  si_RelayHubSource :: string
  si_RelayHubProxyAddress :: "string option"
  si_ChainID :: "string option"
  si_RPCURL :: string
  si_NodeBalance :: "string option"
  si_CurrentGasLimit :: "string option"
  si_AccountRulesAddress :: "string option"
  si_AccountRulesSource :: "string option"
  si_NodePermitted :: "bool option"
  si_EnforceAccountRules :: bool
  si_MinExpirationSeconds :: int
  si_ExpirationToleranceSeconds :: int
  si_ReorderEnabled :: bool
  si_ReorderWindowMs :: int
  si_MaxInflightPerUser :: int
  si_ReceiptTimeoutMs :: int
  si_AutoNonce :: bool
  si_AutoNonceTicketMs :: int

definition sourceProxy :: string where "sourceProxy = ''proxy''"

definition big_text :: "int option \<Rightarrow> string option" where
  "big_text value =
     map_option (\<lambda>v. (if v < 0 then ''-'' else []) @ decimal_nat (nat \<bar>v\<bar>)) value"

definition ticketMsInEffect :: "ReorderConfig \<Rightarrow> int" where
  "ticketMsInEffect r = (if \<not> AutoNonce r then 0 else AutoNonceTicketMs r)"

record info_env =
  nf_Connect :: "go_error option"
  nf_ChainID :: "go_error + int option"
  nf_BalanceOf :: "Address \<Rightarrow> go_error + int option"
  nf_GetCurrentGasLimit :: "Address \<Rightarrow> go_error + int option"
  nf_AccountPermitted :: "Address \<Rightarrow> Address \<Rightarrow> go_error + bool"

definition answered :: "go_error + 'a \<Rightarrow> 'b \<Rightarrow> ('a \<Rightarrow> 'b) \<Rightarrow> 'b" where
  "answered r dflt f = (case r of Inl _ \<Rightarrow> dflt | Inr x \<Rightarrow> f x)"

text \<open>The part of the answer that comes from the configuration and from what was resolved at the start.\<close>

definition configured_info :: "meta_lib \<Rightarrow> rules_env \<Rightarrow> Config \<Rightarrow> RelaySignerService \<Rightarrow> ServiceInfo" where
  "configured_info lib renv c s =
     \<lparr>si_NodeAddress = [],
      si_RelayHubAddress = map_option (Address_Hex lib) (RelayHubContractAddress (Application c)),
      si_RelayHubSource = sourceProxy,
      si_RelayHubProxyAddress = (if ContractAddress (Application c) \<noteq> [] then Some (ContractAddress (Application c)) else None),
      si_ChainID = None, si_RPCURL = NodeURL (Application c), si_NodeBalance = None, si_CurrentGasLimit = None,
      si_AccountRulesAddress = AccountRulesAddress renv s, si_AccountRulesSource = AccountRulesSource s,
      si_NodePermitted = NodePermitted s, si_EnforceAccountRules = PermissionsEnabled (Security c),
      si_MinExpirationSeconds = (if EnforceExpiration (Validation c) then MinExpirationSeconds (Validation c) else 0),
      si_ExpirationToleranceSeconds = (if EnforceExpiration (Validation c) then ExpirationToleranceSeconds (Validation c) else 0),
      si_ReorderEnabled = Reorder_Enabled (Reorder c), si_ReorderWindowMs = WindowMs (Reorder c),
      si_MaxInflightPerUser = MaxInflightPerUser (Reorder c), si_ReceiptTimeoutMs = ReceiptTimeoutMs (Reorder c),
      si_AutoNonce = AutoNonce (Reorder c), si_AutoNonceTicketMs = ticketMsInEffect (Reorder c)\<rparr>"

definition Info :: "meta_lib \<Rightarrow> rules_env \<Rightarrow> info_env \<Rightarrow> Config \<Rightarrow> RelaySignerService \<Rightarrow> ServiceInfo" where
  "Info lib renv env c s =
     (let info = configured_info lib renv c s
      in case NodeAddress_of lib c of
           Inl _ \<Rightarrow> info
         | Inr node \<Rightarrow>
             (let info1 = info\<lparr>si_NodeAddress := Address_Hex lib node\<rparr>
              in if nf_Connect env \<noteq> None then info1
                 else
                   (let info2 = answered (nf_ChainID env) info1 (\<lambda>x. info1\<lparr>si_ChainID := big_text x\<rparr>);
                        info3 = answered (nf_BalanceOf env node) info2 (\<lambda>x. info2\<lparr>si_NodeBalance := big_text x\<rparr>);
                        info4 = (case RelayHubContractAddress (Application c) of
                            None \<Rightarrow> info3
                          | Some hub \<Rightarrow> answered (nf_GetCurrentGasLimit env hub) info3 (\<lambda>x. info3\<lparr>si_CurrentGasLimit := big_text x\<rparr>))
                    in case si_AccountRulesAddress info4 of
                         None \<Rightarrow> info4
                       | Some a \<Rightarrow>
                           answered (nf_AccountPermitted env (lib_HexToAddress lib a) node) info4
                             (\<lambda>p. info4\<lparr>si_NodePermitted := Some p\<rparr>))))"

section \<open>The subscription to new blocks\<close>

text \<open>
  \<open>ProcessNewBlocks\<close> between its blocking calls: connecting, subscribing, listening, waiting before the
  next attempt, stopped. What happens next is an input: the quit signal, the answer of the node, a
  failed socket, a new header, or the end of the wait.
\<close>

datatype blocks_pc = Connecting | Subscribing | Listening | Waiting | Stopped_blocks

record blocks =
  b_pc :: blocks_pc
  backoff :: duration
  b_connected :: bool

datatype blocks_input =
    Done
  | Connected "go_error option"
  | Subscribed "go_error option"
  | SocketFailed go_error
  | NewHeader receipt_env time "Hash list"
  | WaitOver

definition blocks_init :: blocks where
  "blocks_init = \<lparr>b_pc = Connecting, backoff = initialBackoff, b_connected = False\<rparr>"

definition isDone :: "blocks_input \<Rightarrow> bool" where
  "isDone inp = (inp = Done)"

text \<open>\<open>waitOrDone\<close>: true if the quit signal comes first; no answer while neither has come.\<close>

definition waitOrDone :: "blocks_input \<Rightarrow> bool option" where
  "waitOrDone inp = (case inp of Done \<Rightarrow> Some True | WaitOver \<Rightarrow> Some False | _ \<Rightarrow> None)"

definition stop :: "blocks \<Rightarrow> blocks" where
  "stop b = b\<lparr>b_pc := Stopped_blocks, b_connected := False\<rparr>"

definition blocks_step ::
    "eth_lib \<Rightarrow> blocks_input \<Rightarrow> blocks \<times> RelaySignerService \<times> uint64 \<Rightarrow> (blocks \<times> RelaySignerService \<times> uint64) go_result option" where
  "blocks_step lib inp st =
     (case st of
        (b, s, gas) \<Rightarrow>
          (case b_pc b of
             Connecting \<Rightarrow>
               if isDone inp then Some (Returns (stop b, s, gas))
               else (case inp of
                       Connected (Some _) \<Rightarrow> Some (Returns (b\<lparr>b_pc := Waiting\<rparr>, s, gas))
                     | Connected None \<Rightarrow> Some (Returns (b\<lparr>b_pc := Subscribing, b_connected := True\<rparr>, s, gas))
                     | _ \<Rightarrow> None)
           | Subscribing \<Rightarrow>
               (case inp of
                  Subscribed (Some _) \<Rightarrow> Some (Returns (b\<lparr>b_pc := Waiting, b_connected := False\<rparr>, s, gas))
                | Subscribed None \<Rightarrow> Some (Returns (b\<lparr>b_pc := Listening, backoff := initialBackoff\<rparr>, s, gas))
                | _ \<Rightarrow> None)
           | Listening \<Rightarrow>
               (case inp of
                  SocketFailed _ \<Rightarrow> Some (Returns (b\<lparr>b_pc := Waiting, b_connected := False\<rparr>, s, gas))
                | NewHeader env now order \<Rightarrow>
                    Some (case SettleInFlight lib env now order s of
                            Panics why \<Rightarrow> Panics why
                          | Returns s1 \<Rightarrow> Returns (b, s1, decrement gas))
                | Done \<Rightarrow> Some (Returns (stop b, s, gas))
                | _ \<Rightarrow> None)
           | Waiting \<Rightarrow>
               (case waitOrDone inp of
                  None \<Rightarrow> None
                | Some True \<Rightarrow> Some (Returns (stop b, s, gas))
                | Some False \<Rightarrow> Some (Returns (b\<lparr>b_pc := Connecting, backoff := nextBackoff (backoff b) maxBackoff\<rparr>, s, gas)))
           | Stopped_blocks \<Rightarrow> None))"

inductive blocks_reach :: "eth_lib \<Rightarrow> RelaySignerService \<Rightarrow> blocks \<times> RelaySignerService \<times> uint64 \<Rightarrow> bool" for lib s0 where
  blocks_start: "blocks_reach lib s0 (blocks_init, s0, gas)"
| blocks_next: "blocks_reach lib s0 st \<Longrightarrow> blocks_step lib inp st = Some (Returns st') \<Longrightarrow> blocks_reach lib s0 st'"

section \<open>Properties\<close>

lemma nextBackoff_range:
  assumes "initialBackoff \<le> d" "d \<le> maxBackoff"
  shows "initialBackoff \<le> nextBackoff d maxBackoff" "nextBackoff d maxBackoff \<le> maxBackoff"
    "nextBackoff d maxBackoff = min (2 * d) maxBackoff"
proof -
  have "go_int64 (d * 2) = 2 * d"
    using assms go_int64_id [of "2 * d"] by (simp add: initialBackoff_def maxBackoff_def durations mult.commute)
  then have "nextBackoff d maxBackoff = min (2 * d) maxBackoff" by (simp add: nextBackoff_def Let_def min_def)
  with assms show "initialBackoff \<le> nextBackoff d maxBackoff" "nextBackoff d maxBackoff \<le> maxBackoff"
    "nextBackoff d maxBackoff = min (2 * d) maxBackoff" by (simp_all add: initialBackoff_def maxBackoff_def durations)
qed

definition blocks_ok :: "blocks \<Rightarrow> bool" where
  "blocks_ok b \<longleftrightarrow>
     initialBackoff \<le> backoff b \<and> backoff b \<le> maxBackoff \<and>
     (b_connected b \<longleftrightarrow> b_pc b \<in> {Subscribing, Listening}) \<and> (b_pc b = Listening \<longrightarrow> backoff b = initialBackoff)"

lemma backoff_bounds: "initialBackoff \<le> initialBackoff" "initialBackoff \<le> maxBackoff"
  by (simp_all add: initialBackoff_def maxBackoff_def durations)

lemma blocks_step_ok:
  assumes "blocks_ok b" "blocks_step lib inp (b, s, g) = Some (Returns (b', s', g'))"
  shows "blocks_ok b'"
proof (cases "b_pc b")
  case Waiting
  with assms have "b' = stop b \<or> b' = b\<lparr>b_pc := Connecting, backoff := nextBackoff (backoff b) maxBackoff\<rparr>"
    by (auto simp: blocks_step_def split: option.splits bool.splits)
  with assms(1) Waiting nextBackoff_range [of "backoff b"] show ?thesis by (auto simp: blocks_ok_def stop_def)
qed (use assms backoff_bounds in \<open>auto simp: blocks_step_def blocks_ok_def stop_def split: if_splits blocks_input.splits option.splits go_result.splits\<close>)



text \<open>
\<open>GET /info\<close> does not fall with the node. Whatever the node answers, or if it cannot be reached,
  everything that comes from the configuration and from the start is reported, with the address of the
  node whenever its key can be read; the node only adds the chain, the balance, the gas limit and the
  permission.
\<close>

theorem Info_reports_configuration:
  "(Info lib renv env c s)\<lparr>si_ChainID := None, si_NodeBalance := None, si_CurrentGasLimit := None, si_NodePermitted := p\<rparr> =
     (configured_info lib renv c s)
       \<lparr>si_NodeAddress := (case NodeAddress_of lib c of Inl _ \<Rightarrow> [] | Inr node \<Rightarrow> Address_Hex lib node), si_NodePermitted := p\<rparr>"
proof -
  let ?erase = "\<lambda>info :: ServiceInfo. info\<lparr>si_ChainID := None, si_NodeBalance := None, si_CurrentGasLimit := None, si_NodePermitted := p\<rparr>"
  have erase: "?erase (answered r d f) = ?erase d" if "\<And>x. ?erase (f x) = ?erase d" for r :: "go_error + 'x" and d f
    using that by (cases r) (simp_all add: answered_def)
  have conf: "?erase ((configured_info lib renv c s)\<lparr>si_NodeAddress := a\<rparr>) = (configured_info lib renv c s)\<lparr>si_NodeAddress := a, si_NodePermitted := p\<rparr>" for a
    by (simp add: configured_info_def)
  show ?thesis
  proof (cases "NodeAddress_of lib c")
    case (Inl e)
    then show ?thesis by (simp add: Info_def configured_info_def)
  next
    case (Inr node)
    then have "?erase (Info lib renv env c s) = ?erase ((configured_info lib renv c s)\<lparr>si_NodeAddress := Address_Hex lib node\<rparr>)"
      by (simp add: Info_def Let_def erase split: option.split)
    with Inr conf show ?thesis by simp
  qed
qed

end
