(* ===== verification/Router.thy ===== *)
theory Router
  imports Handlers Startup
begin

text \<open>
  Package \<open>controller\<close>: the routes and the cross-origin headers (\<open>router.go\<close>), the dispatch of JSON-RPC
  (\<open>relayController.go\<close>, \<open>processController.go\<close>) and the REST endpoints (\<open>endpoints.go\<close>). A handler
  takes the request, the service and the response written so far; the calls into the service are
  arguments of the dispatcher where they block, and the encoder and the decoder of JSON are a record.
\<close>

section \<open>Requests and responses\<close>

record http_request =
  rq_Method :: string
  rq_Path :: string
  rq_Origin :: string
  rq_peek :: string
  rq_Body :: string
  rq_Scheme :: string
  rq_Host :: string
  rq_HostHeader :: string
  rq_ForwardedHost :: string

text \<open>The status is set once, by the first \<open>WriteHeader\<close> or \<open>Write\<close>; what is written adds up.\<close>

record writer =
  w_headers :: "(string \<times> string) list"
  w_status :: "nat option"
  w_body :: "string list"

definition new_writer :: writer where
  "new_writer = \<lparr>w_headers = [], w_status = None, w_body = []\<rparr>"

definition header_Set :: "string \<Rightarrow> string \<Rightarrow> writer \<Rightarrow> writer" where
  "header_Set k v w = w\<lparr>w_headers := AList.update k v (w_headers w)\<rparr>"

definition header_Add :: "string \<Rightarrow> string \<Rightarrow> writer \<Rightarrow> writer" where
  "header_Add k v w = w\<lparr>w_headers := w_headers w @ [(k, v)]\<rparr>"

definition WriteHeader :: "nat \<Rightarrow> writer \<Rightarrow> writer" where
  "WriteHeader status w = (case w_status w of None \<Rightarrow> w\<lparr>w_status := Some status\<rparr> | Some _ \<Rightarrow> w)"

definition Write :: "string \<Rightarrow> writer \<Rightarrow> writer" where
  "Write s w = (let w1 = WriteHeader 200 w in w1\<lparr>w_body := w_body w1 @ [s]\<rparr>)"

section \<open>REST answers\<close>

record nonceResponse =
  nr_Address :: string
  nr_Nonce :: string
  nr_NonceHex :: string
  nr_NextNonce :: string
  nr_NextNonceHex :: string
  nr_Pending :: uint64

datatype details_value = DetailFields fields | DetailSent

datatype rest_body =
    BodyInfo ServiceInfo
  | BodyNonce nonceResponse
  | BodyResult RelayResult
  | BodyError string "string option" "details_value option"

record json_lib =
  Marshal_body :: "rest_body \<Rightarrow> go_error + string"
  Marshal_message :: "JsonrpcMessage \<Rightarrow> go_error + string"
  Marshal_null :: "go_error + string"
  Marshal_hash :: "Hash \<Rightarrow> go_error + string"
  Decode_message :: "string \<Rightarrow> go_error + JsonrpcMessage"
  Decode_params :: "RawMessage \<Rightarrow> go_error + string list"
  Decode_relay :: "string \<Rightarrow> go_error + string \<times> string"

definition writeJSON_rest :: "json_lib \<Rightarrow> nat \<Rightarrow> rest_body \<Rightarrow> writer \<Rightarrow> writer" where
  "writeJSON_rest jl status body w =
     (case Marshal_body jl body of
        Inl _ \<Rightarrow>
          Write ([CHR ''{'', CHR 0x22] @ ''error'' @ [CHR 0x22, CHR '':'', CHR 0x22] @ ''no se pudo serializar la respuesta'' @ [CHR 0x22, CHR ''}''])
            (WriteHeader 500 (header_Set ''Content-Type'' ''application/json'' w))
      | Inr encoded \<Rightarrow> Write encoded (WriteHeader status (header_Set ''Content-Type'' ''application/json'' w)))"

definition writeError :: "json_lib \<Rightarrow> nat \<Rightarrow> string \<Rightarrow> string \<Rightarrow> details_value option \<Rightarrow> writer \<Rightarrow> writer" where
  "writeError jl status message cd dets w =
     writeJSON_rest jl status (BodyError message (if cd \<noteq> [] then Some cd else None) dets) w"

definition onlyMethod :: "json_lib \<Rightarrow> string \<Rightarrow> (http_request \<Rightarrow> writer \<times> 'st \<Rightarrow> writer \<times> 'st) \<Rightarrow> http_request \<Rightarrow> writer \<times> 'st \<Rightarrow> writer \<times> 'st" where
  "onlyMethod jl m nxt r ws =
     (if rq_Method r \<noteq> m
      then (writeJSON_rest jl 405 (BodyError (''metodo no permitido: '' @ rq_Path r @ '' solo acepta '' @ m) None None)
              (header_Set ''Allow'' m (fst ws)), snd ws)
      else nxt r ws)"

text \<open>\<open>strings.Trim(strings.TrimPrefix(path, prefix), "/")\<close>.\<close>

definition trim_slashes :: "string \<Rightarrow> string" where
  "trim_slashes s = rev (dropWhile (\<lambda>c. c = CHR ''/'') (rev (dropWhile (\<lambda>c. c = CHR ''/'') s)))"

definition pathParam :: "http_request \<Rightarrow> string \<Rightarrow> string" where
  "pathParam r prefix = trim_slashes (TrimPrefix (rq_Path r) prefix)"

section \<open>Cross-origin requests\<close>

definition corsAllowedMethods :: string where "corsAllowedMethods = ''GET, POST, OPTIONS''"
definition corsAllowedHeaders :: string where "corsAllowedHeaders = ''Content-Type, Last-Event-ID''"
definition corsMaxAge :: string where "corsMaxAge = ''600''"

text \<open>\<open>strings.EqualFold\<close> on ASCII text.\<close>

definition EqualFold :: "string \<Rightarrow> string \<Rightarrow> bool" where
  "EqualFold a b = (ToLower a = ToLower b)"

fun match_origins :: "string list \<Rightarrow> string \<Rightarrow> string" where
  "match_origins [] origin = []"
| "match_origins (allowed # rest) origin =
     (if allowed = ''*'' then ''*'' else if EqualFold allowed origin then origin else match_origins rest origin)"

definition matchOrigin :: "string list \<Rightarrow> string \<Rightarrow> string" where
  "matchOrigin origins origin = (if origin = [] then [] else match_origins origins origin)"

definition cors_headers :: "string \<Rightarrow> writer \<Rightarrow> writer" where
  "cors_headers allowed w =
     header_Set ''Access-Control-Max-Age'' corsMaxAge
       (header_Set ''Access-Control-Allow-Headers'' corsAllowedHeaders
         (header_Set ''Access-Control-Allow-Methods'' corsAllowedMethods
           (header_Add ''Vary'' ''Origin'' (header_Set ''Access-Control-Allow-Origin'' allowed w))))"

definition withCORS :: "(http_request \<Rightarrow> writer \<times> 'st \<Rightarrow> writer \<times> 'st) \<Rightarrow> string list \<Rightarrow> http_request \<Rightarrow> writer \<times> 'st \<Rightarrow> writer \<times> 'st" where
  "withCORS nxt origins r ws =
     (if origins = [] then nxt r ws
      else
        (let allowed = matchOrigin origins (rq_Origin r);
             w1 = (if allowed \<noteq> [] then cors_headers allowed (fst ws) else fst ws)
         in if rq_Method r = ''OPTIONS'' then (WriteHeader 204 w1, snd ws) else nxt r (w1, snd ws)))"

section \<open>Routes\<close>

datatype endpoint = SignTransaction_route | Info_route | Relay_route | Nonce_route | Page_route | Stream_route

text \<open>A pattern, the only method it accepts if it has one, and its handler.\<close>

definition Routes :: "Config option \<Rightarrow> (string \<times> string option \<times> endpoint) list" where
  "Routes cfg =
     [(''/'', None, SignTransaction_route), (''/info'', Some ''GET'', Info_route), (''/relay'', Some ''POST'', Relay_route),
      (''/nonce/'', Some ''GET'', Nonce_route)] @
     (if (case cfg of Some c \<Rightarrow> Dashboard_Enabled (Dashboard c) | None \<Rightarrow> False)
      then [(''/dashboard'', Some ''GET'', Page_route), (''/dashboard/stream'', Some ''GET'', Stream_route)] else [])"

text \<open>
  How \<open>http.ServeMux\<close> chooses for a clean path: the pattern itself, a redirect to a subtree whose root
  was named without its slash, or the longest subtree pattern.
\<close>

datatype 'h routed = Handle "string option" 'h | RedirectTo string | NotFound

definition subtree_matches :: "string \<Rightarrow> string \<Rightarrow> bool" where
  "subtree_matches path pat = (HasSuffix pat ''/'' \<and> HasPrefix path pat)"

definition longest :: "(string \<times> 'b) list \<Rightarrow> (string \<times> 'b) option" where
  "longest ps = foldl (\<lambda>best p. case best of None \<Rightarrow> Some p | Some q \<Rightarrow> if length (fst q) < length (fst p) then Some p else Some q) None ps"

definition mux_match :: "(string \<times> string option \<times> 'h) list \<Rightarrow> string \<Rightarrow> 'h routed" where
  "mux_match ps path =
     (case map_of ps path of
        Some (m, h) \<Rightarrow> Handle m h
      | None \<Rightarrow>
          (case map_of ps (path @ ''/'') of
             Some _ \<Rightarrow> RedirectTo (path @ ''/'')
           | None \<Rightarrow>
               (case longest (filter (\<lambda>p. subtree_matches path (fst p)) ps) of
                  Some (_, m, h) \<Rightarrow> Handle m h
                | None \<Rightarrow> NotFound)))"

text \<open>\<open>Handler\<close>: the routes with the cross-origin headers on top; \<open>run\<close> runs a handler.\<close>

definition serve_mux ::
    "json_lib \<Rightarrow> Config option \<Rightarrow> (endpoint \<Rightarrow> http_request \<Rightarrow> writer \<times> 'st \<Rightarrow> writer \<times> 'st) \<Rightarrow> http_request \<Rightarrow> writer \<times> 'st \<Rightarrow> writer \<times> 'st" where
  "serve_mux jl cfg run r ws =
     (case mux_match (Routes cfg) (rq_Path r) of
        Handle None h \<Rightarrow> run h r ws
      | Handle (Some m) h \<Rightarrow> onlyMethod jl m (run h) r ws
      | RedirectTo p \<Rightarrow> (WriteHeader 301 (header_Set ''Location'' p (fst ws)), snd ws)
      | NotFound \<Rightarrow> (WriteHeader 404 (fst ws), snd ws))"

definition Handler ::
    "json_lib \<Rightarrow> Config option \<Rightarrow> (endpoint \<Rightarrow> http_request \<Rightarrow> writer \<times> 'st \<Rightarrow> writer \<times> 'st) \<Rightarrow> http_request \<Rightarrow> writer \<times> 'st \<Rightarrow> writer \<times> 'st" where
  "Handler jl cfg run =
     withCORS (serve_mux jl cfg run) (case cfg of Some c \<Rightarrow> AllowedOrigins (CORS c) | None \<Rightarrow> [])"

section \<open>JSON-RPC\<close>

definition PENDING :: string where "PENDING = ''PENDING''"
definition LATEST :: string where "LATEST = ''LATEST''"

definition handleError :: "json_lib \<Rightarrow> RawMessage \<Rightarrow> go_error \<Rightarrow> string" where
  "handleError jl i e = (case Marshal_message jl (HandleError i e) of Inl _ \<Rightarrow> [] | Inr d \<Rightarrow> d)"

text \<open>A rejection as an \<open>error\<close> of the JSON-RPC path: its text, and the code its cause has or zero.\<close>

definition relay_go_error :: "relay_error \<Rightarrow> go_error" where
  "relay_go_error e =
     (case e of Plain g \<Rightarrow> g | Rejected r \<Rightarrow> \<lparr>err_text = Error_text e, err_code = Some (ErrorCode r)\<rparr>)"

definition rejectMetaTx :: "json_lib \<Rightarrow> RawMessage \<Rightarrow> relay_error \<Rightarrow> writer \<Rightarrow> writer" where
  "rejectMetaTx jl i e w = Write (handleError jl i (relay_go_error e)) w"

definition internal_error :: go_error where "internal_error = plain_error ''internal error''"

text \<open>The answer of a handler, or the internal error if it cannot be encoded.\<close>

definition write_answer :: "json_lib \<Rightarrow> RawMessage \<Rightarrow> go_error + string \<Rightarrow> writer \<Rightarrow> writer" where
  "write_answer jl i enc w =
     (case enc of Inl _ \<Rightarrow> Write (handleError jl i internal_error) w | Inr d \<Rightarrow> Write d w)"

text \<open>\<open>params[0][2:]\<close>, which panics on an empty list and on a text of less than two characters.\<close>

definition hash_param :: "string list \<Rightarrow> string go_result" where
  "hash_param params =
     (case params of
        [] \<Rightarrow> Panics ''index out of range''
      | p # _ \<Rightarrow> if length p < 2 then Panics ''slice bounds out of range'' else Returns (drop 2 p))"

text \<open>
  A request that waits its turn to send has not been answered yet: then there is no response.
\<close>

definition at_once :: "(writer \<times> 'st) go_result \<Rightarrow> (writer option \<times> 'st) go_result" where
  "at_once r = (case r of Panics why \<Rightarrow> Panics why | Returns (w, st) \<Rightarrow> Returns (Some w, st))"

text \<open>The calls into the service and, for the private transactions, into the reverse proxy of the library.\<close>

record ('p, 'st) calls =
  c_NodeURL :: string
  c_Parse :: "string \<Rightarrow> (string \<times> string) option"
  c_forward :: "http_request \<Rightarrow> writer \<times> 'st \<Rightarrow> writer \<times> 'st"
  c_decrease :: "RawMessage \<Rightarrow> 'st \<Rightarrow> 'st go_result"
  c_prepare :: "string \<Rightarrow> 'st \<Rightarrow> (Rejection + 'p) \<times> 'st"
  c_send :: "'p \<Rightarrow> 'st \<Rightarrow> (relay_error + Hash) option \<times> 'st"
  c_receipt :: "RawMessage \<Rightarrow> string \<Rightarrow> 'st \<Rightarrow> (JsonrpcMessage \<times> 'st) go_result"
  c_result :: "RawMessage \<Rightarrow> string \<Rightarrow> 'st \<Rightarrow> (JsonrpcMessage \<times> 'st) go_result"
  c_count :: "RawMessage \<Rightarrow> string \<Rightarrow> bool \<Rightarrow> 'st \<Rightarrow> (JsonrpcMessage \<times> 'st) go_result"

definition processGetTransactionReceipt ::
    "json_lib \<Rightarrow> ('p, 'st) calls \<Rightarrow> JsonrpcMessage \<Rightarrow> writer \<times> 'st \<Rightarrow> (writer \<times> 'st) go_result" where
  "processGetTransactionReceipt jl cl msg ws =
     (case Decode_params jl (msg_Params msg) of
        Inl _ \<Rightarrow> Returns (Write (handleError jl (msg_ID msg) internal_error) (fst ws), snd ws)
      | Inr params \<Rightarrow>
          (case hash_param params of
             Panics why \<Rightarrow> Panics why
           | Returns h \<Rightarrow>
               (case c_receipt cl (msg_ID msg) h (snd ws) of
                  Panics why \<Rightarrow> Panics why
                | Returns (response, st) \<Rightarrow> Returns (write_answer jl (msg_ID msg) (Marshal_message jl response) (fst ws), st))))"

text \<open>
  \<open>processTransactionCount\<close>. A tag that is neither of the two is answered with an error, and then the
  missing response is written after it as \<open>null\<close>.
\<close>

definition processTransactionCount ::
    "json_lib \<Rightarrow> ('p, 'st) calls \<Rightarrow> JsonrpcMessage \<Rightarrow> writer \<times> 'st \<Rightarrow> (writer \<times> 'st) go_result" where
  "processTransactionCount jl cl msg ws =
     (case Decode_params jl (msg_Params msg) of
        Inl _ \<Rightarrow> Returns (Write (handleError jl (msg_ID msg) internal_error) (fst ws), snd ws)
      | Inr params \<Rightarrow>
          (let count = (\<lambda>from pend. case c_count cl (msg_ID msg) from pend (snd ws) of
                 Panics why \<Rightarrow> Panics why
               | Returns (response, st) \<Rightarrow> Returns (write_answer jl (msg_ID msg) (Marshal_message jl response) (fst ws), st))
           in case params of
                from # tag # _ \<Rightarrow>
                  if ToUpper tag = PENDING then count from True
                  else if ToUpper tag = LATEST then count from False
                  else Returns (write_answer jl (msg_ID msg) (Marshal_null jl)
                         (Write (handleError jl (msg_ID msg) (plain_error ''parameter not defined, only pending or latest are allowed'')) (fst ws)),
                       snd ws)
              | [from] \<Rightarrow> count from False
              | [] \<Rightarrow> Panics ''index out of range''))"

definition processGetMetaTxResult ::
    "json_lib \<Rightarrow> ('p, 'st) calls \<Rightarrow> JsonrpcMessage \<Rightarrow> writer \<times> 'st \<Rightarrow> (writer \<times> 'st) go_result" where
  "processGetMetaTxResult jl cl msg ws =
     (let bad = Returns (Write (handleError jl (msg_ID msg) (plain_error ''invalid params: expected [txHash]'')) (fst ws), snd ws)
      in case Decode_params jl (msg_Params msg) of
           Inl _ \<Rightarrow> bad
         | Inr [] \<Rightarrow> bad
         | Inr (p # ps) \<Rightarrow>
             (case hash_param (p # ps) of
                Panics why \<Rightarrow> Panics why
              | Returns h \<Rightarrow>
                  (case c_result cl (msg_ID msg) h (snd ws) of
                     Panics why \<Rightarrow> Panics why
                   | Returns (response, st) \<Rightarrow> Returns (write_answer jl (msg_ID msg) (Marshal_message jl response) (fst ws), st))))"

definition processRawTransaction ::
    "json_lib \<Rightarrow> ('p, 'st) calls \<Rightarrow> JsonrpcMessage \<Rightarrow> writer \<times> 'st \<Rightarrow> writer option \<times> 'st" where
  "processRawTransaction jl cl msg ws =
     (case Decode_params jl (msg_Params msg) of
        Inl e \<Rightarrow> (Some (rejectMetaTx jl (msg_ID msg) (Plain e) (fst ws)), snd ws)
      | Inr [] \<Rightarrow> (Some (rejectMetaTx jl (msg_ID msg) (Plain (plain_error ''invalid params: expected [rawTx]'')) (fst ws)), snd ws)
      | Inr (rawTx # _) \<Rightarrow>
          (case c_prepare cl rawTx (snd ws) of
             (Inl rej, st) \<Rightarrow> (Some (rejectMetaTx jl (msg_ID msg) (Rejected rej) (fst ws)), st)
           | (Inr p, st) \<Rightarrow>
               (case c_send cl p st of
                  (None, st1) \<Rightarrow> (None, st1)
                | (Some (Inl e), st1) \<Rightarrow> (Some (rejectMetaTx jl (msg_ID msg) e (fst ws)), st1)
                | (Some (Inr hash), st1) \<Rightarrow>
                    (case Marshal_message jl (Response (request (msg_ID msg)) (Marshal_hash jl hash)) of
                       Inl _ \<Rightarrow> (Some (rejectMetaTx jl (msg_ID msg) (Plain internal_error) (fst ws)), st1)
                     | Inr d \<Rightarrow> (Some (Write d (fst ws)), st1)))))"

text \<open>
  \<open>serveReverseProxy\<close>: the request goes to the node under the node's scheme and host. An address that
  cannot be parsed is reported and then dereferenced.
\<close>

definition serveReverseProxy ::
    "('p, 'st) calls \<Rightarrow> http_request \<Rightarrow> writer \<times> 'st \<Rightarrow> (writer \<times> 'st) go_result" where
  "serveReverseProxy cl r ws =
     (case c_Parse cl (c_NodeURL cl) of
        None \<Rightarrow> Panics ''nil pointer dereference''
      | Some (scheme, host) \<Rightarrow>
          Returns (c_forward cl (r\<lparr>rq_Host := host, rq_Scheme := scheme, rq_ForwardedHost := rq_HostHeader r\<rparr>) ws))"

text \<open>\<open>SignTransaction\<close>: a body that cannot be decoded is answered with nothing.\<close>

definition SignTransaction ::
    "json_lib \<Rightarrow> ('p, 'st) calls \<Rightarrow> http_request \<Rightarrow> writer \<times> 'st \<Rightarrow> (writer option \<times> 'st) go_result" where
  "SignTransaction jl cl r ws0 =
     (let ws = (header_Set ''Content-Type'' ''application/json'' (fst ws0), snd ws0)
      in case Decode_message jl (rq_Body r) of
           Inl _ \<Rightarrow> at_once (Returns ws)
         | Inr msg \<Rightarrow>
             if IsPrivTransaction msg then at_once (serveReverseProxy cl r ws)
             else if IsPrivRawTransaction msg then
               (case c_decrease cl (msg_ID msg) (snd ws) of
                  Panics why \<Rightarrow> Panics why
                | Returns st \<Rightarrow> at_once (serveReverseProxy cl r (fst ws, st)))
             else if IsRawTransaction msg then Returns (processRawTransaction jl cl msg ws)
             else if IsGetTransactionReceipt msg then at_once (processGetTransactionReceipt jl cl msg ws)
             else if IsGetTransactionCount msg then at_once (processTransactionCount jl cl msg ws)
             else if IsGetMetaTxResult msg then at_once (processGetMetaTxResult jl cl msg ws)
             else at_once (Returns (Write (handleError jl (msg_ID msg) (plain_error ''method is not supported'')) (fst ws), snd ws)))"

text \<open>The copy of \<open>DecodedFields\<close> that this package has.\<close>

definition decodedFields :: "meta_lib \<Rightarrow> int \<Rightarrow> Transaction \<Rightarrow> Address \<Rightarrow> uint64 \<Rightarrow> fields" where
  "decodedFields lib now tx from metaTxGasLimit =
     (let gasModel = DecodeGasModelSuffix lib (tx_data tx);
          decoded = Decoded gasModel;
          expiration = (if decoded then ExpirationSeconds gasModel else None)
      in [(''from'', DText (Address_Hex lib from)),
          (''to'', case tx_to tx of Some to \<Rightarrow> DText (Address_Hex lib to) | None \<Rightarrow> DNull),
          (''isDeploy'', DBool (tx_to tx = None)),
          (''nonce'', DUint (tx_nonce tx)),
          (''userGasLimit'', DUint (tx_gas tx)),
          (''metaTxGasLimit'', DUint metaTxGasLimit),
          (''dataBytes'', DInt (int (length (tx_data tx)))),
          (''nodeAddress'', if \<not> decoded then DNull else DText (gm_NodeAddress gasModel)),
          (''expiration'', case expiration of Some e \<Rightarrow> DUint e | None \<Rightarrow> DNull),
          (''expiresInSeconds'', case expiration of Some e \<Rightarrow> DInt (go_int64 (int64_of_uint64 e - now)) | None \<Rightarrow> DNull),
          (''selector'', if \<not> decoded \<or> Selector gasModel = [] then DNull else DText (Selector gasModel))])"

lemma decodedFields_agree: "decodedFields = DecodedFields"
  by (intro ext) (simp add: decodedFields_def DecodedFields_def Let_def)

section \<open>REST endpoints\<close>

definition Info_endpoint :: "json_lib \<Rightarrow> ServiceInfo \<Rightarrow> writer \<Rightarrow> writer" where
  "Info_endpoint jl info w = writeJSON_rest jl 200 (BodyInfo info) w"

definition peekRequested :: "http_request \<Rightarrow> bool" where
  "peekRequested r = (rq_peek r = ''true'' \<or> rq_peek r = ''1'')"

text \<open>A nil \<open>*big.Int\<close> renders as \<open><nil>\<close>.\<close>

definition big_String :: "nat option \<Rightarrow> string" where
  "big_String v = (case v of None \<Rightarrow> ''<nil>'' | Some n \<Rightarrow> decimal_nat n)"

definition hexOf :: "nat option \<Rightarrow> string" where
  "hexOf v = ''0x'' @ (case v of None \<Rightarrow> ''<nil>'' | Some n \<Rightarrow> hex_nat n)"

definition Nonce_endpoint ::
    "json_lib \<Rightarrow> (string \<Rightarrow> bool) \<Rightarrow> (string \<Rightarrow> Address) \<Rightarrow> (Address \<Rightarrow> string) \<Rightarrow>
     (Address \<Rightarrow> bool \<Rightarrow> 'st \<Rightarrow> (go_error + NonceState) go_result \<times> 'st) \<Rightarrow> http_request \<Rightarrow> writer \<times> 'st \<Rightarrow> (writer \<times> 'st) go_result" where
  "Nonce_endpoint jl is_hex to_address hex nonce_of r ws =
     (let address = pathParam r ''/nonce/''
      in if address = [] then Returns (writeError jl 400 ''se esperaba /nonce/{address}'' [] None (fst ws), snd ws)
         else if \<not> is_hex address then Returns (writeError jl 400 (''direccion invalida: '' @ address) [] None (fst ws), snd ws)
         else
           (case nonce_of (to_address address) (peekRequested r) (snd ws) of
              (Panics why, _) \<Rightarrow> Panics why
            | (Returns (Inl e), st) \<Rightarrow> Returns (writeError jl 400 (err_text e) [] None (fst ws), st)
            | (Returns (Inr state), st) \<Rightarrow>
                Returns (writeJSON_rest jl 200 (BodyNonce
                  \<lparr>nr_Address = hex (ns_Address state), nr_Nonce = big_String (OnChain state), nr_NonceHex = hexOf (OnChain state),
                   nr_NextNonce = big_String (Next state), nr_NextNonceHex = hexOf (Next state), nr_Pending = Pending state\<rparr>) (fst ws), st)))"

definition relay_transaction :: "string \<times> string \<Rightarrow> string" where
  "relay_transaction req = (if fst req \<noteq> [] then fst req else snd req)"

definition detailsOf :: "relay_error \<Rightarrow> details_value option" where
  "detailsOf e =
     (case DetailsOf e of
        Some d \<Rightarrow> Some (DetailFields d)
      | None \<Rightarrow> if CodeOf e \<noteq> CodeReceiptTimeout then None else Some DetailSent)"

definition FieldRawTx :: string where "FieldRawTx = ''rawTx''"
definition FieldAlias :: string where "FieldAlias = ''signedTransaction''"

definition expected_body :: string where
  "expected_body = ''se esperaba {'' @ [CHR 0x22] @ FieldRawTx @ [CHR 0x22] @ '': '' @ [CHR 0x22] @ ''0x...'' @ [CHR 0x22] @ ''}''"

definition expected_hex :: string where
  "expected_hex = expected_body @ '' (tambien se acepta '' @ [CHR 0x22] @ FieldAlias @ [CHR 0x22] @ '')''"

text \<open>What \<open>POST /relay\<close> answers once \<open>RelayAndWait\<close> is over, if it is.\<close>

definition relay_response ::
    "json_lib \<Rightarrow> (relay_error + RelayResult) option go_result \<times> 'st \<Rightarrow> writer \<Rightarrow> (writer option \<times> 'st) go_result" where
  "relay_response jl outcome w =
     (case outcome of
        (Panics why, _) \<Rightarrow> Panics why
      | (Returns None, st) \<Rightarrow> Returns (None, st)
      | (Returns (Some (Inl e)), st) \<Rightarrow> Returns (Some (writeError jl 400 (Error_text e) (CodeOf e) (detailsOf e) w), st)
      | (Returns (Some (Inr result)), st) \<Rightarrow> Returns (Some (writeJSON_rest jl 200 (BodyResult result) w), st))"

definition Relay_endpoint ::
    "json_lib \<Rightarrow> (string \<Rightarrow> 'st \<Rightarrow> (relay_error + RelayResult) option go_result \<times> 'st) \<Rightarrow> http_request \<Rightarrow> writer \<times> 'st \<Rightarrow>
     (writer option \<times> 'st) go_result" where
  "Relay_endpoint jl relay r ws =
     (case Decode_relay jl (rq_Body r) of
        Inl _ \<Rightarrow> Returns (Some (writeError jl 400 expected_body [] None (fst ws)), snd ws)
      | Inr req \<Rightarrow>
          (let rawTx = relay_transaction req
           in if \<not> IsHexData rawTx
              then Returns (Some (writeError jl 400 expected_hex [] None (fst ws)), snd ws)
              else relay_response jl (relay rawTx (snd ws)) (fst ws)))"

section \<open>Who gets to which handler\<close>

lemma match_origins_cases:
  "match_origins origins origin = a \<Longrightarrow> a \<noteq> [] \<Longrightarrow>
     (a = ''*'' \<and> ''*'' \<in> set origins) \<or> (a = origin \<and> (\<exists>allowed \<in> set origins. ToLower allowed = ToLower origin))"
  by (induction origins) (auto simp: EqualFold_def split: if_splits)

lemma cors_headers_origin:
  "map_of (w_headers (cors_headers a w)) ''Access-Control-Allow-Origin'' = Some a"
  by (simp add: cors_headers_def header_Set_def header_Add_def map_of_append update_conv' map_add_def)

lemma cors_headers_status [simp]:
  "w_status (cors_headers a w) = w_status w" "w_body (cors_headers a w) = w_body w"
  by (simp_all add: cors_headers_def header_Set_def header_Add_def)

text \<open>
  A browser's preflight never relays. With any origin configured, an \<open>OPTIONS\<close> request is answered
  with 204 and an empty body whatever the path, and reaches no handler, so the service is untouched; and
  an origin is allowed only if it is configured or every origin is.
\<close>

theorem preflight_never_reaches_a_handler:
  assumes "cfg = Some c" "AllowedOrigins (CORS c) \<noteq> []" "rq_Method r = ''OPTIONS''"
    "Handler jl cfg run r (new_writer, st) = (w, st')"
  shows "st' = st \<and> w_status w = Some 204 \<and> w_body w = [] \<and>
     (\<forall>a. map_of (w_headers w) ''Access-Control-Allow-Origin'' = Some a \<longrightarrow>
        a = ''*'' \<and> ''*'' \<in> set (AllowedOrigins (CORS c)) \<or>
        a = rq_Origin r \<and> (\<exists>allowed \<in> set (AllowedOrigins (CORS c)). ToLower allowed = ToLower a))"
proof -
  define allowed where "allowed = matchOrigin (AllowedOrigins (CORS c)) (rq_Origin r)"
  have w: "w = WriteHeader 204 (if allowed \<noteq> [] then cors_headers allowed new_writer else new_writer)" "st' = st"
    using assms by (auto simp: Handler_def withCORS_def Let_def allowed_def)
  have hd: "w_headers (WriteHeader n v) = w_headers v" for n v by (simp add: WriteHeader_def split: option.split)
  have stat: "w_status (WriteHeader 204 v) = Some 204" "w_body (WriteHeader 204 v) = w_body v" if "w_status v = None" for v
    using that by (simp_all add: WriteHeader_def)
  have "allowed \<noteq> [] \<Longrightarrow> match_origins (AllowedOrigins (CORS c)) (rq_Origin r) = allowed"
    by (simp add: allowed_def matchOrigin_def split: if_splits)
  note cs = match_origins_cases [OF this]
  show ?thesis
  proof (cases "allowed = []")
    case True
    with w stat [of new_writer] show ?thesis by (simp add: hd new_writer_def)
  next
    case False
    with w stat [of "cors_headers allowed new_writer"] cors_headers_origin [of allowed new_writer] cs
    show ?thesis by (auto simp: hd new_writer_def)
  qed
qed

lemma HasPrefix_iff: "HasPrefix s p \<longleftrightarrow> (\<exists>r. s = p @ r)"
  unfolding HasPrefix_def by (metis append_eq_conv_conj)

text \<open>
  Every path has one handler. The REST paths go to their own handlers and, with the monitor on, its
  two paths to it; every other path, the monitor's included while it is off, goes to the JSON-RPC
  handler, unless it names the nonce subtree.
\<close>

theorem routes_complete:
  "mux_match (Routes cfg) ''/info'' = Handle (Some ''GET'') Info_route \<and>
   mux_match (Routes cfg) ''/relay'' = Handle (Some ''POST'') Relay_route \<and>
   mux_match (Routes cfg) (''/nonce/'' @ rest) = Handle (Some ''GET'') Nonce_route \<and>
   mux_match (Routes cfg) ''/dashboard'' =
     (if \<exists>c. cfg = Some c \<and> Dashboard_Enabled (Dashboard c) then Handle (Some ''GET'') Page_route else Handle None SignTransaction_route) \<and>
   (HasPrefix path ''/'' \<and> path \<notin> {''/info'', ''/relay'', ''/dashboard'', ''/dashboard/stream''} \<and> \<not> HasPrefix (path @ ''/'') ''/nonce/'' \<longrightarrow>
      mux_match (Routes cfg) path = Handle None SignTransaction_route)"
proof (intro conjI impI)
  show "mux_match (Routes cfg) (''/nonce/'' @ rest) = Handle (Some ''GET'') Nonce_route"
    by (cases rest) (auto simp: mux_match_def Routes_def subtree_matches_def HasSuffix_def HasPrefix_def longest_def split: option.split)
  assume p: "HasPrefix path ''/'' \<and> path \<notin> {''/info'', ''/relay'', ''/dashboard'', ''/dashboard/stream''} \<and> \<not> HasPrefix (path @ ''/'') ''/nonce/''"
  have pre: "\<not> HasPrefix (path @ ''/'') ''/nonce/''" and slash: "HasPrefix path ''/''"
    and other: "path \<notin> {''/info'', ''/relay'', ''/dashboard'', ''/dashboard/stream''}" using p by blast+
  have "path @ ''/'' \<noteq> ''/nonce/''" using pre by (metis HasPrefix_iff append_Nil2)
  moreover have nonce: "\<not> HasPrefix path ''/nonce/''" using pre by (metis HasPrefix_iff append.assoc)
  moreover have "path \<noteq> ''/nonce/''" using nonce by (metis HasPrefix_iff append_Nil2)
  moreover have "path @ ''/'' \<noteq> ''/''" using slash by (auto simp: HasPrefix_iff)
  moreover have "path @ ''/'' \<notin> {''/info'', ''/relay'', ''/dashboard'', ''/dashboard/stream''}"
  proof -
    have "path @ ''/'' \<notin> S" if "\<forall>t \<in> S. last t \<noteq> CHR ''/''" for S
      using that last_snoc [of path "CHR ''/''"] by blast
    then show ?thesis by simp
  qed
  ultimately show "mux_match (Routes cfg) path = Handle None SignTransaction_route"
    using slash other by (simp add: mux_match_def Routes_def subtree_matches_def HasSuffix_def longest_def split: option.split)
qed (auto simp: mux_match_def Routes_def subtree_matches_def HasSuffix_def HasPrefix_def longest_def split: option.split)

section \<open>The two doors for a metatx\<close>

text \<open>
  The calls of the JSON-RPC door that send: the same \<open>PrepareMetaTx\<close> and the same \<open>ReserveGasAndSend\<close>,
  gate included.
\<close>

definition relay_calls :: "meta_lib \<Rightarrow> relay_env \<Rightarrow> Context \<Rightarrow> (PreparedMetaTx, sys) calls \<Rightarrow> (PreparedMetaTx, sys) calls" where
  "relay_calls lib env ctx cl =
     cl\<lparr>c_prepare := (\<lambda>rawTx \<sigma>. case PrepareMetaTx lib (re_prepare env) rawTx (svc \<sigma>) of
            (Inl rej, _, s1) \<Rightarrow> (Inl rej, \<sigma>\<lparr>svc := s1\<rparr>)
          | (Inr (_, p), _, s1) \<Rightarrow> (Inr p, \<sigma>\<lparr>svc := s1\<rparr>)),
        c_send := ReserveGasAndSend_call lib env ctx\<rparr>"

definition answer_hash :: "json_lib \<Rightarrow> RawMessage \<Rightarrow> Hash \<Rightarrow> writer \<Rightarrow> writer" where
  "answer_hash jl i hash w =
     (case Marshal_message jl (Response (request i) (Marshal_hash jl hash)) of
        Inl _ \<Rightarrow> rejectMetaTx jl i (Plain internal_error) w
      | Inr d \<Rightarrow> Write d w)"

text \<open>
  A raw transaction without its prefix: \<open>PrepareMetaTx\<close> takes it for the one with the prefix, and the
  check of \<open>POST /relay\<close> refuses it.
\<close>

lemma unprefixed_prepares:
  assumes "trimHexPrefix raw = raw"
  shows "fst (PrepareMetaTx lib env raw s) = fst (PrepareMetaTx lib env (''0x'' @ raw) s)"
    "snd (snd (PrepareMetaTx lib env raw s)) = snd (snd (PrepareMetaTx lib env (''0x'' @ raw) s))"
proof -
  have "trimHexPrefix (''0x'' @ raw) = raw" by (simp add: trimHexPrefix_def)
  with assms show "fst (PrepareMetaTx lib env raw s) = fst (PrepareMetaTx lib env (''0x'' @ raw) s)"
    "snd (snd (PrepareMetaTx lib env raw s)) = snd (snd (PrepareMetaTx lib env (''0x'' @ raw) s))"
    by (simp_all add: PrepareMetaTx_def Let_def split: sum.split prod.split option.split)
qed

lemma unprefixed_refused: "trimHexPrefix raw = raw \<Longrightarrow> \<not> IsHexData raw"
  by (cases raw; cases "tl raw") (auto simp: trimHexPrefix_def IsHexData_def TrimPrefix_def HasPrefix_def Let_def split: if_splits)

text \<open>
  C13: both doors take the same metatx, but for its prefix. For a raw transaction whose text is hexadecimal
  with its prefix, in any state, with reordering on or off: either both doors refuse it with the same
  error and leave the same state, or both send it, the JSON-RPC door answering its hash and \<open>POST /relay\<close>
  going on, from the same state, to wait for the receipt of that hash, or both still wait their turn. Any
  other text is refused by \<open>POST /relay\<close> before it touches the service.
\<close>

theorem both_doors_agree:
  assumes "Decode_params jl (msg_Params msg) = Inr (rawTx # ps)"
    "Decode_relay jl (rq_Body r) = Inr req" "relay_transaction req = rawTx"
  shows "if IsHexData rawTx
     then (\<exists>e \<sigma>'. processRawTransaction jl (relay_calls lib env ctx cl) msg (w, \<sigma>) = (Some (rejectMetaTx jl (msg_ID msg) e w), \<sigma>') \<and>
            Relay_endpoint jl (RelayAndWait lib env ctx) r (w', \<sigma>) =
              Returns (Some (writeError jl 400 (Error_text e) (CodeOf e) (detailsOf e) w'), \<sigma>')) \<or>
          (\<exists>hash tx p \<sigma>'. fst (PrepareMetaTx lib (re_prepare env) rawTx (svc \<sigma>)) = Inr (tx, p) \<and>
            processRawTransaction jl (relay_calls lib env ctx cl) msg (w, \<sigma>) = (Some (answer_hash jl (msg_ID msg) hash w), \<sigma>') \<and>
            Relay_endpoint jl (RelayAndWait lib env ctx) r (w', \<sigma>) = relay_response jl (relay_wait lib env p (Inr hash) \<sigma>') w') \<or>
          (\<exists>\<sigma>'. processRawTransaction jl (relay_calls lib env ctx cl) msg (w, \<sigma>) = (None, \<sigma>') \<and>
            Relay_endpoint jl (RelayAndWait lib env ctx) r (w', \<sigma>) = Returns (None, \<sigma>'))
     else Relay_endpoint jl (RelayAndWait lib env ctx) r (w', \<sigma>) = Returns (Some (writeError jl 400 expected_hex [] None w'), \<sigma>)"
proof (cases "IsHexData rawTx")
  case True
  let ?rpc = "processRawTransaction jl (relay_calls lib env ctx cl) msg (w, \<sigma>)"
  have rest: "Relay_endpoint jl (RelayAndWait lib env ctx) r (w', \<sigma>) = relay_response jl (RelayAndWait lib env ctx rawTx \<sigma>) w'"
    using assms(2,3) True by (simp add: Relay_endpoint_def)
  obtain x lg s1 where prep: "PrepareMetaTx lib (re_prepare env) rawTx (svc \<sigma>) = (x, lg, s1)" by (metis surj_pair)
  show ?thesis
  proof (cases x)
    case (Inl rej)
    with prep assms(1) have "?rpc = (Some (rejectMetaTx jl (msg_ID msg) (Rejected rej) w), \<sigma>\<lparr>svc := s1\<rparr>)"
      "RelayAndWait lib env ctx rawTx \<sigma> = (Returns (Some (Inl (Rejected rej))), \<sigma>\<lparr>svc := s1\<rparr>)"
      by (simp_all add: processRawTransaction_def relay_calls_def RelayAndWait_def)
    with True rest show ?thesis by (auto simp: relay_response_def)
  next
    case (Inr tp)
    obtain tx p where tp: "tp = (tx, p)" by (cases tp)
    obtain sr \<sigma>1 where call: "ReserveGasAndSend_call lib env ctx p (\<sigma>\<lparr>svc := s1\<rparr>) = (sr, \<sigma>1)" by (metis surj_pair)
    note run = prep [unfolded Inr tp] call
    consider (waits) "sr = None" | (refused) e where "sr = Some (Inl e)" | (sends) hash where "sr = Some (Inr hash)"
      by (cases sr) (auto split: sum.splits dest: obj_sumE)
    then show ?thesis
    proof cases
      case waits
      with run assms(1) have "?rpc = (None, \<sigma>1)" "RelayAndWait lib env ctx rawTx \<sigma> = (Returns None, \<sigma>1)"
        by (simp_all add: processRawTransaction_def relay_calls_def RelayAndWait_def)
      with True rest show ?thesis by (simp add: relay_response_def)
    next
      case refused
      with run assms(1) have "?rpc = (Some (rejectMetaTx jl (msg_ID msg) e w), \<sigma>1)"
        "RelayAndWait lib env ctx rawTx \<sigma> = (Returns (Some (Inl e)), \<sigma>1)"
        by (simp_all add: processRawTransaction_def relay_calls_def RelayAndWait_def relay_wait_def)
      with True rest show ?thesis by (auto simp: relay_response_def)
    next
      case sends
      with run assms(1) have "?rpc = (Some (answer_hash jl (msg_ID msg) hash w), \<sigma>1)"
        "RelayAndWait lib env ctx rawTx \<sigma> = relay_wait lib env p (Inr hash) \<sigma>1"
        by (simp_all add: processRawTransaction_def relay_calls_def RelayAndWait_def answer_hash_def split: sum.split)
      with True rest prep Inr tp show ?thesis by auto
    qed
  qed
next
  case False
  with assms(2,3) show ?thesis by (simp add: Relay_endpoint_def Let_def)
qed

section \<open>Examples\<close>

definition sample_json_lib :: json_lib where
  "sample_json_lib =
     \<lparr>Marshal_body = (\<lambda>_. Inr ''{}''), Marshal_message = (\<lambda>m. Inr (case msg_Error m of Some e \<Rightarrow> je_Message e | None \<Rightarrow> ''ok'')),
      Marshal_null = Inr ''null'', Marshal_hash = (\<lambda>_. Inr ''0x0b''), Decode_message = (\<lambda>_. Inr zero_message),
      Decode_params = (\<lambda>_. Inr [''0x0'']), Decode_relay = (\<lambda>b. Inr (b, []))\<rparr>"

definition preflight :: http_request where
  "preflight = \<lparr>rq_Method = ''OPTIONS'', rq_Path = ''/relay'', rq_Origin = ''https://app'', rq_peek = [], rq_Body = [],
     rq_Scheme = [], rq_Host = [], rq_HostHeader = [], rq_ForwardedHost = []\<rparr>"

definition open_config :: Config where
  "open_config = sample_config\<lparr>CORS := \<lparr>AllowedOrigins = [''https://app'']\<rparr>\<rparr>"

theorem preflight_never_reaches_a_handler_witness:
  "\<exists>w. Handler sample_json_lib (Some open_config) (\<lambda>_ _ _. (new_writer, 7)) preflight (new_writer, 5 :: nat) = (w, 5) \<and> w_body w = []"
proof -
  obtain w st' where run: "Handler sample_json_lib (Some open_config) (\<lambda>_ _ _. (new_writer, 7)) preflight (new_writer, 5 :: nat) = (w, st')"
    by (metis surj_pair)
  from preflight_never_reaches_a_handler [OF refl _ _ run] run show ?thesis
    by (auto simp: open_config_def preflight_def)
qed

theorem routes_complete_witness:
  "mux_match (Routes None) ''/dashboard'' = Handle None SignTransaction_route \<and>
   mux_match (Routes None) ''/rpc'' = Handle None SignTransaction_route"
  using routes_complete [of None "[]" "''/rpc''"] by (simp add: HasPrefix_def)

definition sample_calls :: "(PreparedMetaTx, sys) calls" where
  "sample_calls =
     \<lparr>c_NodeURL = [], c_Parse = (\<lambda>_. Some ([], [])), c_forward = (\<lambda>_ ws. ws), c_decrease = (\<lambda>_. Returns), c_prepare = (\<lambda>_ st. (Inl (Reject internal_error []), st)),
      c_send = (\<lambda>_ st. (Some (Inl (Plain internal_error)), st)), c_receipt = (\<lambda>_ _ st. Returns (zero_message, st)),
      c_result = (\<lambda>_ _ st. Returns (zero_message, st)), c_count = (\<lambda>_ _ _ st. Returns (zero_message, st))\<rparr>"

definition relay_request :: http_request where
  "relay_request = preflight\<lparr>rq_Method := ''POST'', rq_Body := ''0x0''\<rparr>"

text \<open>Half a byte is hexadecimal, so it passes the check of \<open>POST /relay\<close>, and both doors refuse it.\<close>

theorem both_doors_agree_witness:
  "\<exists>e. processRawTransaction sample_json_lib (relay_calls sample_meta_lib sample_relay_env Background sample_calls) zero_message
       (new_writer, sys_init direct_config) = (Some (rejectMetaTx sample_json_lib None e new_writer), sys_init direct_config) \<and>
     Relay_endpoint sample_json_lib (RelayAndWait sample_meta_lib sample_relay_env Background) relay_request (new_writer, sys_init direct_config) =
       Returns (Some (writeError sample_json_lib 400 (Error_text e) (CodeOf e) (detailsOf e) new_writer), sys_init direct_config)"
proof -
  let ?\<sigma> = "sys_init direct_config" and ?calls = "relay_calls sample_meta_lib sample_relay_env Background sample_calls"
  let ?e = "errors_New (''Error Decoding Raw Transaction: '' @ hex_error_text sample_meta_lib OddLength) (- 32012)"
  have "hex_DecodeString ''0'' = ([], Some OddLength)" by code_simp
  then have rpc: "processRawTransaction sample_json_lib ?calls zero_message (new_writer, ?\<sigma>) =
      (Some (rejectMetaTx sample_json_lib None (Rejected (Reject ?e CodeBadRawTx)) new_writer), ?\<sigma>)"
    by (simp add: processRawTransaction_def sample_json_lib_def relay_calls_def PrepareMetaTx_def GetTransaction_def trimHexPrefix_def zero_message_def)
  have ok: "w_body (answer_hash sample_json_lib None h new_writer) = [''ok'']" for h
    by (simp add: answer_hash_def sample_json_lib_def Response_def zero_message_def request_def Write_def WriteHeader_def new_writer_def)
  have no: "w_body (rejectMetaTx sample_json_lib None (Rejected (Reject ?e CodeBadRawTx)) new_writer) \<noteq> [''ok'']"
    by (simp add: rejectMetaTx_def handleError_def HandleError_def ErrorResponse_def errorMessage_def request_def sample_json_lib_def
        zero_message_def Write_def WriteHeader_def new_writer_def relay_go_error_def Error_text_def Reject_def errors_New_def)
  have "IsHexData ''0x0''" by code_simp
  moreover have "Decode_params sample_json_lib (msg_Params zero_message) = Inr [''0x0'']"
    "Decode_relay sample_json_lib (rq_Body relay_request) = Inr (''0x0'', [])" "msg_ID zero_message = None"
    "relay_transaction (''0x0'', []) = ''0x0''"
    by (simp_all add: sample_json_lib_def relay_request_def relay_transaction_def zero_message_def)
  ultimately show ?thesis
    using both_doors_agree [of sample_json_lib zero_message "''0x0''" "[]" relay_request "(''0x0'', [])" sample_meta_lib sample_relay_env
        Background sample_calls new_writer ?\<sigma> new_writer] rpc ok no by auto
qed

end
