(* ===== verification/Monitor.thy ===== *)
theory Monitor
  imports Hex Events
begin

text \<open>
  \<open>dashboard/dashboard.go\<close>: the live monitor, which pushes the events of the bus to a browser as
  server-sent events. A stream is what was written to the connection, the channel between the bus and
  the connection, and its subscription; opening it, an event taken from the bus, one written, a
  heartbeat and the end of the request are its steps. Encoding a line as JSON may fail and is an
  argument.
\<close>

definition maxClients :: nat where "maxClients = 8"
definition retryHint :: nat where "retryHint = 2000"
definition heartbeat :: duration where "heartbeat = 15 * second"
definition streamBuffer :: nat where "streamBuffer = 64"

text \<open>\<open>events.SubscriberCount\<close>: subscriptions are numbered from one.\<close>

definition SubscriberCount :: "Bus \<Rightarrow> nat" where
  "SubscriberCount b = length (filter (\<lambda>i. subscribers b (word_of_nat i) \<noteq> None) [1..<Suc (unat (nextID b))])"

text \<open>Where the observer wants to go on: the query, else the header of a reconnecting browser, else the start.\<close>

definition startingPoint :: "string \<Rightarrow> string \<Rightarrow> uint64" where
  "startingPoint after lastEventID =
     (let raw = (if after = [] then lastEventID else after)
      in case ParseUint raw of None \<Rightarrow> 0 | Some n \<Rightarrow> n)"

section \<open>Frames\<close>

definition newline :: char where "newline = CHR 0x0A"

definition id_frame :: "uint64 \<Rightarrow> string" where
  "id_frame seq = ''id: '' @ decimal_nat (unat seq) @ [newline]"

definition send :: "(fields \<Rightarrow> string option) \<Rightarrow> fields \<Rightarrow> uint64 \<Rightarrow> string list" where
  "send Marshal line seq =
     (case Marshal line of
        None \<Rightarrow> []
      | Some encoded \<Rightarrow>
          (if seq > 0 then [id_frame seq] else []) @ [''data: '' @ encoded @ [newline, newline]])"

definition hello :: "string \<Rightarrow> fields" where
  "hello inst = [(''event'', DText ''dashboard.hello''), (''instanceId'', DText inst)]"

section \<open>A stream\<close>

record stream =
  st_sub :: uint64
  st_queue :: "Event list"
  st_out :: "string list"

datatype opened =
    Full nat
  | NoFlusher
  | Streaming stream

definition Page :: "string \<Rightarrow> (string \<times> string) list \<times> string" where
  "Page page = ([(''Content-Type'', ''text/html; charset=utf-8''), (''Cache-Control'', ''no-store'')], page)"

definition stream_headers :: "(string \<times> string) list" where
  "stream_headers =
     [(''Content-Type'', ''text/event-stream; charset=utf-8''), (''Cache-Control'', ''no-cache, no-transform''),
      (''Connection'', ''keep-alive''), (''X-Accel-Buffering'', ''no'')]"

definition Stream_open ::
    "(fields \<Rightarrow> string option) \<Rightarrow> string \<Rightarrow> bool \<Rightarrow> string \<Rightarrow> string \<Rightarrow> Bus \<Rightarrow> opened \<times> Bus" where
  "Stream_open Marshal inst flusher after lastEventID b =
     (if SubscriberCount b \<ge> maxClients then (Full maxClients, b)
      else if \<not> flusher then (NoFlusher, b)
      else
        (case ReplayAndSubscribe (startingPoint after lastEventID) b of
           ((kept, sid), b1) \<Rightarrow>
             (Streaming
                \<lparr>st_sub = sid, st_queue = [],
                 st_out = [''retry: '' @ decimal_nat retryHint @ [newline, newline]] @ send Marshal (hello inst) 0 @
                   concat (map (\<lambda>e. send Marshal (Line e) (Seq e)) kept)\<rparr>, b1)))"

text \<open>
  What moves a stream: the goroutine of the subscription hands it an event and drops it if the channel
  is full, the handler writes the next event or a heartbeat, or the client goes away and the
  subscription is cancelled.
\<close>

datatype stream_event = Delivered | Written | Beat | ClientGone

definition stream_step ::
    "(fields \<Rightarrow> string option) \<Rightarrow> stream_event \<Rightarrow> stream \<times> Bus \<Rightarrow> (stream option \<times> Bus) option" where
  "stream_step Marshal ev sb =
     (case sb of
        (st, b) \<Rightarrow>
          (case ev of
             Delivered \<Rightarrow>
               (case deliver (st_sub st) b of
                  None \<Rightarrow> None
                | Some (e, b1) \<Rightarrow>
                    Some (Some (if length (st_queue st) < streamBuffer then st\<lparr>st_queue := st_queue st @ [e]\<rparr> else st), b1))
           | Written \<Rightarrow>
               (case st_queue st of
                  [] \<Rightarrow> None
                | e # q \<Rightarrow> Some (Some (st\<lparr>st_queue := q, st_out := st_out st @ send Marshal (Line e) (Seq e)\<rparr>), b))
           | Beat \<Rightarrow> Some (Some (st\<lparr>st_out := st_out st @ ['': hb'' @ [newline, newline]]\<rparr>), b)
           | ClientGone \<Rightarrow> Some (None, cancel (st_sub st) b)))"

section \<open>What a browser sees\<close>

text \<open>
  Reconnecting loses nothing that is still kept. A browser that was last shown an event and comes
  back with its identifier gets, after the greeting, exactly the frames of the kept events with a
  greater sequence number, in order; an observer that comes back with nothing gets all of them.
\<close>

theorem Stream_resumes:
  assumes "SubscriberCount b < maxClients"
  shows "\<exists>sid b1. Stream_open Marshal name True [] (decimal_nat (unat seq)) b =
     (Streaming \<lparr>st_sub = sid, st_queue = [],
        st_out = [''retry: 2000'' @ [newline, newline]] @ send Marshal (hello name) 0 @
          concat (map (\<lambda>e. send Marshal (Line e) (Seq e)) (if seq = noReplay then [] else Replay seq b))\<rparr>, b1) \<and>
     subscribers b1 = (subscribers b)(sid \<mapsto> [])"
proof -
  have "decimal_nat retryHint = ''2000''" by (simp add: retryHint_def decimal_nat_def digits_in.simps digit_char_def)
  moreover have "startingPoint [] (decimal_nat (unat seq)) = seq" by (simp add: startingPoint_def ParseUint_decimal)
  ultimately show ?thesis
    using assms by (auto simp: Stream_open_def ReplayAndSubscribe_def Replay_def Let_def)
qed

theorem Stream_resumes_witness:
  "\<exists>sid b1 out. Stream_open (\<lambda>_. Some ''x'') ''me'' True [] (decimal_nat (unat (1 :: uint64))) sample_bus =
     (Streaming \<lparr>st_sub = sid, st_queue = [], st_out = out\<rparr>, b1)"
proof -
  have "SubscriberCount sample_bus < maxClients" by code_simp
  from Stream_resumes [OF this, of "\<lambda>_. Some ''x''" "''me''" 1] show ?thesis by blast
qed

text \<open>A place is given back when the client goes away, and an observer beyond the limit changes nothing.\<close>

lemma stream_close: "stream_step Marshal ClientGone (st, b) = Some (None, b') \<Longrightarrow> subscribers b' (st_sub st) = None"
  by (auto simp: stream_step_def cancel_def split: option.splits)

lemma Stream_full: "SubscriberCount b \<ge> maxClients \<Longrightarrow> Stream_open M n f a l b = (Full maxClients, b)"
  by (simp add: Stream_open_def)

end
