(* ===== verification/Boot.thy ===== *)
theory Boot
  imports Router Monitor
begin

text \<open>
  The process: \<open>main.go\<close>, \<open>version.go\<close> and the opening of the plain log (\<open>audit/log.go\<close>). The file,
  the environment and the network are arguments; the order in which \<open>main\<close> initialises the parts is the
  order of the definitions it composes here.
\<close>

section \<open>The version flag\<close>

fun isVersionFlag :: "string list \<Rightarrow> bool" where
  "isVersionFlag [] = False"
| "isVersionFlag (a # args) =
     (if a \<in> set [''--version'', ''-version'', ''-v'', ''version''] then True else isVersionFlag args)"

record build_info =
  version :: string
  commit :: string
  date :: string

definition printVersion :: "build_info \<Rightarrow> string \<Rightarrow> string" where
  "printVersion b goVersion =
     ''gas-relay-signer '' @ version b @ '' (commit '' @ commit b @ '', built '' @ date b @ '', '' @ goVersion @ '')'' @ [newline]"

section \<open>The plain log\<close>

datatype log_writer = Log_file string | To_stderr

record log_env =
  path_Abs :: "go_error + string"
  is_missing :: "string \<Rightarrow> bool"
  MkdirAll :: "string \<Rightarrow> go_error option"
  OpenFile :: "string \<Rightarrow> go_error option"

definition openLogWriter :: "log_env \<Rightarrow> log_writer" where
  "openLogWriter env =
     (case path_Abs env of
        Inl _ \<Rightarrow> To_stderr
      | Inr absPath \<Rightarrow>
          if is_missing env absPath \<and> MkdirAll env absPath \<noteq> None then To_stderr
          else let file = absPath @ ''/idbServiceLog.log''
               in case OpenFile env file of Some _ \<Rightarrow> To_stderr | None \<Rightarrow> Log_file file)"

section \<open>The configuration file\<close>

record config_file =
  ReadInConfig :: "go_error option"
  Unmarshal :: "go_error + Config"
  file_viper :: viper

text \<open>\<open>os.Exit\<close> with its status, or the configuration and the keys that were reported on the way.\<close>

definition getConfigFromFile ::
    "(float64 \<Rightarrow> int) \<Rightarrow> (string \<Rightarrow> bool) \<Rightarrow> config_file \<Rightarrow> nat + Config \<times> DiscardedKey list" where
  "getConfigFromFile oor isHexAddress f =
     (if ReadInConfig f \<noteq> None then Inl 1
      else case Unmarshal f of
        Inl _ \<Rightarrow> Inl 1
      | Inr c \<Rightarrow>
          (case LoadRuntimeBlocks oor (file_viper f) of
             (reorder, dashboard, logCfg, cors, discarded) \<Rightarrow>
               (case LoadValidationBlocks oor isHexAddress (file_viper f) of
                  (validation, permissioning, discarded2) \<Rightarrow>
                    Inr (c\<lparr>Reorder := reorder, Dashboard := dashboard, Log := logCfg, CORS := cors,
                           Validation := validation, Permissioning := permissioning\<rparr>,
                         discarded @ discarded2))))"

section \<open>main\<close>

definition events_Init :: "bool \<Rightarrow> int \<Rightarrow> audit \<Rightarrow> audit" where
  "events_Init on cap a = a\<lparr>defaultBus := Events.New on cap\<rparr>"

record http_server =
  Addr :: string
  ReadHeaderTimeout :: duration
  ReadTimeout :: duration
  WriteTimeout :: duration
  IdleTimeout :: duration

definition setupRoutes :: "string \<Rightarrow> http_server" where
  "setupRoutes port =
     \<lparr>Addr = '':'' @ port, ReadHeaderTimeout = 10 * second, ReadTimeout = 15 * second,
      WriteTimeout = 120 * second, IdleTimeout = 60 * second\<rparr>"

record RelayController =
  controller_Config :: Config
  controller_Service :: RelaySignerService

definition controller_Init :: "Config \<Rightarrow> RelaySignerService \<Rightarrow> RelayController" where
  "controller_Init c s = \<lparr>controller_Config = c, controller_Service = s\<rparr>"

record process =
  proc_audit :: audit
  proc_controller :: RelayController
  proc_blocks :: blocks
  proc_server :: http_server
  proc_discarded :: "DiscardedKey list"

datatype outcome = Printed string | Exited nat | Crashed string | Serving process

record boot_env =
  bt_build :: build_info
  bt_goVersion :: string
  bt_float :: "float64 \<Rightarrow> int"
  bt_file :: config_file
  bt_init :: init_env
  bt_rules :: rules_env
  bt_clock :: "time \<times> time"
  bt_ts :: string
  bt_marshal :: marshal
  bt_instance :: string

definition emit_all :: "marshal \<Rightarrow> string \<Rightarrow> log_entry list \<Rightarrow> audit \<Rightarrow> audit" where
  "emit_all Marshal ts lg a = fold (\<lambda>(level, event, fs). emit Marshal ts Background level event fs) lg a"

text \<open>
  The configuration is shared: what \<open>Init\<close> writes into it is what the controller and the service see.
  \<open>Fatal\<close> leaves with status 1.
\<close>

definition go_main :: "boot_env \<Rightarrow> string list \<Rightarrow> outcome" where
  "go_main env args =
     (if isVersionFlag args then Printed (printVersion (bt_build env) (bt_goVersion env))
      else case getConfigFromFile (bt_float env) (ie_IsHexAddress (bt_init env)) (bt_file env) of
        Inl status \<Rightarrow> Exited status
      | Inr (config, discarded) \<Rightarrow>
          (let a1 = InitStructured (Level (Log config)) (RawTx (Log config)) (audit_init (bt_instance env));
               a2 = events_Init (Dashboard_Enabled (Dashboard config)) (BufferSize (Dashboard config)) a1
           in case Init (bt_init env) config (new_service None) of
                Panics why \<Rightarrow> Crashed why
              | Returns (Some e, _) \<Rightarrow> Exited 1
              | Returns (None, s) \<Rightarrow>
                  (case ResolveAccountRules (fst (bt_clock env)) (snd (bt_clock env)) (bt_rules env) s of
                     (lg, s1) \<Rightarrow>
                       Serving \<lparr>proc_audit = emit_all (bt_marshal env) (bt_ts env) lg a2,
                                proc_controller = controller_Init (case Cfg s1 of Some c \<Rightarrow> c | None \<Rightarrow> config) s1,
                                proc_blocks = blocks_init,
                                proc_server = setupRoutes (Port (Application config)),
                                proc_discarded = discarded\<rparr>)))"

section \<open>A process that serves\<close>

lemma ResolveAccountRules_frame:
  "(snd (ResolveAccountRules now done_at env s))\<lparr>rules := None, nodePermitted := None\<rparr> =
     s\<lparr>rules := None, nodePermitted := None\<rparr>"
  by (simp add: ResolveAccountRules_def checkNodePermitted_def AccountPermitted_def Let_def
      split: option.split prod.split sum.split)

lemma emit_all_frame:
  "configuredLevel (emit_all Marshal ts lg a) = configuredLevel a"
  "capacity (defaultBus (emit_all Marshal ts lg a)) = capacity (defaultBus a)"
  "enabled (defaultBus (emit_all Marshal ts lg a)) = enabled (defaultBus a)"
  unfolding emit_all_def
  by (induction lg arbitrary: a)
     (simp_all add: emit_def Let_def write_line_def Publish_def retain_def split_beta split: option.split)

lemma Init_succeeds:
  assumes "Init env cfg s = Returns (None, s')"
  obtains key k hub where "length key = 64" "ie_HexToECDSA env key = Inr k" "ie_is_ECDSA env k"
    "PermissionsEnabled (Security cfg) \<Longrightarrow>
       ie_IsHexAddress env (AccountContractAddress (Security cfg)) \<or>
       ie_IsHexAddress env (AccountIngressAddress (Permissioning cfg))"
    "s' = s\<lparr>Cfg := Some (cfg\<lparr>Application := (Application cfg)\<lparr>Key := key, RelayHubContractAddress := Some hub\<rparr>\<rparr>),
            senders := Map.empty, metaTx := Map.empty\<rparr>"
proof -
  from assms obtain w where w: "ie_LookupEnv env = Some w" "\<not> length w < 66"
    by (auto simp: Init_def Let_def split: option.splits if_splits)
  let ?key = "take 64 (drop 2 w)"
  from assms w obtain k hub where
    "ie_HexToECDSA env ?key = Inr k" "ie_is_ECDSA env k"
    "getRelayHubContractAddress (ie_http env) (NodeURL (Application cfg)) ''1000'' (ContractAddress (Application cfg)) 10 = Inr hub"
    "\<not> (PermissionsEnabled (Security cfg) \<and> \<not> ie_IsHexAddress env (AccountContractAddress (Security cfg)) \<and>
        \<not> ie_IsHexAddress env (AccountIngressAddress (Permissioning cfg)))"
    by (auto simp: Init_def Let_def split: sum.splits if_splits)
  with assms w that [of ?key k hub] show thesis by (auto simp: Init_def Let_def)
qed

lemma go_main_serves:
  assumes "go_main env args = Serving p"
  obtains config discarded s where
    "getConfigFromFile (bt_float env) (ie_IsHexAddress (bt_init env)) (bt_file env) = Inr (config, discarded)"
    "Init (bt_init env) config (new_service None) = Returns (None, s)"
    "controller_Service (proc_controller p) =
       snd (ResolveAccountRules (fst (bt_clock env)) (snd (bt_clock env)) (bt_rules env) s)"
    "proc_audit p = emit_all (bt_marshal env) (bt_ts env)
       (fst (ResolveAccountRules (fst (bt_clock env)) (snd (bt_clock env)) (bt_rules env) s))
       (events_Init (Dashboard_Enabled (Dashboard config)) (BufferSize (Dashboard config))
          (InitStructured (Level (Log config)) (RawTx (Log config)) (audit_init (bt_instance env))))"
    "proc_discarded p = discarded"
  using assms
  by (auto simp: go_main_def Let_def controller_Init_def split: if_splits sum.splits prod.splits go_result.splits option.splits)

lemma getConfigFromFile_in_range:
  assumes "getConfigFromFile oor h f = Inr (c, ds)"
  shows "1 \<le> MaxInflightPerUser (Reorder c)" "Level (Log c) \<in> set logLevels" "0 \<le> BufferSize (Dashboard c)"
    "0 \<le> MinExpirationSeconds (Validation c)"
proof -
  obtain r d l co ds1 where run: "LoadRuntimeBlocks oor (file_viper f) = (r, d, l, co, ds1)" by (metis prod_cases5)
  obtain va pe ds2 where val: "LoadValidationBlocks oor h (file_viper f) = (va, pe, ds2)" by (metis prod_cases3)
  note blocks = runtime_blocks_in_range [where oor = oor and v = "file_viper f"] validation_blocks_in_range [where oor = oor and h = h and v = "file_viper f"]
  from assms run val have c: "Reorder c = r" "Log c = l" "Dashboard c = d" "Validation c = va"
    by (auto simp: getConfigFromFile_def split: if_splits sum.splits)
  from blocks(1) [unfolded run prod.case] blocks(2) [unfolded val prod.case]
  show "1 \<le> MaxInflightPerUser (Reorder c)" "Level (Log c) \<in> set logLevels" "0 \<le> BufferSize (Dashboard c)"
    "0 \<le> MinExpirationSeconds (Validation c)"
    unfolding c by blast+
qed

lemma known_level_is_configured:
  assumes "level \<in> set logLevels"
  shows "severity_of_text level = Some (configuredLevel (InitStructured level raw a))"
proof -
  have "list_all (\<lambda>l. ToLower (TrimSpace l) = l \<and> severity_of_text l \<noteq> None) logLevels" by code_simp
  with assms show ?thesis by (auto simp: list_all_iff InitStructured_def)
qed

lemma serving_service:
  assumes "go_main env args = Serving p"
  obtains config discarded key k hub c lg where
    "getConfigFromFile (bt_float env) (ie_IsHexAddress (bt_init env)) (bt_file env) = Inr (config, discarded)"
    "c = config\<lparr>Application := (Application config)\<lparr>Key := key, RelayHubContractAddress := Some hub\<rparr>\<rparr>"
    "length key = 64" "ie_HexToECDSA (bt_init env) key = Inr k" "ie_is_ECDSA (bt_init env) k"
    "PermissionsEnabled (Security config) \<Longrightarrow>
       ie_IsHexAddress (bt_init env) (AccountContractAddress (Security config)) \<or>
       ie_IsHexAddress (bt_init env) (AccountIngressAddress (Permissioning config))"
    "Cfg (controller_Service (proc_controller p)) = Some c" "controller_Config (proc_controller p) = c"
    "(controller_Service (proc_controller p))\<lparr>rules := None, nodePermitted := None\<rparr> = svc (sys_init c)"
    "proc_audit p = emit_all (bt_marshal env) (bt_ts env) lg
       (events_Init (Dashboard_Enabled (Dashboard config)) (BufferSize (Dashboard config))
          (InitStructured (Level (Log config)) (RawTx (Log config)) (audit_init (bt_instance env))))"
proof -
  from assms obtain config discarded s where
    cfg: "getConfigFromFile (bt_float env) (ie_IsHexAddress (bt_init env)) (bt_file env) = Inr (config, discarded)"
    and init: "Init (bt_init env) config (new_service None) = Returns (None, s)"
    and svc: "controller_Service (proc_controller p) =
       snd (ResolveAccountRules (fst (bt_clock env)) (snd (bt_clock env)) (bt_rules env) s)" (is "_ = ?s1")
    and aud: "proc_audit p = emit_all (bt_marshal env) (bt_ts env)
       (fst (ResolveAccountRules (fst (bt_clock env)) (snd (bt_clock env)) (bt_rules env) s))
       (events_Init (Dashboard_Enabled (Dashboard config)) (BufferSize (Dashboard config))
          (InitStructured (Level (Log config)) (RawTx (Log config)) (audit_init (bt_instance env))))"
    by (rule go_main_serves)
  from init obtain key k hub where key: "length key = 64" "ie_HexToECDSA (bt_init env) key = Inr k" "ie_is_ECDSA (bt_init env) k"
    and perm: "PermissionsEnabled (Security config) \<Longrightarrow>
       ie_IsHexAddress (bt_init env) (AccountContractAddress (Security config)) \<or>
       ie_IsHexAddress (bt_init env) (AccountIngressAddress (Permissioning config))"
    and s: "s = (new_service None)\<lparr>Cfg := Some (config\<lparr>Application := (Application config)
              \<lparr>Key := key, RelayHubContractAddress := Some hub\<rparr>\<rparr>), senders := Map.empty, metaTx := Map.empty\<rparr>"
    by (rule Init_succeeds) blast
  let ?c = "config\<lparr>Application := (Application config)\<lparr>Key := key, RelayHubContractAddress := Some hub\<rparr>\<rparr>"
  have frame: "?s1\<lparr>rules := None, nodePermitted := None\<rparr> = svc (sys_init ?c)"
    by (simp add: ResolveAccountRules_frame s new_service_def sys_init_def)
  then have "Cfg (?s1\<lparr>rules := None, nodePermitted := None\<rparr>) = Some ?c" by (simp add: sys_init_def new_service_def)
  then have c1: "Cfg ?s1 = Some ?c" by simp
  moreover from assms c1 svc have "controller_Config (proc_controller p) = ?c"
    by (auto simp: go_main_def Let_def controller_Init_def split: if_splits sum.splits prod.splits go_result.splits option.splits)
  ultimately show thesis
    using that [OF cfg refl key perm] frame aud by (simp add: svc)
qed

text \<open>
  C16: a process that serves is ready. The key has its sixty-four digits and can be read, the hub is
  resolved, with permissions on there is somewhere to take the rules from, the log works at the level of
  the file, the bus has the capacity of the file, and the service is the freshly initialised one the
  send path starts from, but for what was resolved about permissions.
\<close>

theorem serving_is_ready:
  assumes "go_main env args = Serving p"
  shows "\<exists>c k hub. Cfg (controller_Service (proc_controller p)) = Some c \<and>
     controller_Config (proc_controller p) = c \<and>
     length (Key (Application c)) = 64 \<and> ie_HexToECDSA (bt_init env) (Key (Application c)) = Inr k \<and>
     ie_is_ECDSA (bt_init env) k \<and> RelayHubContractAddress (Application c) = Some hub \<and>
     (PermissionsEnabled (Security c) \<longrightarrow>
        ie_IsHexAddress (bt_init env) (AccountContractAddress (Security c)) \<or>
        ie_IsHexAddress (bt_init env) (AccountIngressAddress (Permissioning c))) \<and>
     severity_of_text (Level (Log c)) = Some (configuredLevel (proc_audit p)) \<and>
     int (capacity (defaultBus (proc_audit p))) = BufferSize (Dashboard c) \<and>
     (controller_Service (proc_controller p))\<lparr>rules := None, nodePermitted := None\<rparr> = svc (sys_init c)"
proof -
  from assms obtain config discarded key k hub c lg where
    cfg: "getConfigFromFile (bt_float env) (ie_IsHexAddress (bt_init env)) (bt_file env) = Inr (config, discarded)"
    and facts: "c = config\<lparr>Application := (Application config)\<lparr>Key := key, RelayHubContractAddress := Some hub\<rparr>\<rparr>"
      "length key = 64" "ie_HexToECDSA (bt_init env) key = Inr k" "ie_is_ECDSA (bt_init env) k"
      "PermissionsEnabled (Security config) \<Longrightarrow>
         ie_IsHexAddress (bt_init env) (AccountContractAddress (Security config)) \<or>
         ie_IsHexAddress (bt_init env) (AccountIngressAddress (Permissioning config))"
      "Cfg (controller_Service (proc_controller p)) = Some c" "controller_Config (proc_controller p) = c"
      "(controller_Service (proc_controller p))\<lparr>rules := None, nodePermitted := None\<rparr> = svc (sys_init c)"
      "proc_audit p = emit_all (bt_marshal env) (bt_ts env) lg
         (events_Init (Dashboard_Enabled (Dashboard config)) (BufferSize (Dashboard config))
            (InitStructured (Level (Log config)) (RawTx (Log config)) (audit_init (bt_instance env))))"
    by (rule serving_service) blast
  then show ?thesis
    using getConfigFromFile_in_range [OF cfg]
    by (intro exI [of _ c] exI [of _ k] exI [of _ hub])
       (simp add: emit_all_frame events_Init_def Events.New_def Let_def known_level_is_configured)
qed

definition sample_boot_env :: boot_env where
  "sample_boot_env =
     \<lparr>bt_build = \<lparr>version = ''dev'', commit = ''none'', date = ''unknown''\<rparr>, bt_goVersion = ''go1.22'',
      bt_float = (\<lambda>_. 0),
      bt_file = \<lparr>ReadInConfig = None, Unmarshal = Inr sample_config,
                 file_viper = \<lparr>IsSet = (\<lambda>_. False), Get = (\<lambda>_. ROther)\<rparr>\<rparr>,
      bt_init = \<lparr>ie_LookupEnv = Some (replicate 66 CHR ''0''), ie_HexToECDSA = (\<lambda>_. Inr 1), ie_is_ECDSA = (\<lambda>_. True),
                 ie_IsHexAddress = (\<lambda>_. False),
                 ie_http = \<lparr>http_Do = (\<lambda>_ _ _. Inr []), json_Message = (\<lambda>_. Inr zero_message),
                            json_String = (\<lambda>_. Inr (''0x'' @ replicate 64 CHR ''0'')), Hex2Bytes = (\<lambda>_. []),
                            abi_UnpackAddress = (\<lambda>_. Inr [AbiAddress 7])\<rparr>\<rparr>,
      bt_rules = \<lparr>pe_Connect = None, HasCode = (\<lambda>_. Inr False), pe_ResolveAccountRules = (\<lambda>_. Inr 0),
                  pe_AccountPermitted = (\<lambda>_ _. Inr False), IsHexAddress = (\<lambda>_. False), pe_HexToAddress = (\<lambda>_. 0),
                  pe_Hex = (\<lambda>_. []), pe_NodeAddress = Inr 0, pe_ErrorFields = (\<lambda>_. [])\<rparr>,
      bt_clock = (0, 0), bt_ts = [], bt_marshal = (\<lambda>_. Inr []), bt_instance = ''i''\<rparr>"

lemma sample_boot_serves: "\<exists>p. go_main sample_boot_env [] = Serving p"
proof -
  have hub: "getRelayHubContractAddress (ie_http (bt_init sample_boot_env)) url ''1000'' proxy 10 = Inr 7" for url proxy
    by (simp add: getRelayHubContractAddress_def sample_boot_env_def zero_message_def TrimPrefix_def HasPrefix_def Let_def
        numeral_eq_Suc)
  have "\<exists>c ds. getConfigFromFile (bt_float sample_boot_env) (ie_IsHexAddress (bt_init sample_boot_env)) (bt_file sample_boot_env) = Inr (c, ds) \<and>
     \<not> PermissionsEnabled (Security c)"
    by (simp add: getConfigFromFile_def sample_boot_env_def sample_config_def split: prod.split)
  then obtain c ds where c: "getConfigFromFile (bt_float sample_boot_env) (ie_IsHexAddress (bt_init sample_boot_env)) (bt_file sample_boot_env) = Inr (c, ds)"
    "\<not> PermissionsEnabled (Security c)" by blast
  have "\<exists>s. Init (bt_init sample_boot_env) c (new_service None) = Returns (None, s)"
    using c(2) hub by (simp add: Init_def Let_def sample_boot_env_def)
  with c show ?thesis by (auto simp: go_main_def Let_def split: prod.split)
qed

theorem serving_is_ready_witness:
  "\<exists>p c hub. go_main sample_boot_env [] = Serving p \<and> Cfg (controller_Service (proc_controller p)) = Some c \<and>
     RelayHubContractAddress (Application c) = Some hub"
proof -
  obtain p where "go_main sample_boot_env [] = Serving p" using sample_boot_serves by blast
  with serving_is_ready [OF this] show ?thesis by blast
qed

end
