(* ===== verification/Sequencer.thy ===== *)
theory Sequencer
  imports Send
begin

text \<open>
  What the send path promises, as a specification: a sequencer that issues nonces chain by chain,
  each one the successor of the last it issued on that chain. The system of \<open>Send\<close>, with its locks,
  turns, timers and interleavings, refines it.
\<close>

section \<open>Refinement between transition systems\<close>

text \<open>
  A concrete system refines an abstract one through an abstraction of its states and an invariant:
  every concrete step leaves the abstract state alone or is an abstract step.
\<close>

locale refines =
  fixes c_init :: 'c and c_step :: "'c \<Rightarrow> 'c \<Rightarrow> bool"
    and a_init :: 'a and a_step :: "'a \<Rightarrow> 'a \<Rightarrow> bool"
    and abs :: "'c \<Rightarrow> 'a" and inv :: "'c \<Rightarrow> bool"
  assumes inv_init: "inv c_init"
    and abs_init: "abs c_init = a_init"
    and inv_step: "inv s \<Longrightarrow> c_step s s' \<Longrightarrow> inv s'"
    and abs_step: "inv s \<Longrightarrow> c_step s s' \<Longrightarrow> abs s' = abs s \<or> a_step (abs s) (abs s')"
begin

lemma reachable_inv: "c_step\<^sup>*\<^sup>* c_init s \<Longrightarrow> inv s"
  by (induction rule: rtranclp_induct) (auto intro: inv_init inv_step)

lemma reachable_refines: "c_step\<^sup>*\<^sup>* c_init s \<Longrightarrow> a_step\<^sup>*\<^sup>* a_init (abs s)"
proof (induction rule: rtranclp_induct)
  case base
  show ?case by (simp add: abs_init)
next
  case (step s s')
  from abs_step [OF reachable_inv [OF step.hyps(1)] step.hyps(2)] step.IH show ?case
    by (auto intro: rtranclp.rtrancl_into_rtrancl)
qed

end

section \<open>The sequencer\<close>

text \<open>Its state is the log of what was issued, oldest first; the last nonce of 64 bits has no successor.\<close>

definition follows :: "(ref \<times> uint64) list \<Rightarrow> ref \<Rightarrow> uint64 \<Rightarrow> bool" where
  "follows L c n = (case map_of (rev L) c of None \<Rightarrow> True | Some m \<Rightarrow> m = - 1 \<or> n = m + 1)"

inductive issue :: "(ref \<times> uint64) list \<Rightarrow> (ref \<times> uint64) list \<Rightarrow> bool" where
  issueI: "follows L c n \<Longrightarrow> issue L (L @ [(c, n)])"

inductive_simps issue_iff: "issue L L'"

definition on_chain :: "ref \<Rightarrow> (ref \<times> uint64) list \<Rightarrow> uint64 list" where
  "on_chain c L = map snd (filter (\<lambda>x. fst x = c) L)"

lemma on_chain_snoc [simp]: "on_chain c (L @ [(d, n)]) = on_chain c L @ (if d = c then [n] else [])"
  by (simp add: on_chain_def)

lemma last_issued: "map_of (rev L) c = (if on_chain c L = [] then None else Some (last (on_chain c L)))"
proof (induction L rule: rev_induct)
  case Nil
  show ?case by (simp add: on_chain_def)
next
  case (snoc x L)
  then show ?case by (cases x) auto
qed

text \<open>What the sequencer gives its clients: the nonces of a chain are consecutive.\<close>

lemma issued_consecutive:
  "issue\<^sup>*\<^sup>* [] L \<Longrightarrow> successively (\<lambda>m n. m = - 1 \<or> n = m + 1) (on_chain c L)"
proof (induction rule: rtranclp_induct)
  case base
  show ?case by (simp add: on_chain_def)
next
  case (step L L')
  then obtain d n where "follows L d n" "L' = L @ [(d, n)]" by (auto simp: issue_iff)
  with step.IH show ?case
    by (auto simp: follows_def last_issued successively_append_iff split: if_splits)
qed

section \<open>The system refines it\<close>

text \<open>A chain expects the successor of the last nonce sent on it, and without reordering nothing is logged.\<close>

definition seq_inv :: "Config \<Rightarrow> sys \<Rightarrow> bool" where
  "seq_inv cfg \<sigma> \<longleftrightarrow> sys_inv \<sigma> \<and> Cfg (svc \<sigma>) = Some cfg \<and> (\<not> Reorder_Enabled (Reorder cfg) \<longrightarrow> sent \<sigma> = []) \<and>
     (\<forall>c m. map_of (rev (sent \<sigma>)) c = Some m \<longrightarrow> m = - 1 \<or> next_nonce (chain_heap (svc \<sigma>) c) = m + 1)"

lemma quiet_same: "quiet s s' \<Longrightarrow> Cfg s' = Cfg s \<and> (\<forall>c. next_nonce (chain_heap s' c) = next_nonce (chain_heap s c))"
  by (simp add: quiet_def)

text \<open>Only noting a metatx as sent moves an expected nonce or adds to the log.\<close>

lemma lock_steps_same:
  "Cfg (snd (lockUser_enter key s)) = Cfg s" "chain_heap (snd (lockUser_enter key s)) = chain_heap s"
  "lockUser_acquire pid l s = Some s1 \<Longrightarrow> Cfg s1 = Cfg s \<and> chain_heap s1 = chain_heap s"
  "Cfg (lockUser_unlock l s) = Cfg s" "chain_heap (lockUser_unlock l s) = chain_heap s"
  "Cfg (lockUser_leave key l s) = Cfg s" "chain_heap (lockUser_leave key l s) = chain_heap s"
  by (auto simp: lockUser_enter_def lockUser_acquire_def lockUser_unlock_def lockUser_leave_def upd_lock_def Let_def
      split: option.split if_splits)

lemma send_step_same:
  assumes "send_step i pid th \<sigma> = Some \<sigma>'" "\<And>l h. th_pc th \<noteq> AtNote l h"
  shows "sent \<sigma>' = sent \<sigma> \<and> Cfg (svc \<sigma>') = Cfg (svc \<sigma>) \<and>
     (\<forall>c. next_nonce (chain_heap (svc \<sigma>') c) = next_nonce (chain_heap (svc \<sigma>) c))"
proof (cases "th_pc th")
  case AtGate
  with assms(1) quiet_same [OF quiet_makeRoomFor] show ?thesis
    by (auto simp: send_step_def goto_def Let_def split: prod.splits if_splits)
      (metis snd_conv)+
next
  case (AtTurn t)
  with assms(1) show ?thesis
    by (auto simp: send_step_def goto_def Let_def split: turn_pc.splits turn_result.splits option.splits
        dest!: quiet_same [OF quiet_turn_step])
next
  case AtEnter
  with assms(1) lock_steps_same(1,2) [of "th_key th" "svc \<sigma>"] show ?thesis
    by (auto simp: send_step_def goto_def Let_def split: prod.splits)
next
  case (AtValidate l)
  obtain x s1 where ex: "expectedNonce (in_now i) (in_env i) (SenderKey (th_tx th)) (svc \<sigma>) = (x, s1)" by fastforce
  have q: "quiet (svc \<sigma>) s1"
    using quiet_expectedNonce [of "svc \<sigma>" "in_now i" "in_env i" "SenderKey (th_tx th)"] ex by simp
  obtain pend s2 where pe: "pendingOf (in_now i) (SenderKey (th_tx th)) s1 = (pend, s2)" by fastforce
  then have "quiet (svc \<sigma>) s2" using quiet_trans [OF q quiet_chainLocked] by (auto simp: pendingOf_eq)
  from quiet_same [OF this] quiet_same [OF q] AtValidate assms(1) ex pe show ?thesis
    by (auto simp: send_step_def goto_def Let_def split: sum.splits if_splits)
next
  case (AtRemember l h chain)
  with assms(1) quiet_same [OF quiet_remember] show ?thesis by (auto simp: send_step_def goto_def Let_def)
next
  case (AtForget l r)
  with assms(1) quiet_same [OF quiet_forget] show ?thesis by (auto simp: send_step_def goto_def Let_def)
qed (use assms lock_steps_same in \<open>auto simp: send_step_def goto_def Let_def split: prod.splits sum.splits if_splits option.splits\<close>)

lemma noteSent_Cfg: "Cfg (snd (noteSent now p s)) = Cfg s"
  by (auto simp: noteSent_def incrementTransactionCount_def Let_def split: prod.split)
    (metis reserveLocked_frame(1) snd_conv closeOpenTicket_frame(1))

text \<open>Noting a metatx that carries what its chain expects leaves the chain expecting the successor.\<close>

lemma noteSent_next:
  assumes "noteSent now p s = ((Some c, pend), s')" "Nonce p \<noteq> - 1"
    and "\<And>c. senders s (senderKey (SenderKey p)) = Some c \<Longrightarrow> next_nonce (chain_heap s c) = Nonce p"
  shows "next_nonce (chain_heap s' c) = Nonce p + 1"
proof -
  let ?key = "senderKey (SenderKey p)"
  let ?s1 = "closeOpenTicket ?key s"
  obtain s2 where res: "reserveLocked now ?key (Nonce p) True ?s1 = (c, s2)" and s': "s' = notifyTurnLocked ?key s2"
    using assms(1) by (auto simp: noteSent_def Let_def split: if_splits prod.splits)
  have "next_nonce (chain_heap s2 c) = Nonce p + 1"
    using reserveLocked_entry [OF res] assms(3) uint64_succ_greater [OF assms(2)] live_chain_sender [of now ?s1 ?key]
    by (auto simp: tracker_next_def max_def split: option.splits)
  then show ?thesis by (simp add: s')
qed

lemma note_step_issues:
  assumes inv: "seq_inv cfg \<sigma>" and th: "threads \<sigma> pid = Some th" "th_pc th = AtNote l h"
    and nt: "noteSent now (th_tx th) (svc \<sigma>) = ((Some c, pend), s')"
  shows "follows (sent \<sigma>) c (Nonce (th_tx th))"
    "Nonce (th_tx th) \<noteq> - 1 \<Longrightarrow> next_nonce (chain_heap s' c) = Nonce (th_tx th) + 1"
    "\<And>d. d \<noteq> c \<Longrightarrow> next_nonce (chain_heap s' d) = next_nonce (chain_heap (svc \<sigma>) d)"
proof -
  have si: "sys_inv \<sigma>" using inv by (simp add: seq_inv_def)
  note D = sys_invD [OF si]
  have val: "validated (th_pc th)" using th(2) by (simp add: validated_def)
  obtain c' where e: "Some c = Some c'"
    "\<And>d. d \<noteq> c' \<Longrightarrow> next_nonce (chain_heap s' d) = next_nonce (chain_heap (svc \<sigma>) d)"
    "senders (svc \<sigma>) (th_key th) = Some c' \<or> fresh (svc \<sigma>) \<le> c'"
    using noteSent_effect [OF D(1) nt th_key_def [of th]] by (metis option.distinct(1))
  then show "\<And>d. d \<noteq> c \<Longrightarrow> next_nonce (chain_heap s' d) = next_nonce (chain_heap (svc \<sigma>) d)" by simp
  show "follows (sent \<sigma>) c (Nonce (th_tx th))"
    unfolding follows_def
  proof (split option.split, intro conjI allI impI)
    fix m assume m: "map_of (rev (sent \<sigma>)) c = Some m"
    then have "c < fresh (svc \<sigma>)" using nonces_okD(2) [OF D(5), of c m] map_of_SomeD by fastforce
    with e have "senders (svc \<sigma>) (th_key th) = Some c" by auto
    moreover have "m = - 1 \<or> next_nonce (chain_heap (svc \<sigma>) c) = m + 1" using inv m by (simp add: seq_inv_def)
    ultimately show "m = - 1 \<or> Nonce (th_tx th) = m + 1" using nonces_okD(4) [OF D(5) th(1) val] by simp
  qed simp
  show "next_nonce (chain_heap s' c) = Nonce (th_tx th) + 1" if "Nonce (th_tx th) \<noteq> - 1"
    using noteSent_next [OF nt that] nonces_okD(4) [OF D(5) th(1) val] by (simp add: th_key_def)
qed

lemma noteSent_chain:
  assumes "noteSent now p s = ((chain, pend), s')" "Cfg s = Some cfg"
  shows "chain = None \<longleftrightarrow> \<not> Reorder_Enabled (Reorder cfg)"
  using assms by (auto simp: noteSent_def reorderEnabled_def Let_def split: if_splits prod.splits)

lemma note_step_seq:
  assumes inv: "seq_inv cfg \<sigma>" and th: "threads \<sigma> pid = Some th" "th_pc th = AtNote l h"
    and step: "send_step i pid th \<sigma> = Some \<sigma>'"
  shows "seq_inv cfg \<sigma>' \<and> (sent \<sigma>' = sent \<sigma> \<or> issue (sent \<sigma>) (sent \<sigma>'))"
proof -
  obtain chain pend s' where nt: "noteSent (in_now i) (th_tx th) (svc \<sigma>) = ((chain, pend), s')" by (metis surj_pair)
  have si: "sys_inv \<sigma>'" by (rule sys_inv_step [OF _ th(1) step]) (use inv in \<open>simp add: seq_inv_def\<close>)
  have cfg: "Cfg (svc \<sigma>) = Some cfg" "Cfg s' = Some cfg"
    using inv noteSent_Cfg [of "in_now i" "th_tx th" "svc \<sigma>"] nt by (simp_all add: seq_inv_def)
  have \<sigma>': "svc \<sigma>' = s'" "sent \<sigma>' = sent \<sigma> @ (case chain of Some c \<Rightarrow> [(c, Nonce (th_tx th))] | None \<Rightarrow> [])"
    using step th(2) nt by (auto simp: send_step_def goto_def Let_def)
  show ?thesis
  proof (cases chain)
    case None
    with noteSent_chain [OF nt cfg(1)] inv \<sigma>' si cfg show ?thesis by (simp add: seq_inv_def)
  next
    case (Some c)
    note issues = note_step_issues [OF inv th nt [unfolded Some]]
    have "issue (sent \<sigma>) (sent \<sigma>')" using issues(1) by (simp add: \<sigma>' Some issueI)
    moreover have "m = - 1 \<or> next_nonce (chain_heap s' d) = m + 1" if "map_of (rev (sent \<sigma>')) d = Some m" for d m
    proof (cases "d = c")
      case True
      with that issues(2) show ?thesis by (auto simp: \<sigma>' Some)
    next
      case False
      with that inv issues(3) [OF False] show ?thesis by (simp add: \<sigma>' Some seq_inv_def)
    qed
    ultimately show ?thesis using noteSent_chain [OF nt cfg(1)] si cfg \<sigma>'(1) Some by (simp add: seq_inv_def)
  qed
qed

lemma seq_inv_same:
  assumes "seq_inv cfg \<sigma>" "sys_inv \<sigma>'" "sent \<sigma>' = sent \<sigma>" "Cfg (svc \<sigma>') = Cfg (svc \<sigma>)"
    "\<And>c. next_nonce (chain_heap (svc \<sigma>') c) = next_nonce (chain_heap (svc \<sigma>) c)"
  shows "seq_inv cfg \<sigma>'"
  using assms by (simp add: seq_inv_def)

lemma seq_step:
  assumes "seq_inv cfg \<sigma>" "sys_step \<sigma> \<sigma>'"
  shows "seq_inv cfg \<sigma>' \<and> (sent \<sigma>' = sent \<sigma> \<or> issue (sent \<sigma>) (sent \<sigma>'))"
proof -
  have si: "sys_inv \<sigma>" using assms(1) by (simp add: seq_inv_def)
  from assms(2) show ?thesis
  proof (cases rule: sys_step.cases)
    case (sys_request pid p ctx)
    then show ?thesis using seq_inv_same [OF assms(1) sys_inv_request [OF si]] by simp
  next
    case (sys_thread pid th i)
    show ?thesis
    proof (cases "\<exists>l h. th_pc th = AtNote l h")
      case True
      with note_step_seq [OF assms(1)] sys_thread show ?thesis by blast
    next
      case False
      with send_step_same [OF sys_thread(2)] seq_inv_same [OF assms(1) sys_inv_step [OF si sys_thread]]
      show ?thesis by simp
    qed
  next
    case (sys_service s')
    note q = quiet_service_op [OF sys_service(2)]
    with seq_inv_same [OF assms(1) sys_inv_service [OF si q]] quiet_same [OF q] sys_service(1) show ?thesis by simp
  next
    case sys_block
    then show ?thesis using assms(1) by (simp add: seq_inv_def sys_inv_def)
  qed
qed

interpretation sender: refines "sys_init cfg" sys_step "[]" issue sent "seq_inv cfg" for cfg
proof unfold_locales
  show "seq_inv cfg (sys_init cfg)" using sys_inv_init [of cfg] by (simp add: seq_inv_def sys_init_def new_service_def)
  show "sent (sys_init cfg) = []" by (simp add: sys_init_def)
qed (use seq_step in blast)+

lemma sys_reach_steps: "sys_reach cfg \<sigma> \<longleftrightarrow> sys_step\<^sup>*\<^sup>* (sys_init cfg) \<sigma>"
proof
  show "sys_step\<^sup>*\<^sup>* (sys_init cfg) \<sigma>" if "sys_reach cfg \<sigma>"
    using that by induction (auto intro: rtranclp.rtrancl_into_rtrancl)
  show "sys_reach cfg \<sigma>" if "sys_step\<^sup>*\<^sup>* (sys_init cfg) \<sigma>"
    using that by (induction rule: rtranclp_induct) (auto intro: sys_reach.intros)
qed

text \<open>
  C1: the send path refines the sequencer. Whatever the interleaving of the requests with each other,
  with timers, results, expiries and readers of the tracker, the log of what was sent is one that the
  sequencer can issue, so on every chain each nonce sent is the successor of the one sent before it:
  no gap, no repetition, no reordering, short of the last nonce of 64 bits.
\<close>

theorem send_path_refines_sequencer:
  assumes "sys_reach cfg \<sigma>"
  shows "issue\<^sup>*\<^sup>* [] (sent \<sigma>) \<and> successively (\<lambda>m n. m = - 1 \<or> n = m + 1) (on_chain c (sent \<sigma>))"
proof -
  have "issue\<^sup>*\<^sup>* [] (sent \<sigma>)" using sender.reachable_refines assms by (simp add: sys_reach_steps)
  then show ?thesis using issued_consecutive by blast
qed

theorem send_path_refines_sequencer_witness:
  "\<exists>\<sigma>. sys_reach burst_config \<sigma> \<and> sent \<sigma> = [(3, 3), (3, 4)] \<and> issue\<^sup>*\<^sup>* [] (sent \<sigma>) \<and>
     successively (\<lambda>m n. m = - 1 \<or> n = m + 1) (on_chain 3 (sent \<sigma>)) \<and> on_chain 3 (sent \<sigma>) = [3, 4]"
proof -
  from sample_run_sent obtain \<sigma> where run:
      "sys_run (sample_schedule @ replicate 3 (0, sample_send_input 11)) sample_sys = Some \<sigma>"
    by (cases "sys_run (sample_schedule @ replicate 3 (0, sample_send_input 11)) sample_sys") auto
  then have "sent \<sigma> = [(3, 3), (3, 4)]" using sample_run_sent by simp
  moreover have reach: "sys_reach burst_config \<sigma>" by (rule sys_run_reach [OF sample_sys_reach run])
  ultimately show ?thesis using send_path_refines_sequencer [OF reach, of 3] by (auto simp: on_chain_def)
qed

end
