(* ===== verification/Relay_Path.thy ===== *)
theory Relay_Path
  imports Handlers Sequencer "HOL-Library.Multiset"
begin

text \<open>
  \<open>RelayAndWait\<close> (\<open>service/relay.go\<close>) with reordering on: the request prepares its metatx,
  becomes a thread of the send path, interleaved with every other request and with the rest of the
  service, and waits for the receipt once the thread is done.
\<close>

section \<open>The request as a thread\<close>

definition relay_end ::
    "meta_lib \<Rightarrow> relay_env \<Rightarrow> thread \<Rightarrow> sys \<Rightarrow>
     ((relay_error + RelayResult) option go_result \<times> RelaySignerService \<times> uint64) option" where
  "relay_end lib env th \<sigma> =
     (case th_pc th of
        AtDone r \<Rightarrow> Some (relay_after_send lib env (th_tx th) r (svc \<sigma>, gas_used \<sigma>))
      | _ \<Rightarrow> None)"

text \<open>The moves of a run are steps of the system, when what they do to the service is one of its operations.\<close>

definition service_moves :: "move list \<Rightarrow> bool" where
  "service_moves ms \<longleftrightarrow> (\<forall>f. Service f \<in> set ms \<longrightarrow> (\<forall>s. service_op s (f s)))"

lemma run_moves_steps: "service_moves ms \<Longrightarrow> sys_step\<^sup>*\<^sup>* \<sigma> (run_moves ms \<sigma>)"
proof (induction ms arbitrary: \<sigma>)
  case (Cons m ms)
  have "sys_step \<sigma> (run_move m \<sigma>) \<or> run_move m \<sigma> = \<sigma>"
  proof (cases m)
    case (Step pid i)
    then show ?thesis by (auto split: option.split intro: sys_thread)
  next
    case (Arrive pid p ctx)
    then show ?thesis by (auto intro: sys_request)
  next
    case (Service f)
    with Cons.prems show ?thesis by (auto simp: service_moves_def intro: sys_service)
  next
    case NewBlock
    then show ?thesis by (auto intro: sys_block)
  qed
  with Cons.IH [of "run_move m \<sigma>"] Cons.prems show ?case
    by (auto simp: run_moves_def service_moves_def intro: converse_rtranclp_into_rtranclp)
qed (simp add: run_moves_def)

text \<open>Nobody takes away the metatx of a thread.\<close>

lemma send_step_threads:
  "send_step i pid th \<sigma> = Some \<sigma>' \<Longrightarrow> \<exists>pc. threads \<sigma>' = (threads \<sigma>)(pid \<mapsto> th\<lparr>th_pc := pc\<rparr>)"
  by (cases "th_pc th")
    (auto simp: send_step_def goto_def Let_def split: prod.splits sum.splits if_splits option.splits turn_pc.splits turn_result.splits)

lemma run_move_tx: "threads \<sigma> pid = Some th \<Longrightarrow> \<exists>th'. threads (run_move m \<sigma>) pid = Some th' \<and> th_tx th' = th_tx th"
  by (cases m) (auto split: option.split dest!: send_step_threads)

lemma run_moves_tx: "threads \<sigma> pid = Some th \<Longrightarrow> \<exists>th'. threads (run_moves ms \<sigma>) pid = Some th' \<and> th_tx th' = th_tx th"
proof (induction ms arbitrary: \<sigma> th)
  case (Cons m ms)
  from run_move_tx [OF Cons.prems, of m] Cons.IH [of "run_move m \<sigma>"] show ?case by (auto simp: run_moves_def)
qed (simp add: run_moves_def)

text \<open>
  With reordering on \<open>RelayAndWait\<close> is the preparation, a run in which its request is a thread, and the
  end of that thread.
\<close>

lemma RelayAndWait_reordered:
  assumes "reorderEnabled (svc \<sigma>)" "PrepareMetaTx lib (re_prepare env) rawTx (svc \<sigma>) = (Inr (tx, p), lg, s1)"
    "threads \<sigma> (re_pid env) = None"
    "\<sigma>1 = run_moves (re_moves env) (\<sigma>\<lparr>svc := s1, threads := (threads \<sigma>)(re_pid env \<mapsto> \<lparr>th_tx = p, th_ctx = ctx, th_pc = AtGate\<rparr>)\<rparr>)"
  shows "\<exists>th. threads \<sigma>1 (re_pid env) = Some th \<and> th_tx th = p \<and> RelayAndWait lib env ctx rawTx \<sigma> =
     (case relay_end lib env th \<sigma>1 of
        None \<Rightarrow> (Returns None, \<sigma>1)
      | Some (res, s2, g2) \<Rightarrow> (res, \<sigma>1\<lparr>svc := s2, gas_used := g2\<rparr>))"
proof -
  from PrepareMetaTx_frame [OF assms(2)] assms(1) have on: "reorderEnabled s1" by (auto simp: reorderEnabled_def)
  obtain th where th: "threads \<sigma>1 (re_pid env) = Some th" "th_tx th = p"
    using run_moves_tx [of "\<sigma>\<lparr>svc := s1, threads := (threads \<sigma>)(re_pid env \<mapsto> \<lparr>th_tx = p, th_ctx = ctx, th_pc = AtGate\<rparr>)\<rparr>"
        "re_pid env" _ "re_moves env"] assms(4) by auto
  have "ReserveGasAndSend_call lib env ctx p (\<sigma>\<lparr>svc := s1\<rparr>) = (thread_result (re_pid env) \<sigma>1, \<sigma>1)"
    using on assms(3,4) by (simp add: ReserveGasAndSend_call_def ReserveGasAndSend_def Let_def)
  with th assms(2) have "RelayAndWait lib env ctx rawTx \<sigma> =
     (case relay_end lib env th \<sigma>1 of
        None \<Rightarrow> (Returns None, \<sigma>1)
      | Some (res, s2, g2) \<Rightarrow> (res, \<sigma>1\<lparr>svc := s2, gas_used := g2\<rparr>))"
    by (cases "th_pc th") (simp_all add: RelayAndWait_def thread_result_def relay_end_def relay_wait_def)
  with th show ?thesis by blast
qed

section \<open>Nothing that went out is refused\<close>

text \<open>The metatx of the request is on its way to the chain.\<close>

definition has_sent :: "send_pc \<Rightarrow> bool" where
  "has_sent pc =
     (case pc of
        AtNote _ _ \<Rightarrow> True
      | AtRemember _ _ _ \<Rightarrow> True
      | AtRelayUnlock _ r \<Rightarrow> \<not> isl r
      | AtForget _ r \<Rightarrow> \<not> isl r
      | AtUnlock _ r \<Rightarrow> \<not> isl r
      | AtLeave _ r \<Rightarrow> \<not> isl r
      | AtDone r \<Rightarrow> \<not> isl r
      | _ \<Rightarrow> False)"

lemma send_step_has_sent:
  assumes "send_step i pid th \<sigma> = Some \<sigma>'" "has_sent (th_pc th)" "threads \<sigma>' pid = Some th'"
  shows "has_sent (th_pc th')"
  using assms
  by (cases "th_pc th") (auto simp: send_step_def goto_def has_sent_def Let_def isl_def split: prod.splits sum.splits)

lemma sys_step_has_sent:
  assumes "sys_step \<sigma> \<sigma>'" "threads \<sigma> pid = Some th" "has_sent (th_pc th)"
  shows "\<exists>th'. threads \<sigma>' pid = Some th' \<and> th_tx th' = th_tx th \<and> has_sent (th_pc th')"
  using assms(1)
proof (cases rule: sys_step.cases)
  case (sys_thread pid0 th0 i)
  then obtain pc where T: "threads \<sigma>' = (threads \<sigma>)(pid0 \<mapsto> th0\<lparr>th_pc := pc\<rparr>)"
    using send_step_threads by blast
  show ?thesis
  proof (cases "pid0 = pid")
    case True
    with T assms sys_thread send_step_has_sent [of i pid th \<sigma> \<sigma>'] show ?thesis by auto
  next
    case False
    with T assms show ?thesis by auto
  qed
qed (use assms(2,3) in \<open>auto split: if_splits\<close>)

lemma run_has_sent:
  assumes "sys_step\<^sup>*\<^sup>* \<sigma> \<sigma>'" "threads \<sigma> pid = Some th" "has_sent (th_pc th)"
  shows "\<exists>th'. threads \<sigma>' pid = Some th' \<and> th_tx th' = th_tx th \<and> has_sent (th_pc th')"
  using assms(1)
proof (induction rule: rtranclp_induct)
  case base
  with assms show ?case by blast
next
  case (step \<tau> \<tau>')
  then show ?case using sys_step_has_sent by metis
qed

lemma send_step_sent:
  "send_step i pid th \<sigma> = Some \<sigma>' \<Longrightarrow> \<not> has_sent (th_pc th) \<Longrightarrow> sent \<sigma>' = sent \<sigma>"
  by (cases "th_pc th")
    (auto simp: send_step_def goto_def has_sent_def Let_def split: prod.splits sum.splits if_splits option.splits turn_pc.splits turn_result.splits)

lemma relay_after_send_refusal:
  "relay_after_send lib env p r sg = (Returns (Some (Inl (Rejected rej))), sg') \<Longrightarrow> code rej \<noteq> CodeReceiptTimeout \<Longrightarrow> isl r"
  by (auto simp: relay_after_send_def Reject_def split: sum.splits option.splits go_result.splits prod.splits)

text \<open>
  C15: a refusal with reordering on means nothing was sent. When a request ends refused with any code but
  the timeout of the receipt, then at no earlier moment of the run, whatever the other requests and the
  rest of the service did in between, had its metatx gone out, and no step it took noted anything as sent.
\<close>

theorem refused_request_never_sent:
  assumes "sys_step\<^sup>*\<^sup>* \<sigma> \<sigma>'" "threads \<sigma> pid = Some th" "threads \<sigma>' pid = Some th'"
    and "relay_end lib env th' \<sigma>' = Some (Returns (Some (Inl (Rejected rej))), sg)" "code rej \<noteq> CodeReceiptTimeout"
  shows "\<not> has_sent (th_pc th) \<and> (\<forall>i \<sigma>1. send_step i pid th \<sigma> = Some \<sigma>1 \<longrightarrow> sent \<sigma>1 = sent \<sigma>)"
proof -
  have "\<not> has_sent (th_pc th')"
    using assms(4,5) relay_after_send_refusal
    by (auto simp: relay_end_def has_sent_def split: send_pc.splits)
  then have "\<not> has_sent (th_pc th)" using run_has_sent [OF assms(1,2)] assms(3) by auto
  then show ?thesis using send_step_sent by blast
qed

text \<open>A request turned away for the gas of the block, on its last step.\<close>

definition leaving_thread :: thread where
  "leaving_thread = \<lparr>th_tx = sample_tx 5, th_ctx = Background, th_pc = AtLeave 0 (rejected gas_exceeded CodeRelayError)\<rparr>"

definition leaving_sys :: sys where
  "leaving_sys = (sys_init sample_config)\<lparr>threads := [0 \<mapsto> leaving_thread]\<rparr>"

theorem refused_request_never_sent_witness:
  "\<exists>\<sigma>' th'. sys_step leaving_sys \<sigma>' \<and> threads \<sigma>' 0 = Some th' \<and>
     (\<exists>sg. relay_end sample_meta_lib sample_relay_env th' \<sigma>' =
        Some (Returns (Some (Inl (Rejected (Reject gas_exceeded CodeRelayError)))), sg)) \<and> \<not> has_sent (th_pc leaving_thread)"
proof -
  let ?th' = "leaving_thread\<lparr>th_pc := AtDone (rejected gas_exceeded CodeRelayError)\<rparr>"
  let ?\<sigma>' = "goto 0 leaving_thread (AtDone (rejected gas_exceeded CodeRelayError))
     (leaving_sys\<lparr>svc := lockUser_leave (th_key leaving_thread) 0 (svc leaving_sys)\<rparr>)"
  have at: "threads leaving_sys 0 = Some leaving_thread" "threads ?\<sigma>' 0 = Some ?th'"
    by (simp_all add: leaving_sys_def goto_def)
  have "send_step (sample_send_input 1) 0 leaving_thread leaving_sys = Some ?\<sigma>'"
    by (simp add: send_step_def leaving_thread_def)
  with at(1) have step: "sys_step leaving_sys ?\<sigma>'" by (rule sys_thread)
  have fin: "relay_end sample_meta_lib sample_relay_env ?th' ?\<sigma>' =
      Some (Returns (Some (Inl (Rejected (Reject gas_exceeded CodeRelayError)))), svc ?\<sigma>', gas_used ?\<sigma>')"
    by (simp add: relay_end_def relay_after_send_def rejected_def)
  have "code (Reject gas_exceeded CodeRelayError) \<noteq> CodeReceiptTimeout" by (simp add: Reject_def code_defs)
  with refused_request_never_sent [OF r_into_rtranclp [of sys_step, OF step] at fin] step at fin show ?thesis by blast
qed

section \<open>The log is the accepted requests\<close>

text \<open>The metatx of the request was noted as sent.\<close>

definition noted :: "send_pc \<Rightarrow> bool" where
  "noted pc = (has_sent pc \<and> (\<forall>l h. pc \<noteq> AtNote l h))"

definition noted_of :: "(nat \<rightharpoonup> thread) \<Rightarrow> nat set" where
  "noted_of T = {pid. \<exists>th. T pid = Some th \<and> noted (th_pc th)}"

definition nonce_at :: "(nat \<rightharpoonup> thread) \<Rightarrow> nat \<Rightarrow> uint64" where
  "nonce_at T pid = Nonce (th_tx (the (T pid)))"

definition log_accounts :: "sys \<Rightarrow> bool" where
  "log_accounts \<sigma> \<longleftrightarrow>
     mset (map snd (sent \<sigma>)) = image_mset (nonce_at (threads \<sigma>)) (mset_set (noted_of (threads \<sigma>)))"

lemma noted_move:
  assumes "T pid = Some th"
  shows "noted_of (T(pid \<mapsto> th\<lparr>th_pc := pc\<rparr>)) =
      (if noted pc then insert pid (noted_of T) else noted_of T - {pid})"
    "nonce_at (T(pid \<mapsto> th\<lparr>th_pc := pc\<rparr>)) = nonce_at T"
  using assms by (auto simp: noted_of_def nonce_at_def)

text \<open>Only the step that notes a metatx makes its request a noted one.\<close>

lemma send_step_noted:
  assumes "send_step i pid th \<sigma> = Some \<sigma>'" "threads \<sigma>' pid = Some th'" "\<And>l h. th_pc th \<noteq> AtNote l h"
  shows "noted (th_pc th') = noted (th_pc th)"
  using assms
  by (cases "th_pc th")
    (auto simp: send_step_def goto_def noted_def has_sent_def Let_def rejected_def
      split: prod.splits sum.splits if_splits option.splits turn_pc.splits turn_result.splits)

lemma send_step_accounts:
  assumes inv: "seq_inv cfg \<sigma>" and on: "Reorder_Enabled (Reorder cfg)" and acc: "log_accounts \<sigma>"
    and th: "threads \<sigma> pid = Some th" and step: "send_step i pid th \<sigma> = Some \<sigma>'"
  shows "log_accounts \<sigma>'"
proof -
  obtain pc where T: "threads \<sigma>' = (threads \<sigma>)(pid \<mapsto> th\<lparr>th_pc := pc\<rparr>)" using send_step_threads [OF step] by blast
  have fin: "finite (noted_of (threads \<sigma>))"
    using locks_okD(1) [OF sys_invD(2)] inv
    by (auto simp: seq_inv_def noted_of_def intro: finite_subset [of _ "dom (threads \<sigma>)"])
  note move = noted_move [of "threads \<sigma>", OF th, of pc, folded T]
  show ?thesis
  proof (cases "\<exists>l h. th_pc th = AtNote l h")
    case True
    then obtain l h where pc: "th_pc th = AtNote l h" by blast
    obtain chain pend s1 where nt: "noteSent (in_now i) (th_tx th) (svc \<sigma>) = ((chain, pend), s1)" by (metis surj_pair)
    with noteSent_chain [OF nt] inv on obtain c where c: "chain = Some c" by (auto simp: seq_inv_def)
    have "sent \<sigma>' = sent \<sigma> @ [(c, Nonce (th_tx th))]" "threads \<sigma>' = (threads \<sigma>)(pid \<mapsto> th\<lparr>th_pc := AtRemember l h (Some c)\<rparr>)"
      using step pc nt c by (auto simp: send_step_def goto_def Let_def)
    moreover have "pid \<notin> noted_of (threads \<sigma>)" using th pc by (simp add: noted_of_def noted_def)
    moreover have "noted (AtRemember l h (Some c))" by (simp add: noted_def has_sent_def)
    moreover have "nonce_at (threads \<sigma>) pid = Nonce (th_tx th)" using th by (simp add: nonce_at_def)
    ultimately show ?thesis
      using acc fin noted_move [of "threads \<sigma>", OF th, of "AtRemember l h (Some c)"] by (simp add: log_accounts_def)
  next
    case False
    then have "sent \<sigma>' = sent \<sigma>" using send_step_same [OF step] by blast
    moreover have "noted pc = noted (th_pc th)" using send_step_noted [OF step] T False by force
    moreover have "pid \<in> noted_of (threads \<sigma>) \<longleftrightarrow> noted (th_pc th)" using th by (simp add: noted_of_def)
    ultimately show ?thesis using acc move by (auto simp: log_accounts_def insert_absorb)
  qed
qed

lemma sys_step_accounts:
  assumes "seq_inv cfg \<sigma>" "Reorder_Enabled (Reorder cfg)" "log_accounts \<sigma>" "sys_step \<sigma> \<sigma>'"
  shows "log_accounts \<sigma>'"
  using assms(4)
proof (cases rule: sys_step.cases)
  case (sys_request pid p ctx)
  then have "noted_of (threads \<sigma>') = noted_of (threads \<sigma>)"
    by (auto simp: noted_of_def noted_def has_sent_def)
  moreover have "nonce_at (threads \<sigma>') q = nonce_at (threads \<sigma>) q" if "q \<in> noted_of (threads \<sigma>)" for q
    using that sys_request by (auto simp: nonce_at_def noted_of_def)
  ultimately show ?thesis
    using assms(3) sys_request image_mset_cong [of "mset_set (noted_of (threads \<sigma>))" "nonce_at (threads \<sigma>')" "nonce_at (threads \<sigma>)"]
    by (cases "finite (noted_of (threads \<sigma>))") (simp_all add: log_accounts_def)
next
  case (sys_thread pid th i)
  with send_step_accounts [OF assms(1-3)] show ?thesis by blast
qed (use assms(3) in \<open>simp_all add: log_accounts_def\<close>)

text \<open>
  C2: what was sent is what was accepted, each request once. With reordering on, in every reachable state the
  nonces in the log of what went out are, counted with their repetitions, exactly the nonces of the
  requests that noted their metatx as sent, one entry for each: a request that ends with a hash is one
  of them and a request that ends refused is not, so no answer with a hash lacks its entry, nothing is
  sent twice for one request, and nothing is in the log that no request asked for.
\<close>

theorem sent_log_is_the_accepted_requests:
  assumes "sys_reach cfg \<sigma>" "Reorder_Enabled (Reorder cfg)"
  shows "mset (map snd (sent \<sigma>)) = image_mset (nonce_at (threads \<sigma>)) (mset_set (noted_of (threads \<sigma>))) \<and>
    (\<forall>pid th r. threads \<sigma> pid = Some th \<longrightarrow> th_pc th = AtDone r \<longrightarrow> (pid \<in> noted_of (threads \<sigma>) \<longleftrightarrow> (\<exists>h. r = Inr h)))"
proof -
  have "log_accounts \<sigma> \<and> seq_inv cfg \<sigma>"
    using assms(1)
  proof induction
    case reach_init
    have "noted_of Map.empty = {}" by (simp add: noted_of_def)
    then show ?case using sender.inv_init by (simp add: log_accounts_def sys_init_def)
  next
    case (reach_step \<sigma> \<sigma>')
    then show ?case using sys_step_accounts assms(2) seq_step by blast
  qed
  moreover have "noted (AtDone r) \<longleftrightarrow> (\<exists>h. r = Inr h)" for r by (cases r) (auto simp: noted_def has_sent_def)
  ultimately show ?thesis by (auto simp: log_accounts_def noted_of_def)
qed

theorem sent_log_is_the_accepted_requests_witness:
  "\<exists>\<sigma>. sys_reach burst_config \<sigma> \<and> sent \<sigma> = [(3, 3), (3, 4)] \<and> card (noted_of (threads \<sigma>)) = 2 \<and>
     image_mset (nonce_at (threads \<sigma>)) (mset_set (noted_of (threads \<sigma>))) = {#3, 4#}"
proof -
  from sample_run_sent obtain \<sigma> where run:
      "sys_run (sample_schedule @ replicate 3 (0, sample_send_input 11)) sample_sys = Some \<sigma>"
    by (cases "sys_run (sample_schedule @ replicate 3 (0, sample_send_input 11)) sample_sys") auto
  then have log: "sent \<sigma> = [(3, 3), (3, 4)]" using sample_run_sent by simp
  have reach: "sys_reach burst_config \<sigma>" by (rule sys_run_reach [OF sample_sys_reach run])
  have "Reorder_Enabled (Reorder burst_config)" by (simp add: burst_config_def)
  from sent_log_is_the_accepted_requests [OF reach this] log
  have eq: "image_mset (nonce_at (threads \<sigma>)) (mset_set (noted_of (threads \<sigma>))) = {#3, 4#}" by simp
  then have "size (mset_set (noted_of (threads \<sigma>))) = 2" by (metis One_nat_def Suc_1 size_add_mset size_empty size_image_mset)
  with reach log eq show ?thesis by auto
qed

end
