(* ===== verification/Sha3.thy ===== *)
theory Sha3
  imports Hex Rpc
begin

text \<open>
  Package \<open>sha3\<close> (\<open>sha3/sha3.go\<close>): the tight packing of Go values by Solidity type names, and the hash
  over it. A value of type \<open>interface{}\<close> is a \<open>go_value\<close>; padding, the 256-bit reduction and Keccak come
  from go-ethereum and are functions of a record. Packing can panic, so every function returns a
  \<open>go_result\<close>.
\<close>

section \<open>Values\<close>

datatype int_kind = U64 | U32 | U16 | U8 | UInt | I64 | I32 | I16 | I8 | IInt

text \<open>
  \<open>VList\<close> is a \<open>[]interface{}\<close>, \<open>VSlices\<close> a \<open>[][]byte\<close>, \<open>VStrings\<close> a \<open>[]string\<close>, \<open>VFixed\<close> a byte array of
  the length of the list and \<open>VOther\<close> a value of a type that is none of these and not an array.
\<close>

datatype go_value =
    VNil
  | VBool bool
  | VInt int_kind int
  | VBig int
  | VString string
  | VAddress Address
  | VBytes bytes
  | VFixed bytes
  | VStrings "string list"
  | VSlices "bytes list"
  | VList "go_value list"
  | VOther

record pack_lib =
  LeftPadBytes :: "bytes \<Rightarrow> nat \<Rightarrow> bytes"
  RightPadBytes :: "bytes \<Rightarrow> nat \<Rightarrow> bytes"
  U256Bytes :: "int \<Rightarrow> bytes"
  Keccak256 :: "bytes \<Rightarrow> bytes"
  failed_SetString :: "string \<Rightarrow> int"

section \<open>The standard library\<close>

fun go_bind :: "'a go_result \<Rightarrow> ('a \<Rightarrow> 'b go_result) \<Rightarrow> 'b go_result" where
  "go_bind (Returns x) f = f x"
| "go_bind (Panics r) f = Panics r"

fun collect :: "'a list go_result \<Rightarrow> 'a list go_result list \<Rightarrow> 'a list go_result" where
  "collect acc [] = acc"
| "collect acc (r # rs) = collect (go_bind acc (\<lambda>xs. go_bind r (\<lambda>ys. Returns (xs @ ys)))) rs"

definition string_bytes :: "string \<Rightarrow> bytes" where
  "string_bytes s = map (\<lambda>c. word_of_nat (of_char c)) s"

text \<open>
  \<open>big.Int.SetString(v, 10)\<close>. What the number holds after a failure is documented as undefined, so it
  is a parameter.
\<close>

definition SetString :: "pack_lib \<Rightarrow> string \<Rightarrow> int" where
  "SetString pl v =
     (let (neg, ds) = (case v of
          c # cs \<Rightarrow> if c = CHR ''-'' then (True, cs) else if c = CHR ''+'' then (False, cs) else (False, v)
        | [] \<Rightarrow> (False, []))
      in if ds \<noteq> [] \<and> list_all is_digit ds
         then (if neg then - int (decimal_value ds) else int (decimal_value ds))
         else failed_SetString pl v)"

text \<open>\<open>big.Int.Bytes\<close>, the absolute value without leading zeros, and \<open>big.Int.Uint64\<close>, its low 64 bits.\<close>

fun nat_bytes :: "nat \<Rightarrow> bytes" where
  "nat_bytes n = (if n = 0 then [] else nat_bytes (n div 256) @ [word_of_nat (n mod 256)])"

declare nat_bytes.simps [simp del]

definition big_Bytes :: "int \<Rightarrow> bytes" where
  "big_Bytes v = nat_bytes (nat \<bar>v\<bar>)"

definition big_Uint64 :: "int \<Rightarrow> uint64" where
  "big_Uint64 v = word_of_nat (nat \<bar>v\<bar>)"

text \<open>\<open>strconv.Atoi\<close> on a string of digits.\<close>

definition Atoi :: "string \<Rightarrow> nat go_result" where
  "Atoi s =
     (if s = [] \<or> \<not> list_all is_digit s then Panics ''strconv.Atoi: invalid syntax''
      else if decimal_value s < 2 ^ 63 then Returns (decimal_value s)
      else Panics ''strconv.Atoi: value out of range'')"

section \<open>Arrays\<close>

definition isArray :: "go_value \<Rightarrow> bool go_result" where
  "isArray v =
     (case v of
        VNil \<Rightarrow> Panics ''nil pointer dereference''
      | VAddress _ \<Rightarrow> Returns True | VBytes _ \<Rightarrow> Returns True | VFixed _ \<Rightarrow> Returns True
      | VStrings _ \<Rightarrow> Returns True | VSlices _ \<Rightarrow> Returns True | VList _ \<Rightarrow> Returns True
      | _ \<Rightarrow> Returns False)"

text \<open>\<open>s.Index(i).Interface()\<close> for every index of an array or a slice.\<close>

definition elems :: "go_value \<Rightarrow> go_value list" where
  "elems v =
     (case v of
        VAddress a \<Rightarrow> map (\<lambda>b. VInt U8 (uint b)) (be_bytes 20 (unat a))
      | VBytes bs \<Rightarrow> map (\<lambda>b. VInt U8 (uint b)) bs
      | VFixed bs \<Rightarrow> map (\<lambda>b. VInt U8 (uint b)) bs
      | VStrings ss \<Rightarrow> map VString ss
      | VSlices bss \<Rightarrow> map VBytes bss
      | VList vs \<Rightarrow> vs
      | _ \<Rightarrow> [])"

text \<open>
  The shape every packing function has: a type switch, then the packing function of the array applied
  to the elements if the value is an array, and a default otherwise. Arrays nest, and the elements of
  an array of bytes are numbers, so the nesting is bounded by the size of the value.
\<close>

definition value_rank :: "go_value \<Rightarrow> nat" where
  "value_rank v = (case v of VList vs \<Rightarrow> 3 + size v | VStrings _ \<Rightarrow> 2 | VSlices _ \<Rightarrow> 2
     | VAddress _ \<Rightarrow> 1 | VBytes _ \<Rightarrow> 1 | VFixed _ \<Rightarrow> 1 | _ \<Rightarrow> 0)"

lemma elems_smaller: "x \<in> set (elems v) \<Longrightarrow> value_rank x < value_rank v"
proof -
  have "value_rank x < 3 + size (VList vs)" if "x \<in> set vs" for vs
    using size_list_estimation' [OF that, of "size x" size] by (cases x) (auto simp: value_rank_def)
  then show "x \<in> set (elems v) \<Longrightarrow> value_rank x < value_rank v"
    by (cases v) (auto simp: elems_def, auto simp: value_rank_def)
qed

function packed :: "(go_value \<Rightarrow> bytes go_result option) \<Rightarrow> (bytes \<Rightarrow> bytes) \<Rightarrow> bytes \<Rightarrow> go_value \<Rightarrow> bytes go_result" where
  "packed switch pad dflt v =
     (case switch v of
        Some r \<Rightarrow> r
      | None \<Rightarrow>
          go_bind (isArray v) (\<lambda>arr.
            if arr then collect (Returns []) (map (\<lambda>x. go_bind (packed switch pad dflt x) (\<lambda>bs. Returns (pad bs))) (elems v))
            else Returns dflt))"
  by pat_completeness auto

termination
  by (relation "measure (\<lambda>(_, _, _, v). value_rank v)") (auto simp: elems_smaller)

declare packed.simps [simp del]

definition pad_array :: "pack_lib \<Rightarrow> (go_value \<Rightarrow> bytes go_result) \<Rightarrow> go_value \<Rightarrow> bytes go_result" where
  "pad_array pl f v = collect (Returns []) (map (\<lambda>x. go_bind (f x) (\<lambda>bs. Returns (LeftPadBytes pl bs 32))) (elems v))"

section \<open>The packing of one value\<close>

definition Address_switch :: "go_value \<Rightarrow> bytes go_result option" where
  "Address_switch v =
     (case v of
        VAddress a \<Rightarrow> Some (Returns (be_bytes 20 (unat a)))
      | VString s \<Rightarrow>
          (let s1 = TrimPrefix s ''0x''
           in if s1 = [] \<or> s1 = ''0'' then Some (Returns [0])
              else let s2 = (if odd (length s1) then CHR ''0'' # s1 else s1)
                   in case hex_DecodeString s2 of
                        (bs, None) \<Rightarrow> Some (Returns bs)
                      | (_, Some _) \<Rightarrow> Some (Panics ''encoding/hex''))
      | VBytes bs \<Rightarrow> Some (Returns bs)
      | _ \<Rightarrow> None)"

definition sol_Address :: "pack_lib \<Rightarrow> go_value \<Rightarrow> bytes go_result" where
  "sol_Address pl v = packed Address_switch (\<lambda>bs. LeftPadBytes pl bs 32) (replicate 20 0) v"

definition AddressArray :: "pack_lib \<Rightarrow> go_value \<Rightarrow> bytes go_result" where
  "AddressArray pl v = pad_array pl (sol_Address pl) v"

definition Uint256_switch :: "pack_lib \<Rightarrow> go_value \<Rightarrow> bytes go_result option" where
  "Uint256_switch pl v =
     (case v of
        VBig n \<Rightarrow> Some (Returns (U256Bytes pl n))
      | VString s \<Rightarrow> Some (Returns (U256Bytes pl (SetString pl s)))
      | _ \<Rightarrow> None)"

definition Uint256 :: "pack_lib \<Rightarrow> go_value \<Rightarrow> bytes go_result" where
  "Uint256 pl v = packed (Uint256_switch pl) (\<lambda>bs. LeftPadBytes pl bs 32) (RightPadBytes pl [] 32) v"

definition Uint256Array :: "pack_lib \<Rightarrow> go_value \<Rightarrow> bytes go_result" where
  "Uint256Array pl v = pad_array pl (Uint256 pl) v"

definition Uint128_switch :: "pack_lib \<Rightarrow> go_value \<Rightarrow> bytes go_result option" where
  "Uint128_switch pl v =
     (case v of
        VBig n \<Rightarrow> Some (Returns (LeftPadBytes pl (big_Bytes n) 16))
      | VString s \<Rightarrow> Some (Returns (LeftPadBytes pl (big_Bytes (SetString pl s)) 16))
      | _ \<Rightarrow> None)"

definition Uint128 :: "pack_lib \<Rightarrow> go_value \<Rightarrow> bytes go_result" where
  "Uint128 pl v = packed (Uint128_switch pl) (\<lambda>bs. LeftPadBytes pl bs 32) (LeftPadBytes pl [] 16) v"

definition Uint128Array :: "pack_lib \<Rightarrow> go_value \<Rightarrow> bytes go_result" where
  "Uint128Array pl v = pad_array pl (Uint128 pl) v"

text \<open>
  The unsigned and the signed packing of up to 64 bits write the same bytes: a \<open>big.Int\<close> and a string
  go through \<open>Uint64\<close>, every Go integer is converted to the width, and both are written big-endian.
\<close>

definition fixed_switch :: "pack_lib \<Rightarrow> nat \<Rightarrow> go_value \<Rightarrow> bytes go_result option" where
  "fixed_switch pl n v =
     (case v of
        VBig x \<Rightarrow> Some (Returns (be_bytes n (unat (big_Uint64 x))))
      | VString s \<Rightarrow> Some (Returns (be_bytes n (unat (big_Uint64 (SetString pl s)))))
      | VInt k i \<Rightarrow> Some (Returns (be_bytes n (nat (i mod 2 ^ (8 * n)))))
      | _ \<Rightarrow> None)"

definition fixed :: "pack_lib \<Rightarrow> nat \<Rightarrow> go_value \<Rightarrow> bytes go_result" where
  "fixed pl n v = packed (fixed_switch pl n) (\<lambda>bs. LeftPadBytes pl bs 32) (be_bytes n 0) v"

definition Uint64 :: "pack_lib \<Rightarrow> go_value \<Rightarrow> bytes go_result" where "Uint64 pl v = fixed pl 8 v"
definition Uint64Array :: "pack_lib \<Rightarrow> go_value \<Rightarrow> bytes go_result" where "Uint64Array pl v = pad_array pl (Uint64 pl) v"
definition Uint32 :: "pack_lib \<Rightarrow> go_value \<Rightarrow> bytes go_result" where "Uint32 pl v = fixed pl 4 v"
definition Uint32Array :: "pack_lib \<Rightarrow> go_value \<Rightarrow> bytes go_result" where "Uint32Array pl v = pad_array pl (Uint32 pl) v"
definition Uint16 :: "pack_lib \<Rightarrow> go_value \<Rightarrow> bytes go_result" where "Uint16 pl v = fixed pl 2 v"
definition Uint16Array :: "pack_lib \<Rightarrow> go_value \<Rightarrow> bytes go_result" where "Uint16Array pl v = pad_array pl (Uint16 pl) v"
definition Uint8 :: "pack_lib \<Rightarrow> go_value \<Rightarrow> bytes go_result" where "Uint8 pl v = fixed pl 1 v"
definition Uint8Array :: "pack_lib \<Rightarrow> go_value \<Rightarrow> bytes go_result" where "Uint8Array pl v = pad_array pl (Uint8 pl) v"

text \<open>A Go integer becomes \<open>big.NewInt(int64(v))\<close>, whose bytes are those of its absolute value.\<close>

definition wide_switch :: "pack_lib \<Rightarrow> nat \<Rightarrow> go_value \<Rightarrow> bytes go_result option" where
  "wide_switch pl n v =
     (case v of
        VBig x \<Rightarrow> Some (Returns (LeftPadBytes pl (big_Bytes x) n))
      | VString s \<Rightarrow> Some (Returns (LeftPadBytes pl (big_Bytes (SetString pl s)) n))
      | VInt k i \<Rightarrow> Some (Returns (LeftPadBytes pl (big_Bytes (go_int64 i)) n))
      | _ \<Rightarrow> None)"

definition wide :: "pack_lib \<Rightarrow> nat \<Rightarrow> go_value \<Rightarrow> bytes go_result" where
  "wide pl n v = packed (wide_switch pl n) (\<lambda>bs. LeftPadBytes pl bs 32) (LeftPadBytes pl [] n) v"

definition Int256 :: "pack_lib \<Rightarrow> go_value \<Rightarrow> bytes go_result" where "Int256 pl v = wide pl 32 v"
definition Int256Array :: "pack_lib \<Rightarrow> go_value \<Rightarrow> bytes go_result" where "Int256Array pl v = pad_array pl (Int256 pl) v"
definition Int128 :: "pack_lib \<Rightarrow> go_value \<Rightarrow> bytes go_result" where "Int128 pl v = wide pl 16 v"
definition Int128Array :: "pack_lib \<Rightarrow> go_value \<Rightarrow> bytes go_result" where "Int128Array pl v = pad_array pl (Int128 pl) v"
definition Int64 :: "pack_lib \<Rightarrow> go_value \<Rightarrow> bytes go_result" where "Int64 pl v = fixed pl 8 v"
definition Int64Array :: "pack_lib \<Rightarrow> go_value \<Rightarrow> bytes go_result" where "Int64Array pl v = pad_array pl (Int64 pl) v"
definition Int32 :: "pack_lib \<Rightarrow> go_value \<Rightarrow> bytes go_result" where "Int32 pl v = fixed pl 4 v"
definition Int32Array :: "pack_lib \<Rightarrow> go_value \<Rightarrow> bytes go_result" where "Int32Array pl v = pad_array pl (Int32 pl) v"
definition Int16 :: "pack_lib \<Rightarrow> go_value \<Rightarrow> bytes go_result" where "Int16 pl v = fixed pl 2 v"
definition Int16Array :: "pack_lib \<Rightarrow> go_value \<Rightarrow> bytes go_result" where "Int16Array pl v = pad_array pl (Int16 pl) v"
definition Int8 :: "pack_lib \<Rightarrow> go_value \<Rightarrow> bytes go_result" where "Int8 pl v = fixed pl 1 v"
definition Int8Array :: "pack_lib \<Rightarrow> go_value \<Rightarrow> bytes go_result" where "Int8Array pl v = pad_array pl (Int8 pl) v"

definition isHex :: "string \<Rightarrow> bool" where
  "isHex s = HasPrefix s ''0x''"

definition Bytes32 :: "pack_lib \<Rightarrow> go_value \<Rightarrow> bytes" where
  "Bytes32 pl v =
     (case v of
        VFixed bs \<Rightarrow> if length bs = 32 then RightPadBytes pl bs 32 else RightPadBytes pl [] 32
      | VBytes bs \<Rightarrow> RightPadBytes pl bs 32
      | VString s \<Rightarrow>
          if isHex s then RightPadBytes pl (fst (hex_DecodeString (TrimPrefix s ''0x''))) 32
          else RightPadBytes pl (fst (hex_DecodeString (hex_EncodeToString (string_bytes s)))) 32
      | _ \<Rightarrow> RightPadBytes pl [] 32)"

definition Bytes16 :: "pack_lib \<Rightarrow> go_value \<Rightarrow> bytes" where
  "Bytes16 pl v =
     (case v of
        VFixed bs \<Rightarrow> if length bs = 16 then RightPadBytes pl bs 16 else RightPadBytes pl [] 16
      | VBytes bs \<Rightarrow> RightPadBytes pl bs 16
      | VString s \<Rightarrow> RightPadBytes pl (fst (hex_DecodeString (hex_EncodeToString (string_bytes s)))) 16
      | _ \<Rightarrow> RightPadBytes pl [] 16)"

definition String_switch :: "go_value \<Rightarrow> bytes go_result option" where
  "String_switch v =
     (case v of
        VBytes bs \<Rightarrow> Some (Returns bs)
      | VString s \<Rightarrow> Some (Returns (string_bytes s))
      | _ \<Rightarrow> None)"

definition sol_String :: "go_value \<Rightarrow> bytes go_result" where
  "sol_String v = packed String_switch (\<lambda>bs. bs) [] v"

definition StringArray :: "go_value \<Rightarrow> bytes go_result" where
  "StringArray v = collect (Returns []) (map sol_String (elems v))"

definition Bool_switch :: "go_value \<Rightarrow> bytes go_result option" where
  "Bool_switch v = (case v of VBool b \<Rightarrow> Some (Returns [if b then 1 else 0]) | _ \<Rightarrow> None)"

definition sol_Bool :: "pack_lib \<Rightarrow> go_value \<Rightarrow> bytes go_result" where
  "sol_Bool pl v = packed Bool_switch (\<lambda>bs. LeftPadBytes pl bs 32) [0] v"

definition BoolArray :: "pack_lib \<Rightarrow> go_value \<Rightarrow> bytes go_result" where
  "BoolArray pl v = pad_array pl (sol_Bool pl) v"

lemmas switch_defs = Address_switch_def Uint256_switch_def Uint128_switch_def fixed_switch_def wide_switch_def
  String_switch_def Bool_switch_def

lemmas pack_value_defs = sol_Address_def Uint256_def Uint128_def Uint64_def Uint32_def Uint16_def Uint8_def Int256_def
  Int128_def Int64_def Int32_def Int16_def Int8_def sol_String_def sol_Bool_def fixed_def wide_def

section \<open>Packing by type name\<close>

definition padZeros :: "pack_lib \<Rightarrow> bytes \<Rightarrow> nat \<Rightarrow> bytes" where
  "padZeros pl v width = LeftPadBytes pl v width"

definition concatByteSlices :: "bytes list \<Rightarrow> bytes" where
  "concatByteSlices arrays = foldl (@) [] arrays"

definition ConcatByteSlices :: "bytes list \<Rightarrow> bytes" where
  "ConcatByteSlices arrays = concatByteSlices arrays"

text \<open>What \<open>^(u?int)([0-9]*)$\<close>, \<open>^bytes([0-9]+)$\<close> and \<open>^(.*)\[([0-9]*)\]$\<close> match, as the submatches used.\<close>

definition match_number :: "string \<Rightarrow> string option" where
  "match_number typ =
     (let rest = (if HasPrefix typ ''uint'' then Some (drop 4 typ)
                  else if HasPrefix typ ''int'' then Some (drop 3 typ) else None)
      in case rest of Some ds \<Rightarrow> if list_all is_digit ds then Some ds else None | None \<Rightarrow> None)"

definition match_bytes :: "string \<Rightarrow> string option" where
  "match_bytes typ =
     (if HasPrefix typ ''bytes'' \<and> drop 5 typ \<noteq> [] \<and> list_all is_digit (drop 5 typ) then Some (drop 5 typ) else None)"

definition match_array :: "string \<Rightarrow> (string \<times> string) option" where
  "match_array typ =
     (case rev typ of
        c # rest \<Rightarrow>
          if c = CHR '']'' then
            (let ds = takeWhile is_digit rest; before = dropWhile is_digit rest
             in case before of
                  d # base \<Rightarrow> if d = CHR ''['' \<and> CHR 0x0A \<notin> set base then Some (rev base, rev ds) else None
                | [] \<Rightarrow> None)
          else None
      | [] \<Rightarrow> None)"

lemma match_array_smaller: "match_array typ = Some (base, ds) \<Longrightarrow> length base < length typ"
proof -
  have drop: "length base < length xs" if "dropWhile is_digit xs = d # base" for d base xs
    using length_dropWhile_le [of is_digit xs] that by simp
  assume "match_array typ = Some (base, ds)"
  then obtain c rest d b where "rev typ = c # rest" "dropWhile is_digit rest = d # b" "base = rev b"
    by (auto simp: match_array_def Let_def split: list.splits if_splits)
  with drop [of rest d b] arg_cong [of "rev typ" _ length] show ?thesis by simp
qed

definition pack_number :: "pack_lib \<Rightarrow> string \<Rightarrow> go_value \<Rightarrow> bytes go_result" where
  "pack_number pl typ v =
     (if HasPrefix typ ''int8'' then Int8 pl v
      else if HasPrefix typ ''int16'' then Int16 pl v
      else if HasPrefix typ ''int32'' then Int32 pl v
      else if HasPrefix typ ''int64'' then Int64 pl v
      else if HasPrefix typ ''int128'' then Int128 pl v
      else if HasPrefix typ ''int256'' then Int256 pl v
      else if HasPrefix typ ''uint8'' then Uint8 pl v
      else if HasPrefix typ ''uint16'' then Uint16 pl v
      else if HasPrefix typ ''uint32'' then Uint32 pl v
      else if HasPrefix typ ''uint128'' then Uint128 pl v
      else if HasPrefix typ ''uint64'' then Uint64 pl v
      else if HasPrefix typ ''uint256'' then Uint256 pl v
      else Returns [])"

text \<open>\<open>copy(z, b)\<close> into \<open>sz\<close> zero bytes.\<close>

definition copy_into :: "nat \<Rightarrow> bytes \<Rightarrow> bytes" where
  "copy_into sz bs = take sz bs @ replicate (sz - length bs) 0"

text \<open>
  The \<open>bytesN\<close> case. \<open>Bytes\<close> of \<open>reflect\<close> panics on a string and on a byte, so a string that is not
  hexadecimal panics, and so does every element of an array that is not a slice of byte slices.
\<close>

definition pack_bytes :: "nat \<Rightarrow> go_value \<Rightarrow> bool \<Rightarrow> bytes go_result" where
  "pack_bytes sz v in_array =
     (if in_array then
        (case v of VSlices (bs # _) \<Rightarrow> Returns (copy_into 64 bs) | _ \<Rightarrow> Panics ''reflect'')
      else
        case v of
          VString s \<Rightarrow>
            if isHex s then
              (let s1 = TrimPrefix s ''0x''; s2 = (if odd (length s1) then CHR ''0'' # s1 else s1)
               in case hex_DecodeString s2 of
                    (bs, None) \<Rightarrow> Returns (copy_into sz bs)
                  | (_, Some _) \<Rightarrow> Panics ''encoding/hex'')
            else Panics ''reflect''
        | VAddress a \<Rightarrow> Returns (copy_into sz (be_bytes 20 (unat a)))
        | VBytes bs \<Rightarrow> Returns (copy_into sz bs)
        | VFixed bs \<Rightarrow> Returns (copy_into sz bs)
        | VList vs \<Rightarrow>
            if list_all (\<lambda>x. case x of VInt U8 _ \<Rightarrow> True | _ \<Rightarrow> False) vs
            then Returns (copy_into sz (map (\<lambda>x. case x of VInt _ i \<Rightarrow> word_of_int i | _ \<Rightarrow> 0) vs))
            else Panics ''interface conversion''
        | VStrings ss \<Rightarrow> if ss = [] then Returns (copy_into sz []) else Panics ''interface conversion''
        | VSlices bss \<Rightarrow> if bss = [] then Returns (copy_into sz []) else Panics ''interface conversion''
        | _ \<Rightarrow> Panics ''reflect'')"

function pack :: "pack_lib \<Rightarrow> string \<Rightarrow> go_value \<Rightarrow> bool \<Rightarrow> bytes go_result" where
  "pack pl typ v in_array =
     (let pad32 = (\<lambda>r. if in_array then go_bind r (\<lambda>bs. Returns (padZeros pl bs 32)) else r)
      in if typ = ''address'' then pad32 (sol_Address pl v)
         else if typ = ''string'' then sol_String v
         else if typ = ''bool'' then pad32 (sol_Bool pl v)
         else case match_number typ of
           Some ds \<Rightarrow>
             go_bind (Atoi ds) (\<lambda>sz.
               if sz mod 8 \<noteq> 0 \<or> sz = 0 \<or> sz > 256 then Panics (''invalid number type '' @ typ)
               else go_bind (pack_number pl typ v)
                      (\<lambda>bs. Returns (padZeros pl bs ((if in_array then 256 else sz) div 8))))
         | None \<Rightarrow>
         (case match_bytes typ of
            Some ds \<Rightarrow>
              go_bind (Atoi ds) (\<lambda>sz.
                if decimal_nat sz \<noteq> ds \<or> sz = 0 \<or> sz > 32 then Panics (''invalid number type '' @ typ)
                else pack_bytes sz v in_array)
          | None \<Rightarrow>
         (case match_array typ of
            Some (base, ds) \<Rightarrow>
              go_bind (isArray v) (\<lambda>arr.
                if \<not> arr then Returns []
                else go_bind (if ds = [] then Returns (length (elems v)) else Atoi ds) (\<lambda>count.
                  if count \<noteq> length (elems v) then Panics (''invalid value for '' @ typ)
                  else collect (Returns []) (map (\<lambda>x. pack pl base x True) (elems v))))
          | None \<Rightarrow> Returns [])))"
  by pat_completeness auto

termination
  by (relation "measure (\<lambda>(_, typ, _, _). length typ)") (auto simp: match_array_smaller)

declare pack.simps [simp del]

fun pack_each :: "pack_lib \<Rightarrow> string list \<Rightarrow> go_value list \<Rightarrow> bytes list go_result" where
  "pack_each pl [] vs = Returns []"
| "pack_each pl (t # ts) [] = Panics ''index out of range''"
| "pack_each pl (t # ts) (v # vs) =
     go_bind (pack pl t v False) (\<lambda>b. go_bind (pack_each pl ts vs) (\<lambda>bs. Returns (b # bs)))"

definition Pack :: "pack_lib \<Rightarrow> string list \<Rightarrow> go_value list \<Rightarrow> bytes go_result" where
  "Pack pl types vals =
     (if length types \<noteq> length vals then Panics ''type/value count mismatch''
      else go_bind (pack_each pl types vals) (\<lambda>tight. Returns (concatByteSlices tight)))"

section \<open>Hashing\<close>

definition solsha3 :: "pack_lib \<Rightarrow> string list \<Rightarrow> go_value list \<Rightarrow> bytes go_result" where
  "solsha3 pl types vals = go_bind (pack_each pl types vals) (\<lambda>b. Returns (Keccak256 pl (concatByteSlices b)))"

definition solsha3Legacy :: "pack_lib \<Rightarrow> bytes list \<Rightarrow> bytes" where
  "solsha3Legacy pl data_list = Keccak256 pl (concatByteSlices data_list)"

fun byte_slices :: "go_value list \<Rightarrow> bytes list go_result" where
  "byte_slices [] = Returns []"
| "byte_slices (VBytes b # vs) = go_bind (byte_slices vs) (\<lambda>bs. Returns (b # bs))"
| "byte_slices (_ # vs) = Panics ''interface conversion''"

definition SoliditySHA3 :: "pack_lib \<Rightarrow> go_value list \<Rightarrow> bytes go_result" where
  "SoliditySHA3 pl args =
     (let legacy = go_bind (byte_slices args) (\<lambda>v. Returns (solsha3Legacy pl v))
      in case args of
           [] \<Rightarrow> Panics ''index out of range''
         | VStrings types # a # rest \<Rightarrow>
             if length (a # rest) = length types then solsha3 pl types (a # rest)
             else (case a of VList iface \<Rightarrow> solsha3 pl types iface | _ \<Rightarrow> legacy)
         | _ \<Rightarrow> legacy)"

definition SoliditySHA3WithPrefix :: "pack_lib \<Rightarrow> bytes \<Rightarrow> bytes go_result" where
  "SoliditySHA3WithPrefix pl dat =
     SoliditySHA3 pl [VBytes (concatByteSlices
       [string_bytes ([CHR 0x19] @ ''Ethereum Signed Message:'' @ [CHR 0x0A] @ decimal_nat (length dat)), dat])]"

section \<open>Numbers and their bytes\<close>

text \<open>The documented behaviour of the padding functions and of the reduction to 256 bits.\<close>

definition pack_lib_ok :: "pack_lib \<Rightarrow> bool" where
  "pack_lib_ok pl \<longleftrightarrow>
     (\<forall>bs n. LeftPadBytes pl bs n = replicate (n - length bs) 0 @ bs) \<and>
     (\<forall>bs n. RightPadBytes pl bs n = bs @ replicate (n - length bs) 0) \<and>
     (\<forall>x. U256Bytes pl x = be_bytes 32 (nat (x mod 2 ^ 256)))"

lemma pack_lib_okD:
  assumes "pack_lib_ok pl"
  shows "LeftPadBytes pl bs n = replicate (n - length bs) 0 @ bs" "RightPadBytes pl bs n = bs @ replicate (n - length bs) 0"
    "U256Bytes pl x = be_bytes 32 (nat (x mod 2 ^ 256))"
  using assms by (auto simp: pack_lib_ok_def)

lemma be_bytes_0: "be_bytes k 0 = replicate k 0"
  by (induction k) (simp_all add: replicate_append_same)

lemma be_bytes_pad: "n < 256 ^ k \<Longrightarrow> replicate (k - length (nat_bytes n)) 0 @ nat_bytes n = be_bytes k n"
proof (induction k arbitrary: n)
  case 0
  then show ?case by (simp add: nat_bytes.simps)
next
  case (Suc k)
  show ?case
  proof (cases "n = 0")
    case True
    then show ?thesis by (simp add: nat_bytes.simps be_bytes_0 replicate_append_same)
  next
    case False
    have "n div 256 < 256 ^ k" using Suc.prems by (simp add: less_mult_imp_div_less mult.commute)
    from Suc.IH [OF this] False show ?thesis by (simp add: nat_bytes.simps [of n])
  qed
qed

lemma LeftPad_be_bytes:
  assumes "pack_lib_ok pl" "k \<le> n" shows "LeftPadBytes pl (be_bytes k x) n = replicate (n - k) 0 @ be_bytes k x"
  using assms by (simp add: pack_lib_okD)

lemma LeftPad_same:
  assumes "pack_lib_ok pl" "length bs = n" shows "LeftPadBytes pl bs n = bs"
  using assms by (simp add: pack_lib_okD)

lemma SetString_decimal [simp]: "SetString pl (decimal_nat n) = int n"
proof -
  obtain c cs where ds: "decimal_nat n = c # cs" using decimal_digits [of n] by (cases "decimal_nat n") auto
  then have "is_digit c" using decimal_digits [of n] by simp
  then have "c \<noteq> CHR ''-'' \<and> c \<noteq> CHR ''+''" by (auto simp: is_digit_def)
  with ds decimal_digits [of n] show ?thesis by (simp add: SetString_def)
qed

text \<open>A number is given as a \<open>*big.Int\<close> or as decimal text.\<close>

definition number_value :: "nat \<Rightarrow> go_value \<Rightarrow> bool" where
  "number_value n v \<longleftrightarrow> v = VBig (int n) \<or> v = VString (decimal_nat n)"

lemma unat_small: "n < 2 ^ 64 \<Longrightarrow> unat (word_of_nat n :: uint64) = n"
  by (simp add: unat_of_nat)

lemma fixed_number: "number_value n v \<Longrightarrow> n < 2 ^ 64 \<Longrightarrow> fixed pl k v = Returns (be_bytes k n)"
  by (auto simp: number_value_def fixed_def packed.simps fixed_switch_def big_Uint64_def unat_small)

lemma Uint128_number: "pack_lib_ok pl \<Longrightarrow> number_value n v \<Longrightarrow> n < 2 ^ 128 \<Longrightarrow> Uint128 pl v = Returns (be_bytes 16 n)"
  by (auto simp: number_value_def Uint128_def packed.simps Uint128_switch_def big_Bytes_def pack_lib_okD(1) be_bytes_pad
      simp del: be_bytes.simps)

lemma Uint256_number: "pack_lib_ok pl \<Longrightarrow> number_value n v \<Longrightarrow> n < 2 ^ 256 \<Longrightarrow> Uint256 pl v = Returns (be_bytes 32 n)"
  by (auto simp: number_value_def Uint256_def packed.simps Uint256_switch_def pack_lib_okD(3) nat_mod_distrib
      simp del: be_bytes.simps)

section \<open>The Solidity types\<close>

definition uint_type :: "nat \<Rightarrow> string" where
  "uint_type N = ''uint'' @ decimal_nat N"

lemma number_types:
  "match_number (uint_type N) = Some (decimal_nat N)" "uint_type N \<notin> {''address'', ''string'', ''bool''}"
  "N < 2 ^ 63 \<Longrightarrow> Atoi (decimal_nat N) = Returns N"
  using decimal_digits [of N] by (simp_all add: uint_type_def match_number_def HasPrefix_def Atoi_def)

lemma pack_number_type:
  assumes "N \<in> {8, 16, 32, 64, 128, 256}"
  shows "pack pl (uint_type N) v False =
     go_bind (pack_number pl (uint_type N) v) (\<lambda>bs. Returns (LeftPadBytes pl bs (N div 8)))"
proof -
  have "N < 2 ^ 63" using assms by auto
  with assms number_types [of N] show ?thesis by (subst pack.simps) (auto simp: padZeros_def Let_def)
qed

lemma pack_number_of:
  "pack_number pl (uint_type 8) = Uint8 pl" "pack_number pl (uint_type 16) = Uint16 pl"
  "pack_number pl (uint_type 32) = Uint32 pl" "pack_number pl (uint_type 64) = Uint64 pl"
  "pack_number pl (uint_type 128) = Uint128 pl" "pack_number pl (uint_type 256) = Uint256 pl"
  by (simp_all add: fun_eq_iff uint_type_def pack_number_def HasPrefix_def decimal_nat_def digits_in.simps digit_char_def)

text \<open>
  C36: an unsigned number that fits its type is packed to exactly the bytes of the type, big-endian,
  whether it comes as a number or as decimal text, and reads back unchanged.
\<close>

theorem pack_uint_roundtrip:
  assumes "pack_lib_ok pl" "N \<in> {8, 16, 32, 64, 128, 256}" "number_value n v" "n < 2 ^ N"
  shows "\<exists>bs. pack pl (uint_type N) v False = Returns bs \<and> length bs = N div 8 \<and> big_of_bytes bs = n"
proof -
  have small: "n < 2 ^ 64" if "N \<le> 64"
    using assms(4) power_increasing [OF that, of "2 :: nat"] by simp
  have "pack_number pl (uint_type N) v = Returns (be_bytes (N div 8) n)"
    using assms small by (auto simp: pack_number_of Uint8_def Uint16_def Uint32_def Uint64_def fixed_number Uint128_number Uint256_number
        simp del: be_bytes.simps)
  moreover have "(2 :: nat) ^ N = 256 ^ (N div 8)" using assms(2) by auto
  ultimately show ?thesis
    using assms(4) pack_number_type [OF assms(2), of pl v] LeftPad_same [OF assms(1), of "be_bytes (N div 8) n" "N div 8"]
    by (simp add: big_of_be_bytes)
qed

definition sample_pack_lib :: pack_lib where
  "sample_pack_lib =
     \<lparr>LeftPadBytes = (\<lambda>bs n. replicate (n - length bs) 0 @ bs), RightPadBytes = (\<lambda>bs n. bs @ replicate (n - length bs) 0),
      U256Bytes = (\<lambda>x. be_bytes 32 (nat (x mod 2 ^ 256))), Keccak256 = (\<lambda>bs. bs), failed_SetString = (\<lambda>_. 0)\<rparr>"

lemma sample_pack_lib_ok: "pack_lib_ok sample_pack_lib"
  by (simp add: pack_lib_ok_def sample_pack_lib_def del: be_bytes.simps)

theorem pack_uint_roundtrip_witness:
  "\<exists>bs. pack sample_pack_lib (uint_type 16) (VBig 515) False = Returns bs \<and> length bs = 2 \<and> big_of_bytes bs = 515"
  using pack_uint_roundtrip [OF sample_pack_lib_ok, of 16 515 "VBig 515"] by (simp add: number_value_def)

text \<open>
  A Go integer is not a number for the types of 128 and 256 bits. Whatever integer of whatever Go
  type is given for them, the packing succeeds and is all zeros.
\<close>

theorem wide_uint_drops_go_integers:
  assumes "pack_lib_ok pl"
  shows "pack pl ''uint256'' (VInt k i) False = Returns (replicate 32 0) \<and>
     pack pl ''uint128'' (VInt k i) False = Returns (replicate 16 0)"
proof -
  have names: "''uint256'' = uint_type 256" "''uint128'' = uint_type 128"
    by (simp_all add: uint_type_def decimal_nat_def digits_in.simps digit_char_def)
  show ?thesis
    unfolding names
    using pack_number_type [of 256 pl "VInt k i"] pack_number_type [of 128 pl "VInt k i"] assms
    by (simp add: pack_number_of Uint256_def Uint128_def packed.simps Uint256_switch_def Uint128_switch_def isArray_def pack_lib_okD)
qed

theorem wide_uint_drops_go_integers_witness:
  "pack sample_pack_lib ''uint256'' (VInt U64 7) False = Returns (replicate 32 0)"
  using wide_uint_drops_go_integers [OF sample_pack_lib_ok, of U64 7] by blast

text \<open>
  One type with its value in a list is not read as the list of one value: the list is the value, and
  the hash is over its array packing of 32 bytes instead of the tight packing.
\<close>

lemma single_value_hashed_as_array:
  assumes "pack_lib_ok pl" "n < 2 ^ 64"
  shows "SoliditySHA3 pl [VStrings [''uint64''], VList [VBig (int n)]] = Returns (Keccak256 pl (be_bytes 32 n)) \<and>
     Pack pl [''uint64''] [VBig (int n)] = Returns (be_bytes 8 n)"
proof -
  have name: "''uint64'' = uint_type 64" by (simp add: uint_type_def decimal_nat_def digits_in.simps digit_char_def)
  have wide: "replicate 24 0 @ be_bytes 8 n = be_bytes 32 n"
  proof -
    have lt: "n < 256 ^ 8" "n < 256 ^ 32" using assms(2) by simp_all
    then have len: "length (nat_bytes n) \<le> 8"
      using be_bytes_pad [OF lt(1)] length_be_bytes [of 8 n] by (metis length_append le_add2)
    then have "replicate 24 0 @ replicate (8 - length (nat_bytes n)) 0 = (replicate (32 - length (nat_bytes n)) 0 :: bytes)"
      by (simp add: replicate_add [symmetric])
    with be_bytes_pad [OF lt(1)] be_bytes_pad [OF lt(2)] show ?thesis by (metis append.assoc)
  qed
  have one: "Uint64 pl (VBig (int n)) = Returns (be_bytes 8 n)"
    using fixed_number [of n "VBig (int n)" pl 8] assms(2) by (simp add: Uint64_def number_value_def)
  have many: "Uint64 pl (VList [VBig (int n)]) = Returns (be_bytes 32 n)"
    using one wide unfolding Uint64_def fixed_def
    by (subst packed.simps) (simp add: fixed_switch_def isArray_def elems_def LeftPad_be_bytes [OF assms(1)] del: be_bytes.simps)
  show ?thesis
    using pack_number_type [of 64 pl, folded name] one many
    by (simp add: SoliditySHA3_def solsha3_def Pack_def pack_number_of(4) [folded name] concatByteSlices_def
        LeftPad_same [OF assms(1)] pack_lib_okD [OF assms(1)] del: be_bytes.simps)
qed

end
