(* ===== verification/Signing.thy ===== *)
theory Signing
  imports Sha3
begin

text \<open>
  The signing half of \<open>service/transaction.go\<close>: the message hash of a metatx, its Ethereum signature
  and the composition of both. \<open>log.Fatal\<close> ends the process and is a panic here. The curve and the
  rendering of addresses are functions of a record.
\<close>

record sign_lib = pack_lib +
  key_of_hex :: "string \<Rightarrow> go_error + nat"
  key_is_ECDSA :: "nat \<Rightarrow> bool"
  crypto_Sign :: "bytes \<Rightarrow> nat \<Rightarrow> go_error + bytes"
  sign_Hex :: "Address \<Rightarrow> string"

section \<open>The message hash\<close>

definition Hash :: "sign_lib \<Rightarrow> string \<Rightarrow> Address option \<Rightarrow> bytes \<Rightarrow> string \<Rightarrow> string \<Rightarrow> bytes go_result" where
  "Hash lib from to encodedFunction gasLimit nonce =
     (case to of
        Some a \<Rightarrow>
          SoliditySHA3 (pack_lib.truncate lib)
            [VStrings [''address'', ''address'', ''bytes32'', ''uint256'', ''uint256''],
             VList [VString from, VString (sign_Hex lib a), VBytes encodedFunction, VString gasLimit, VString nonce]]
      | None \<Rightarrow>
          SoliditySHA3 (pack_lib.truncate lib)
            [VStrings [''address'', ''bytes32'', ''uint256'', ''uint256''],
             VList [VString from, VBytes encodedFunction, VString gasLimit, VString nonce]])"

section \<open>The signature\<close>

definition Sign :: "sign_lib \<Rightarrow> bytes \<Rightarrow> nat \<Rightarrow> (go_error + bytes) go_result" where
  "Sign lib hash privateKey =
     (case crypto_Sign lib hash privateKey of
        Inl e \<Rightarrow> Panics (err_text e)
      | Inr signature \<Rightarrow>
          if length signature \<noteq> 65 then Returns (Inl (errors_New ''signature malformed'' (- 32010)))
          else if hex_EncodeToString (take 1 (drop 64 signature)) = ''00''
               then Returns (Inr (signature[64 := hd (fst (hex_DecodeString ''1b''))]))
          else if hex_EncodeToString (take 1 (drop 64 signature)) = ''01''
               then Returns (Inr (signature[64 := hd (fst (hex_DecodeString ''1c''))]))
          else Returns (Inl (errors_New ''bad V parameter'' (- 32011))))"

definition SignPayload :: "sign_lib \<Rightarrow> string \<Rightarrow> string \<Rightarrow> Address option \<Rightarrow> bytes \<Rightarrow> uint64 \<Rightarrow> uint64 \<Rightarrow> (go_error + bytes) go_result" where
  "SignPayload lib privKey signingAddr destinationAddress encodedFunction gasLimit nonce =
     go_bind (Hash lib signingAddr destinationAddress (Keccak256 lib encodedFunction) (decimal_nat (unat gasLimit)) (decimal_nat (unat nonce)))
       (\<lambda>hash.
         case key_of_hex lib privKey of
           Inl _ \<Rightarrow> Panics ''nil pointer dereference''
         | Inr privateKey \<Rightarrow>
             if \<not> key_is_ECDSA lib privateKey then Panics ''error casting public key to ECDSA''
             else go_bind
               (SoliditySHA3 (pack_lib.truncate lib)
                  [VBytes (string_bytes ([CHR 0x19] @ ''Ethereum Signed Message:'' @ [CHR 0x0A] @ ''32'')),
                   VBytes (Bytes32 (pack_lib.truncate lib) (VBytes hash))])
               (\<lambda>hash2. go_bind (Sign lib hash2 privateKey)
                 (\<lambda>r. case r of Inl e \<Rightarrow> Panics (err_text e) | Inr sig \<Rightarrow> Returns (Inr sig))))"

section \<open>What is signed\<close>

text \<open>A hexadecimal address text: after the prefix, the digits of twenty bytes.\<close>

definition address_text :: "string \<Rightarrow> bytes \<Rightarrow> bool" where
  "address_text s bs \<longleftrightarrow> (\<exists>h. s = ''0x'' @ h \<and> length h = 40 \<and> hex_DecodeString h = (bs, None))"

lemma pack_address:
  assumes "address_text s bs" shows "pack pl ''address'' (VString s) False = Returns bs"
proof -
  obtain h where h: "s = ''0x'' @ h" "length h = 40" "hex_DecodeString h = (bs, None)"
    using assms by (auto simp: address_text_def)
  then have "h \<noteq> []" "h \<noteq> ''0''" by auto
  moreover have "TrimPrefix s ''0x'' = h" unfolding h(1) by (rule TrimPrefix_append)
  ultimately show ?thesis
    using h(2,3) by (subst pack.simps) (simp add: sol_Address_def packed.simps Address_switch_def)
qed

lemma decimal_32: "decimal_nat 32 = ''32''" "decimal_nat 256 = ''256''"
  by (simp_all add: decimal_nat_def digits_in.simps digit_char_def)

lemma pack_bytes32: "length bs = 32 \<Longrightarrow> pack pl ''bytes32'' (VBytes bs) False = Returns bs"
  using number_types(3) [of 32] decimal_digits [of 32]
  by (subst pack.simps)
    (simp add: match_number_def match_bytes_def HasPrefix_def decimal_32 pack_bytes_def copy_into_def)

lemma pack_uint256:
  assumes "pack_lib_ok pl" "n < 2 ^ 256" shows "pack pl ''uint256'' (VString (decimal_nat n)) False = Returns (be_bytes 32 n)"
proof -
  have name: "''uint256'' = uint_type 256" by (simp add: uint_type_def decimal_32)
  show ?thesis
    unfolding name
    using pack_number_type [of 256 pl] Uint256_number [OF assms(1) _ assms(2)] LeftPad_same [OF assms(1), of "be_bytes 32 n" 32]
    by (simp add: pack_number_of number_value_def del: be_bytes.simps)
qed

lemma Keccak256_truncate: "Keccak256 (pack_lib.truncate lib) = Keccak256 lib"
  by (simp add: pack_lib.defs)

text \<open>
  C35: the message hash is the hash of the tight packing. For a sender and a destination written as
  twenty hexadecimal bytes, a hash of 32 bytes and any gas limit and nonce of 256 bits, \<open>Hash\<close> does not
  panic and hashes exactly the concatenation of the fields, the destination left out for a deployment.
\<close>

theorem Hash_is_tight_packing:
  assumes "pack_lib_ok (pack_lib.truncate lib)" "address_text from f"
    "\<forall>a. to = Some a \<longrightarrow> address_text (sign_Hex lib a) (be_bytes 20 (unat a))"
    "length body = 32" "g < 2 ^ 256" "n < 2 ^ 256"
  shows "Hash lib from to body (decimal_nat g) (decimal_nat n) =
     Returns (Keccak256 lib (f @ (case to of None \<Rightarrow> [] | Some a \<Rightarrow> be_bytes 20 (unat a)) @ body @ be_bytes 32 g @ be_bytes 32 n))"
  using assms(3)
  by (cases to)
    (simp_all add: Hash_def SoliditySHA3_def solsha3_def pack_address [OF assms(2)] pack_address pack_bytes32 [OF assms(4)]
      pack_uint256 [OF assms(1,5)] pack_uint256 [OF assms(1,6)] concatByteSlices_def Keccak256_truncate del: be_bytes.simps)

text \<open>
  A signature that is handed out has 65 bytes, the first 64 as the curve gave them, and ends in 27
  or 28 where the curve's recovery bit was 0 or 1.
\<close>

theorem Sign_recovery_byte:
  assumes "Sign lib hash key = Returns (Inr sig)"
  shows "\<exists>raw. crypto_Sign lib hash key = Inr raw \<and> length sig = 65 \<and> take 64 sig = take 64 raw \<and>
     (raw ! 64 = 0 \<and> sig ! 64 = 27 \<or> raw ! 64 = 1 \<and> sig ! 64 = 28)"
proof -
  have digits: "hd (fst (hex_DecodeString ''1b'')) = 27" "hd (fst (hex_DecodeString ''1c'')) = 28" by code_simp+
  have hex: "b = w" if "hex_EncodeToString [b] = hex_EncodeToString [w]" for b w
    using arg_cong [OF that, of "fst \<circ> hex_DecodeString"] unfolding o_apply hex_Decode_Encode by simp
  have zero_one: "''00'' = hex_EncodeToString [0 :: byte]" "''01'' = hex_EncodeToString [1 :: byte]" by code_simp+
  obtain raw where sign: "crypto_Sign lib hash key = Inr raw"
    using assms by (cases "crypto_Sign lib hash key") (simp_all add: Sign_def)
  moreover from this have "length raw = 65"
    by (rule contrapos_pp) (use assms in \<open>auto simp: Sign_def\<close>)
  ultimately have raw: "crypto_Sign lib hash key = Inr raw" "length raw = 65" .
  then have last_byte: "take 1 (drop 64 raw) = [raw ! 64]"
    using Cons_nth_drop_Suc [of 64 raw] by simp
  consider "hex_EncodeToString [raw ! 64] = ''00''" "sig = raw[64 := 27]" | "hex_EncodeToString [raw ! 64] = ''01''" "sig = raw[64 := 28]"
    using assms raw last_byte digits
    by (cases "hex_EncodeToString [raw ! 64] = ''00''"; cases "hex_EncodeToString [raw ! 64] = ''01''") (simp_all add: Sign_def)
  then show ?thesis
  proof cases
    case 1
    with raw hex [of "raw ! 64" 0] show ?thesis by (simp add: zero_one)
  next
    case 2
    with raw hex [of "raw ! 64" 1] show ?thesis by (simp add: zero_one)
  qed
qed

definition sample_sign_lib :: sign_lib where
  "sample_sign_lib = pack_lib.extend sample_pack_lib
     \<lparr>key_of_hex = (\<lambda>_. Inr 1), key_is_ECDSA = (\<lambda>_. True), crypto_Sign = (\<lambda>_ _. Inr (replicate 64 7 @ [1])),
      sign_Hex = (\<lambda>a. ''0x'' @ hex_EncodeToString (be_bytes 20 (unat a)))\<rparr>"

theorem Hash_is_tight_packing_witness:
  "Hash sample_sign_lib (''0x'' @ hex_EncodeToString (replicate 20 5)) None (replicate 32 6) (decimal_nat 9) (decimal_nat 3) =
     Returns (replicate 20 5 @ replicate 32 6 @ be_bytes 32 9 @ be_bytes 32 3)"
proof -
  have "pack_lib.truncate sample_sign_lib = sample_pack_lib" "Keccak256 sample_sign_lib = (\<lambda>bs. bs)"
    by (simp_all add: sample_sign_lib_def sample_pack_lib_def pack_lib.defs)
  moreover have "address_text (''0x'' @ hex_EncodeToString (replicate 20 5)) (replicate 20 5)"
    by (simp add: address_text_def hex_Decode_Encode)
  ultimately show ?thesis
    using Hash_is_tight_packing [of sample_sign_lib "''0x'' @ hex_EncodeToString (replicate 20 5)" "replicate 20 5" None
        "replicate 32 6" 9 3] sample_pack_lib_ok by (simp del: be_bytes.simps)
qed

theorem Sign_recovery_byte_witness:
  "\<exists>sig. Sign sample_sign_lib [] 1 = Returns (Inr sig) \<and> length sig = 65 \<and> sig ! 64 = 28"
proof -
  have "hex_EncodeToString [1 :: byte] = ''01''" by code_simp
  then obtain sig where sig: "Sign sample_sign_lib [] 1 = Returns (Inr sig)"
    by (auto simp: Sign_def sample_sign_lib_def pack_lib.defs)
  have raw: "crypto_Sign sample_sign_lib [] 1 = Inr (replicate 64 7 @ [1])" "(replicate 64 7 @ [1]) ! 64 = (1 :: byte)"
    by (simp_all add: sample_sign_lib_def pack_lib.defs nth_append)
  from Sign_recovery_byte [OF sig] raw have "length sig = 65 \<and> sig ! 64 = 28" by (simp del: append_replicate_commute)
  with sig show ?thesis by blast
qed

end
