(* ===== verification/Client.thy ===== *)
theory Client
  imports Errors
begin

text \<open>
  \<open>blockchain/client.go\<close>: the connection to the node and every call the service makes through it. What
  \<open>ethclient\<close>, the ABI package and the generated bindings of the contracts answer are functions of a
  record; the model is what the client adds to them: which call is made with which arguments, and how
  each failure is wrapped with its type, its message and its code.
\<close>

section \<open>The libraries\<close>

record TransactOpts =
  opt_From :: Address
  opt_Nonce :: int
  opt_Value :: int
  opt_GasLimit :: uint64
  opt_GasPrice :: int

record sent_tx =
  sent_Hash :: Hash
  sent_Nonce :: uint64

record plain_tx =
  plain_nonce :: uint64
  plain_to :: Address
  plain_amount :: nat
  plain_gas :: uint64
  plain_gasPrice :: nat
  plain_data :: bytes

record eth_header =
  header_number :: nat

record eth_receipt =
  PostState :: bytes
  receipt_status :: uint64
  receipt_block :: nat

record chain_lib = errors_lib +
  Dial :: "string \<Rightarrow> error_value option"
  key_Address :: "nat \<Rightarrow> Address"
  addr_text :: "Address \<Rightarrow> string"
  addr_Hex :: "Address \<Rightarrow> string"
  hash_Hex :: "Hash \<Rightarrow> string"
  PendingNonceAt :: "Address \<Rightarrow> error_value + uint64"
  NonceAt :: "Address \<Rightarrow> error_value + uint64"
  TransactionReceipt :: "Hash \<Rightarrow> error_value + eth_receipt option"
  HeaderByNumber :: "nat \<Rightarrow> error_value + eth_header"
  eth_ChainID :: "error_value + nat"
  BalanceAt :: "Address \<Rightarrow> error_value + nat"
  CodeAt :: "Address \<Rightarrow> error_value + bytes"
  NewRelay :: "Address \<Rightarrow> error_value option"
  NewAccount :: "Address \<Rightarrow> error_value option"
  hub_RelayMetaTx :: "Address \<Rightarrow> TransactOpts \<Rightarrow> nat \<Rightarrow> bytes \<Rightarrow> byte \<Rightarrow> bytes \<Rightarrow> bytes \<Rightarrow> error_value + sent_tx"
  hub_DeployMetaTx :: "Address \<Rightarrow> TransactOpts \<Rightarrow> nat \<Rightarrow> bytes \<Rightarrow> byte \<Rightarrow> bytes \<Rightarrow> bytes \<Rightarrow> error_value + sent_tx"
  hub_IncreaseGasUsed :: "Address \<Rightarrow> TransactOpts \<Rightarrow> nat \<Rightarrow> error_value + sent_tx"
  hub_GetNonce :: "Address \<Rightarrow> Address \<Rightarrow> Address \<Rightarrow> error_value + nat"
  hub_GetGasLimit :: "Address \<Rightarrow> Address \<Rightarrow> error_value + nat"
  hub_GetMaxGasBlockLimit :: "Address \<Rightarrow> error_value + nat"
  hub_GetNodeGasLimit :: "Address \<Rightarrow> Address \<Rightarrow> error_value + nat"
  hub_GetCurrentGasLimit :: "Address \<Rightarrow> error_value + nat"
  rules_AccountPermitted :: "Address \<Rightarrow> Address \<Rightarrow> error_value + bool"
  ingress_getContractAddress :: "Address \<Rightarrow> bytes \<Rightarrow> error_value + Address"
  abi_JSON_relay :: "error_value option"
  abi_JSON_ingress :: "error_value option"
  abi_Pack :: "string \<Rightarrow> bytes \<Rightarrow> byte \<Rightarrow> bytes \<Rightarrow> bytes \<Rightarrow> error_value + bytes"

abbreviation errs :: "('a) chain_lib_scheme \<Rightarrow> errors_lib" where
  "errs lib \<equiv> errors_lib.truncate lib"

section \<open>Wrapping a failure\<close>

definition wrap_error :: "errors_lib \<Rightarrow> ErrorType \<Rightarrow> error_value \<Rightarrow> string \<Rightarrow> error_value" where
  "wrap_error lib t e msg = type_Wrapf lib t (Some e) msg (- 32603) []"

fun wrapped :: "errors_lib \<Rightarrow> ErrorType \<Rightarrow> string \<Rightarrow> error_value + 'a \<Rightarrow> error_value + 'a" where
  "wrapped lib t msg (Inl e) = Inl (wrap_error lib t e msg)"
| "wrapped lib t msg (Inr x) = Inr x"

text \<open>Instantiating a contract before calling it, which most operations start with.\<close>

definition with_contract :: "errors_lib \<Rightarrow> error_value option \<Rightarrow> string \<Rightarrow> error_value + 'a \<Rightarrow> error_value + 'a" where
  "with_contract lib instanced place call =
     (case instanced of
        Some e \<Rightarrow> Inl (wrap_error lib FailedContract e (''can't instance RelayHub contract '' @ place))
      | None \<Rightarrow> call)"

section \<open>The connection\<close>

definition relayMetaTxMethod :: string where "relayMetaTxMethod = ''relayMetaTx''"
definition deployMetaTxMethod :: string where "deployMetaTxMethod = ''deployMetaTx''"

text \<open>The wrapped \<open>ethclient\<close> is the node it is connected to, or nil.\<close>

record Client =
  client :: "string option"

definition GetEthclient :: "Client \<Rightarrow> string option" where "GetEthclient ec = client ec"

definition Connect_client :: "chain_lib \<Rightarrow> string \<Rightarrow> Client \<Rightarrow> error_value option \<times> Client" where
  "Connect_client lib nodeURL ec =
     (case Dial lib nodeURL of
        Some e \<Rightarrow> (Some (type_Wrapf (errs lib) FailedConnection (Some e) (''Can't connect to node '' @ nodeURL) (- 32100) []), ec)
      | None \<Rightarrow> (None, ec\<lparr>client := Some nodeURL\<rparr>))"

definition Close_client :: "Client \<Rightarrow> Client go_result" where
  "Close_client ec = (case client ec of None \<Rightarrow> Panics ''nil pointer dereference'' | Some _ \<Rightarrow> Returns ec)"

section \<open>Sending\<close>

definition ConfigTransaction_client :: "chain_lib \<Rightarrow> nat \<Rightarrow> uint64 \<Rightarrow> bool \<Rightarrow> error_value + TransactOpts" where
  "ConfigTransaction_client lib key gasLimit pend =
     (let from = key_Address lib key;
          asked = (if pend
            then (case PendingNonceAt lib from of
                    Inl e \<Rightarrow> Inl (type_Wrapf (errs lib) FailedConfigTransaction (Some e) (''can't get pending nonce for:'' @ addr_text lib from) (- 32603) [])
                  | Inr n \<Rightarrow> Inr n)
            else (case NonceAt lib from of
                    Inl e \<Rightarrow> Inl (type_Wrapf (errs lib) FailedConfigTransaction (Some e) (''can't get latest nonce for:'' @ addr_text lib from) (- 32604) [])
                  | Inr n \<Rightarrow> Inr n))
      in case asked of
           Inl e \<Rightarrow> Inl e
         | Inr n \<Rightarrow> Inr \<lparr>opt_From = from, opt_Nonce = int64_of_uint64 n, opt_Value = 0, opt_GasLimit = gasLimit, opt_GasPrice = 0\<rparr>)"

text \<open>A hash is an array of 32 bytes, so the test for an empty hash never succeeds.\<close>

definition SendMetatransaction_client ::
    "chain_lib \<Rightarrow> Address \<Rightarrow> TransactOpts \<Rightarrow> Address option \<Rightarrow> bytes \<Rightarrow> byte \<Rightarrow> bytes \<Rightarrow> bytes \<Rightarrow> error_value + sent_tx" where
  "SendMetatransaction_client lib contractAddress options to signingData v r s =
     with_contract (errs lib) (NewRelay lib contractAddress) (addr_text lib contractAddress)
       (wrapped (errs lib) FailedTransaction ''failed executing smart contract''
         (case to of
            Some _ \<Rightarrow> hub_RelayMetaTx lib contractAddress options (unat (opt_GasLimit options)) signingData v r s
          | None \<Rightarrow> hub_DeployMetaTx lib contractAddress options (unat (opt_GasLimit options)) signingData v r s))"

definition GenerateTransaction ::
    "chain_lib \<Rightarrow> TransactOpts \<Rightarrow> Address option \<Rightarrow> Address \<Rightarrow> bytes \<Rightarrow> byte \<Rightarrow> bytes \<Rightarrow> bytes \<Rightarrow> error_value + plain_tx" where
  "GenerateTransaction lib options to relayAddress signingData v r s =
     (case abi_JSON_relay lib of
        Some e \<Rightarrow> Inl (wrap_error (errs lib) FailedTransaction e ''Error decoding ABI'')
      | None \<Rightarrow>
          (case wrapped (errs lib) FailedTransaction ''Error encoding transaction''
              (abi_Pack lib (case to of Some _ \<Rightarrow> relayMetaTxMethod | None \<Rightarrow> deployMetaTxMethod) signingData v r s) of
             Inl e \<Rightarrow> Inl e
           | Inr bytesData \<Rightarrow>
               Inr \<lparr>plain_nonce = word_of_nat (nat \<bar>opt_Nonce options\<bar>), plain_to = relayAddress, plain_amount = 0,
                    plain_gas = opt_GasLimit options, plain_gasPrice = 0, plain_data = bytesData\<rparr>))"

definition DecreaseGasUsed_client :: "chain_lib \<Rightarrow> Address \<Rightarrow> TransactOpts \<Rightarrow> nat \<Rightarrow> error_value + Hash" where
  "DecreaseGasUsed_client lib contractAddress options gasUsed =
     with_contract (errs lib) (NewRelay lib contractAddress) (addr_text lib contractAddress)
       (map_sum id sent_Hash (wrapped (errs lib) FailedTransaction ''failed executing contract''
          (hub_IncreaseGasUsed lib contractAddress options gasUsed)))"

section \<open>Reading\<close>

text \<open>A missing receipt without an error is dereferenced.\<close>

definition GetTransactionReceipt_client :: "chain_lib \<Rightarrow> Hash \<Rightarrow> (error_value + eth_receipt) go_result" where
  "GetTransactionReceipt_client lib transactionHash =
     (case TransactionReceipt lib transactionHash of
        Inl e \<Rightarrow> Returns (Inl (wrap_error (errs lib) CallBlockchainFailed e
                    (''failed get transaction receipt '' @ hash_Hex lib transactionHash)))
      | Inr None \<Rightarrow> Panics ''nil pointer dereference''
      | Inr (Some receipt) \<Rightarrow> Returns (Inr (receipt\<lparr>PostState := [0]\<rparr>)))"

definition GetTransactionCount_client :: "chain_lib \<Rightarrow> Address \<Rightarrow> Address \<Rightarrow> Address \<Rightarrow> error_value + nat" where
  "GetTransactionCount_client lib contractAddress address nodeAddress =
     with_contract (errs lib) (NewRelay lib contractAddress) (addr_text lib contractAddress)
       (wrapped (errs lib) CallBlockchainFailed (''failed get transaction count for '' @ addr_Hex lib address)
         (hub_GetNonce lib contractAddress nodeAddress address))"

definition GetGasLimit :: "chain_lib \<Rightarrow> Address \<Rightarrow> Address \<Rightarrow> error_value + nat" where
  "GetGasLimit lib contractAddress nodeAddress =
     with_contract (errs lib) (NewRelay lib contractAddress) (addr_text lib contractAddress)
       (wrapped (errs lib) CallBlockchainFailed (''failed get gasLimit from '' @ addr_Hex lib contractAddress)
         (hub_GetGasLimit lib contractAddress nodeAddress))"

definition GetMaxBlockGasLimit :: "chain_lib \<Rightarrow> Address \<Rightarrow> error_value + nat" where
  "GetMaxBlockGasLimit lib contractAddress =
     with_contract (errs lib) (NewRelay lib contractAddress) (addr_text lib contractAddress)
       (wrapped (errs lib) CallBlockchainFailed (''failed get max block gasLimit from '' @ addr_Hex lib contractAddress)
         (hub_GetMaxGasBlockLimit lib contractAddress))"

definition GetBlockByNumber :: "chain_lib \<Rightarrow> Address \<Rightarrow> nat \<Rightarrow> error_value + eth_header \<times> uint64" where
  "GetBlockByNumber lib contractAddress blockNumber =
     (case wrapped (errs lib) CallBlockchainFailed
         (''failed get block by number '' @ decimal_nat (unat (word_of_nat blockNumber :: uint64))) (HeaderByNumber lib blockNumber) of
        Inl e \<Rightarrow> Inl e
      | Inr block \<Rightarrow>
          (case GetMaxBlockGasLimit lib contractAddress of
             Inl e \<Rightarrow> Inl e
           | Inr gasLimit \<Rightarrow> Inr (block, word_of_nat gasLimit)))"

definition GetNodeGasLimit_client :: "chain_lib \<Rightarrow> Address \<Rightarrow> Address \<Rightarrow> error_value + nat" where
  "GetNodeGasLimit_client lib contractAddress nodeAddress =
     with_contract (errs lib) (NewRelay lib contractAddress) (addr_text lib contractAddress)
       (wrapped (errs lib) CallBlockchainFailed (''failed get node gasLimit from '' @ addr_Hex lib contractAddress)
         (hub_GetNodeGasLimit lib contractAddress nodeAddress))"

definition GetCurrentGasLimit :: "chain_lib \<Rightarrow> Address \<Rightarrow> error_value + nat" where
  "GetCurrentGasLimit lib contractAddress =
     with_contract (errs lib) (NewRelay lib contractAddress) (addr_text lib contractAddress)
       (wrapped (errs lib) CallBlockchainFailed (''failed get current gasLimit from '' @ addr_Hex lib contractAddress)
         (hub_GetCurrentGasLimit lib contractAddress))"

definition AccountPermitted_client :: "chain_lib \<Rightarrow> Address \<Rightarrow> Address \<Rightarrow> error_value + bool" where
  "AccountPermitted_client lib contractAddress senderAddress =
     with_contract (errs lib) (NewAccount lib contractAddress) (addr_text lib contractAddress)
       (wrapped (errs lib) CallBlockchainFailed (''failed to know if account is permitted from '' @ addr_Hex lib contractAddress)
         (rules_AccountPermitted lib contractAddress senderAddress))"

definition ChainID :: "chain_lib \<Rightarrow> error_value + nat" where
  "ChainID lib = wrapped (errs lib) CallBlockchainFailed ''can't get chain id'' (eth_ChainID lib)"

definition BalanceOf :: "chain_lib \<Rightarrow> Address \<Rightarrow> error_value + nat" where
  "BalanceOf lib address =
     wrapped (errs lib) CallBlockchainFailed (''can't get balance for '' @ addr_Hex lib address) (BalanceAt lib address)"

text \<open>\<open>"rules"\<close> in 32 bytes.\<close>

definition rulesContractName :: bytes where
  "rulesContractName = (let name = map (\<lambda>c. word_of_nat (of_char c)) ''rules'' in name @ replicate (32 - length name) 0)"

definition HasCode_client :: "chain_lib \<Rightarrow> Address \<Rightarrow> error_value + bool" where
  "HasCode_client lib address =
     map_sum id (\<lambda>code. code \<noteq> [])
       (wrapped (errs lib) CallBlockchainFailed (''failed to read the code at '' @ addr_Hex lib address) (CodeAt lib address))"

definition ResolveAccountRules_client :: "chain_lib \<Rightarrow> Address \<Rightarrow> error_value + Address" where
  "ResolveAccountRules_client lib ingress =
     (case abi_JSON_ingress lib of
        Some e \<Rightarrow> Inl (wrap_error (errs lib) FailedContract e ''can't parse the AccountIngress ABI'')
      | None \<Rightarrow>
          wrapped (errs lib) CallBlockchainFailed
            (''failed to resolve the account rules contract from the AccountIngress '' @ addr_Hex lib ingress)
            (ingress_getContractAddress lib ingress rulesContractName))"

section \<open>How failures look\<close>

text \<open>A failure of the given types, with the code of a failed call.\<close>

definition call_failure :: "ErrorType set \<Rightarrow> error_value + 'a \<Rightarrow> bool" where
  "call_failure ts r \<longleftrightarrow> pred_sum (\<lambda>e. GetType (Some e) \<in> ts \<and> ErrorCode_of e = Some (- 32603)) (\<lambda>_. True) r"

lemma call_failure_Inr [simp]: "call_failure ts (Inr x)"
  by (simp add: call_failure_def)

lemma call_failure_wrapped: "t \<in> ts \<Longrightarrow> call_failure ts (wrapped lib t msg r)"
  by (cases r) (simp_all add: call_failure_def wrap_error_def type_Wrapf_def GetType_def ErrorCode_of_def)

lemma call_failure_map: "call_failure ts (map_sum id f r) = call_failure ts r"
  by (cases r) (simp_all add: call_failure_def)

lemma call_failure_contract:
  "FailedContract \<in> ts \<Longrightarrow> call_failure ts r \<Longrightarrow> call_failure ts (with_contract lib i w r)"
  by (cases i) (simp_all add: with_contract_def call_failure_def wrap_error_def type_Wrapf_def GetType_def ErrorCode_of_def)

lemma call_failure_error: "t \<in> ts \<Longrightarrow> call_failure ts (Inl (wrap_error lib t e msg))"
  by (simp add: call_failure_def wrap_error_def type_Wrapf_def GetType_def ErrorCode_of_def)

lemma call_failure_bind:
  "call_failure ts r \<Longrightarrow> (\<And>x. call_failure ts (f x)) \<Longrightarrow> call_failure ts (case r of Inl e \<Rightarrow> Inl e | Inr x \<Rightarrow> f x)"
  by (cases r) (simp_all add: call_failure_def)

lemmas call_failures = call_failure_error call_failure_bind call_failure_contract call_failure_wrapped call_failure_map

text \<open>
  Every failure of a call to the node is typed. Reading fails only with a contract that could not
  be instantiated or with a failed call, sending only with a contract or with a failed transaction, and
  all of them carry the code -32603 whatever the node answered.
\<close>

theorem client_failures_are_typed:
  "call_failure {FailedContract, CallBlockchainFailed} (GetTransactionCount_client lib hub a node) \<and>
   call_failure {FailedContract, CallBlockchainFailed} (GetGasLimit lib hub node) \<and>
   call_failure {FailedContract, CallBlockchainFailed} (GetBlockByNumber lib hub n) \<and>
   call_failure {FailedContract, CallBlockchainFailed} (GetNodeGasLimit_client lib hub node) \<and>
   call_failure {FailedContract, CallBlockchainFailed} (GetCurrentGasLimit lib hub) \<and>
   call_failure {FailedContract, CallBlockchainFailed} (AccountPermitted_client lib rules a) \<and>
   call_failure {FailedContract, CallBlockchainFailed} (ResolveAccountRules_client lib ingress) \<and>
   call_failure {CallBlockchainFailed} (ChainID lib) \<and>
   call_failure {CallBlockchainFailed} (BalanceOf lib a) \<and>
   call_failure {CallBlockchainFailed} (HasCode_client lib a) \<and>
   call_failure {FailedContract, FailedTransaction} (SendMetatransaction_client lib hub opts to dat v r s) \<and>
   call_failure {FailedContract, FailedTransaction} (DecreaseGasUsed_client lib hub opts g) \<and>
   call_failure {FailedTransaction} (GenerateTransaction lib opts to hub dat v r s)"
  by (simp add: GetTransactionCount_client_def GetGasLimit_def GetMaxBlockGasLimit_def GetBlockByNumber_def
      GetNodeGasLimit_client_def GetCurrentGasLimit_def AccountPermitted_client_def ChainID_def BalanceOf_def HasCode_client_def
      SendMetatransaction_client_def DecreaseGasUsed_client_def ResolveAccountRules_client_def GenerateTransaction_def
      call_failures split: option.split)

end
