(* ===== verification/Bindings.thy ===== *)
theory Bindings
  imports Client
begin

text \<open>
  \<open>blockchain/contracts/\<close>: the bindings of the hub and of the rules of accounts, under the client. A
  binding names a method of the contract's ABI and gives it Go values; what go-ethereum does with them
  (\<open>BoundContract.Call\<close>, \<open>Transact\<close>, \<open>abi.JSON\<close>, \<open>abi.Pack\<close>) is a record of functions. Shown here:
  every call the client makes fits the ABI it was bound with, so that none fails before it reaches the node, and
  that \<open>GenerateTransaction\<close>, which packs by hand, never fits.
\<close>

section \<open>ABIs and Go values\<close>

datatype abi_type = TUint256 | TUint8 | TBool | TAddress | TBytes | TBytes32 | TAddresses

datatype abi_fun =
  abi_fun (fun_name: string) (fun_inputs: "abi_type list") (fun_outputs: "abi_type list") (fun_view: bool)

type_synonym abi = "abi_fun list"

datatype go_arg =
    ABig nat
  | AUint8 byte
  | ABool bool
  | AAddress Address
  | ABytes bytes
  | ABytes32 bytes
  | AAddresses "Address list"

text \<open>The ABI type each Go type is packed as and unpacked from.\<close>

fun arg_type :: "go_arg \<Rightarrow> abi_type" where
  "arg_type (ABig _) = TUint256"
| "arg_type (AUint8 _) = TUint8"
| "arg_type (ABool _) = TBool"
| "arg_type (AAddress _) = TAddress"
| "arg_type (ABytes _) = TBytes"
| "arg_type (ABytes32 _) = TBytes32"
| "arg_type (AAddresses _) = TAddresses"

text \<open>What the variable behind the result pointer holds after a call; one that was not written has its zero value.\<close>

definition as_big :: "go_arg \<Rightarrow> nat" where "as_big a = (case a of ABig n \<Rightarrow> n | _ \<Rightarrow> 0)"
definition as_bool :: "go_arg \<Rightarrow> bool" where "as_bool a = (case a of ABool b \<Rightarrow> b | _ \<Rightarrow> False)"
definition as_address :: "go_arg \<Rightarrow> Address" where "as_address a = (case a of AAddress x \<Rightarrow> x | _ \<Rightarrow> 0)"
definition as_bytes32 :: "go_arg \<Rightarrow> bytes" where "as_bytes32 a = (case a of ABytes32 bs \<Rightarrow> bs | _ \<Rightarrow> replicate 32 0)"
definition as_addresses :: "go_arg \<Rightarrow> Address list" where "as_addresses a = (case a of AAddresses xs \<Rightarrow> xs | _ \<Rightarrow> [])"

section \<open>go-ethereum\<close>

record CallOpts =
  co_Pending :: bool
  co_From :: Address

record BoundContract =
  bc_address :: Address
  bc_abi :: abi

text \<open>A call names the type of the variable its result goes to.\<close>

record backend =
  be_JSON :: "abi \<Rightarrow> error_value option"
  be_Pack :: "abi \<Rightarrow> string \<Rightarrow> go_arg list \<Rightarrow> error_value + bytes"
  be_Call :: "BoundContract \<Rightarrow> CallOpts \<Rightarrow> abi_type \<Rightarrow> string \<Rightarrow> go_arg list \<Rightarrow> error_value + go_arg"
  be_Transact :: "BoundContract \<Rightarrow> TransactOpts \<Rightarrow> string \<Rightarrow> go_arg list \<Rightarrow> error_value + sent_tx"

text \<open>When values fit a method: it is in the ABI, and their number and their types are its inputs.\<close>

definition fits :: "abi \<Rightarrow> string \<Rightarrow> go_arg list \<Rightarrow> bool" where
  "fits a name args = (case find (\<lambda>f. fun_name f = name) a of None \<Rightarrow> False | Some f \<Rightarrow> map arg_type args = fun_inputs f)"

definition fits_result :: "abi \<Rightarrow> string \<Rightarrow> abi_type \<Rightarrow> bool" where
  "fits_result a name out =
     (case find (\<lambda>f. fun_name f = name) a of None \<Rightarrow> False | Some f \<Rightarrow> fun_view f \<and> fun_outputs f = [out])"

text \<open>
  The same library, made to answer an error of its own for every request that does not fit the ABI. A
  request that is answered as before by this one for every library is a request that fits.
\<close>

definition checked :: "error_value \<Rightarrow> backend \<Rightarrow> backend" where
  "checked e B = B\<lparr>
     be_Call := (\<lambda>c opts out name args.
       if fits (bc_abi c) name args \<and> fits_result (bc_abi c) name out then be_Call B c opts out name args else Inl e),
     be_Transact := (\<lambda>c opts name args. if fits (bc_abi c) name args then be_Transact B c opts name args else Inl e),
     be_Pack := (\<lambda>a name args. if fits a name args then be_Pack B a name args else Inl e)\<rparr>"

section \<open>The hub\<close>

text \<open>The functions of the ABI text, without its events.\<close>

definition RelayABI :: abi where
  "RelayABI = [
    abi_fun ''DEFAULT_ADMIN_ROLE'' [] [TBytes32] True,
    abi_fun ''addNode'' [TAddress] [TBool] False,
    abi_fun ''deleteNode'' [TAddress] [] False,
    abi_fun ''getCurrentGasLimit'' [] [TUint256] True,
    abi_fun ''getGasLimit'' [] [TUint256] True,
    abi_fun ''getGasUsedLastBlocks'' [] [TUint256] True,
    abi_fun ''getMaxGasBlockLimit'' [] [TUint256] True,
    abi_fun ''getNodeGasLimit'' [TAddress] [TUint256] True,
    abi_fun ''getNodes'' [] [TUint256] True,
    abi_fun ''getRoleAdmin'' [TBytes32] [TBytes32] True,
    abi_fun ''getRoleMember'' [TBytes32, TUint256] [TAddress] True,
    abi_fun ''getRoleMemberCount'' [TBytes32] [TUint256] True,
    abi_fun ''grantRole'' [TBytes32, TAddress] [] False,
    abi_fun ''hasRole'' [TBytes32, TAddress] [TBool] True,
    abi_fun ''renounceRole'' [TBytes32, TAddress] [] False,
    abi_fun ''revokeRole'' [TBytes32, TAddress] [] False,
    abi_fun ''setAccounIngress'' [TAddress] [] False,
    abi_fun ''setBlocksFrequency'' [TUint8] [] False,
    abi_fun ''setGasUsedLastBlocks'' [TUint256] [] False,
    abi_fun ''setGasUsedRelayHub'' [TUint256] [] False,
    abi_fun ''setMaxGasBlockLimit'' [TUint256] [] False,
    abi_fun ''relayMetaTx'' [TUint256, TBytes, TUint8, TBytes32, TBytes32] [TUint8] False,
    abi_fun ''deployMetaTx'' [TUint256, TBytes, TUint8, TBytes32, TBytes32] [TUint8, TAddress] False,
    abi_fun ''getNonce'' [TAddress] [TUint256] True,
    abi_fun ''getMsgSender'' [] [TAddress] True,
    abi_fun ''increaseGasUsed'' [TUint256] [TBool] False]"

text \<open>Binding to an address; one bound contract serves the reader, the writer and the filter of events.\<close>

definition bindRelay :: "backend \<Rightarrow> Address \<Rightarrow> error_value + BoundContract" where
  "bindRelay B address =
     (case be_JSON B RelayABI of Some e \<Rightarrow> Inl e | None \<Rightarrow> Inr \<lparr>bc_address = address, bc_abi = RelayABI\<rparr>)"

record Relay =
  RelayCaller :: BoundContract
  RelayTransactor :: BoundContract
  RelayFilterer :: BoundContract

definition NewRelay_binding :: "backend \<Rightarrow> Address \<Rightarrow> error_value + Relay" where
  "NewRelay_binding B address =
     (case bindRelay B address of
        Inl e \<Rightarrow> Inl e
      | Inr contract \<Rightarrow> Inr \<lparr>RelayCaller = contract, RelayTransactor = contract, RelayFilterer = contract\<rparr>)"

definition Relay_DEFAULTADMINROLE :: "backend \<Rightarrow> BoundContract \<Rightarrow> CallOpts \<Rightarrow> error_value + bytes" where
  "Relay_DEFAULTADMINROLE B c opts = map_sum id as_bytes32 (be_Call B c opts TBytes32 ''DEFAULT_ADMIN_ROLE'' [])"

definition Relay_GetCurrentGasLimit :: "backend \<Rightarrow> BoundContract \<Rightarrow> CallOpts \<Rightarrow> error_value + nat" where
  "Relay_GetCurrentGasLimit B c opts = map_sum id as_big (be_Call B c opts TUint256 ''getCurrentGasLimit'' [])"

definition Relay_GetGasLimit :: "backend \<Rightarrow> BoundContract \<Rightarrow> CallOpts \<Rightarrow> error_value + nat" where
  "Relay_GetGasLimit B c opts = map_sum id as_big (be_Call B c opts TUint256 ''getGasLimit'' [])"

definition Relay_GetNodeGasLimit :: "backend \<Rightarrow> BoundContract \<Rightarrow> CallOpts \<Rightarrow> Address \<Rightarrow> error_value + nat" where
  "Relay_GetNodeGasLimit B c opts from = map_sum id as_big (be_Call B c opts TUint256 ''getNodeGasLimit'' [AAddress from])"

definition Relay_GetGasUsedLastBlocks :: "backend \<Rightarrow> BoundContract \<Rightarrow> CallOpts \<Rightarrow> error_value + nat" where
  "Relay_GetGasUsedLastBlocks B c opts = map_sum id as_big (be_Call B c opts TUint256 ''getGasUsedLastBlocks'' [])"

definition Relay_GetMaxGasBlockLimit :: "backend \<Rightarrow> BoundContract \<Rightarrow> CallOpts \<Rightarrow> error_value + nat" where
  "Relay_GetMaxGasBlockLimit B c opts = map_sum id as_big (be_Call B c opts TUint256 ''getMaxGasBlockLimit'' [])"

definition Relay_GetMsgSender :: "backend \<Rightarrow> BoundContract \<Rightarrow> CallOpts \<Rightarrow> error_value + Address" where
  "Relay_GetMsgSender B c opts = map_sum id as_address (be_Call B c opts TAddress ''getMsgSender'' [])"

definition Relay_GetNodes :: "backend \<Rightarrow> BoundContract \<Rightarrow> CallOpts \<Rightarrow> error_value + nat" where
  "Relay_GetNodes B c opts = map_sum id as_big (be_Call B c opts TUint256 ''getNodes'' [])"

definition Relay_GetNonce :: "backend \<Rightarrow> BoundContract \<Rightarrow> CallOpts \<Rightarrow> Address \<Rightarrow> error_value + nat" where
  "Relay_GetNonce B c opts from = map_sum id as_big (be_Call B c opts TUint256 ''getNonce'' [AAddress from])"

definition Relay_GetRoleAdmin :: "backend \<Rightarrow> BoundContract \<Rightarrow> CallOpts \<Rightarrow> bytes \<Rightarrow> error_value + bytes" where
  "Relay_GetRoleAdmin B c opts role = map_sum id as_bytes32 (be_Call B c opts TBytes32 ''getRoleAdmin'' [ABytes32 role])"

definition Relay_GetRoleMember :: "backend \<Rightarrow> BoundContract \<Rightarrow> CallOpts \<Rightarrow> bytes \<Rightarrow> nat \<Rightarrow> error_value + Address" where
  "Relay_GetRoleMember B c opts role index =
     map_sum id as_address (be_Call B c opts TAddress ''getRoleMember'' [ABytes32 role, ABig index])"

definition Relay_GetRoleMemberCount :: "backend \<Rightarrow> BoundContract \<Rightarrow> CallOpts \<Rightarrow> bytes \<Rightarrow> error_value + nat" where
  "Relay_GetRoleMemberCount B c opts role =
     map_sum id as_big (be_Call B c opts TUint256 ''getRoleMemberCount'' [ABytes32 role])"

definition Relay_HasRole :: "backend \<Rightarrow> BoundContract \<Rightarrow> CallOpts \<Rightarrow> bytes \<Rightarrow> Address \<Rightarrow> error_value + bool" where
  "Relay_HasRole B c opts role account =
     map_sum id as_bool (be_Call B c opts TBool ''hasRole'' [ABytes32 role, AAddress account])"

definition Relay_AddNode :: "backend \<Rightarrow> BoundContract \<Rightarrow> TransactOpts \<Rightarrow> Address \<Rightarrow> error_value + sent_tx" where
  "Relay_AddNode B c opts newNode = be_Transact B c opts ''addNode'' [AAddress newNode]"

definition Relay_DeleteNode :: "backend \<Rightarrow> BoundContract \<Rightarrow> TransactOpts \<Rightarrow> Address \<Rightarrow> error_value + sent_tx" where
  "Relay_DeleteNode B c opts node = be_Transact B c opts ''deleteNode'' [AAddress node]"

definition Relay_DeployMetaTx :: "backend \<Rightarrow> BoundContract \<Rightarrow> TransactOpts \<Rightarrow> nat \<Rightarrow> bytes \<Rightarrow> byte \<Rightarrow> bytes \<Rightarrow> bytes \<Rightarrow> error_value + sent_tx" where
  "Relay_DeployMetaTx B c opts gasLimit signingData v r s =
     be_Transact B c opts ''deployMetaTx'' [ABig gasLimit, ABytes signingData, AUint8 v, ABytes32 r, ABytes32 s]"

definition Relay_GrantRole :: "backend \<Rightarrow> BoundContract \<Rightarrow> TransactOpts \<Rightarrow> bytes \<Rightarrow> Address \<Rightarrow> error_value + sent_tx" where
  "Relay_GrantRole B c opts role account = be_Transact B c opts ''grantRole'' [ABytes32 role, AAddress account]"

definition Relay_IncreaseGasUsed :: "backend \<Rightarrow> BoundContract \<Rightarrow> TransactOpts \<Rightarrow> nat \<Rightarrow> error_value + sent_tx" where
  "Relay_IncreaseGasUsed B c opts gasUsed = be_Transact B c opts ''increaseGasUsed'' [ABig gasUsed]"

definition Relay_RelayMetaTx :: "backend \<Rightarrow> BoundContract \<Rightarrow> TransactOpts \<Rightarrow> nat \<Rightarrow> bytes \<Rightarrow> byte \<Rightarrow> bytes \<Rightarrow> bytes \<Rightarrow> error_value + sent_tx" where
  "Relay_RelayMetaTx B c opts gasLimit signingData v r s =
     be_Transact B c opts ''relayMetaTx'' [ABig gasLimit, ABytes signingData, AUint8 v, ABytes32 r, ABytes32 s]"

definition Relay_RenounceRole :: "backend \<Rightarrow> BoundContract \<Rightarrow> TransactOpts \<Rightarrow> bytes \<Rightarrow> Address \<Rightarrow> error_value + sent_tx" where
  "Relay_RenounceRole B c opts role account = be_Transact B c opts ''renounceRole'' [ABytes32 role, AAddress account]"

definition Relay_RevokeRole :: "backend \<Rightarrow> BoundContract \<Rightarrow> TransactOpts \<Rightarrow> bytes \<Rightarrow> Address \<Rightarrow> error_value + sent_tx" where
  "Relay_RevokeRole B c opts role account = be_Transact B c opts ''revokeRole'' [ABytes32 role, AAddress account]"

definition Relay_SetAccounIngress :: "backend \<Rightarrow> BoundContract \<Rightarrow> TransactOpts \<Rightarrow> Address \<Rightarrow> error_value + sent_tx" where
  "Relay_SetAccounIngress B c opts accountIngress = be_Transact B c opts ''setAccounIngress'' [AAddress accountIngress]"

definition Relay_SetBlocksFrequency :: "backend \<Rightarrow> BoundContract \<Rightarrow> TransactOpts \<Rightarrow> byte \<Rightarrow> error_value + sent_tx" where
  "Relay_SetBlocksFrequency B c opts blocksFrequency = be_Transact B c opts ''setBlocksFrequency'' [AUint8 blocksFrequency]"

definition Relay_SetGasUsedLastBlocks :: "backend \<Rightarrow> BoundContract \<Rightarrow> TransactOpts \<Rightarrow> nat \<Rightarrow> error_value + sent_tx" where
  "Relay_SetGasUsedLastBlocks B c opts newGasUsed = be_Transact B c opts ''setGasUsedLastBlocks'' [ABig newGasUsed]"

definition Relay_SetGasUsedRelayHub :: "backend \<Rightarrow> BoundContract \<Rightarrow> TransactOpts \<Rightarrow> nat \<Rightarrow> error_value + sent_tx" where
  "Relay_SetGasUsedRelayHub B c opts gasUsedRelayHub = be_Transact B c opts ''setGasUsedRelayHub'' [ABig gasUsedRelayHub]"

definition Relay_SetMaxGasBlockLimit :: "backend \<Rightarrow> BoundContract \<Rightarrow> TransactOpts \<Rightarrow> nat \<Rightarrow> error_value + sent_tx" where
  "Relay_SetMaxGasBlockLimit B c opts maxGasBlockLimit =
     be_Transact B c opts ''setMaxGasBlockLimit'' [ABig maxGasBlockLimit]"

section \<open>The rules of accounts\<close>

definition AccountABI :: abi where
  "AccountABI = [
    abi_fun ''exitReadOnly'' [] [TBool] False,
    abi_fun ''accountPermitted'' [TAddress] [TBool] True,
    abi_fun ''getByIndex'' [TUint256] [TAddress] True,
    abi_fun ''accountAllowList'' [TUint256] [TAddress] True,
    abi_fun ''ON_CHAIN_PRIVACY_ADDRESS'' [] [TAddress] True,
    abi_fun ''getTargets'' [] [TAddresses] True,
    abi_fun ''addTarget'' [TAddress] [TBool] False,
    abi_fun ''getAccounts'' [] [TAddresses] True,
    abi_fun ''getContractVersion'' [] [TUint256] True,
    abi_fun ''transactionAllowed'' [TAddress, TAddress, TUint256, TUint256, TUint256, TBytes] [TBool] False,
    abi_fun ''destinationPermitted'' [TAddress] [TBool] True,
    abi_fun ''addAccounts'' [TAddresses] [TBool] False,
    abi_fun ''targetAllowList'' [TUint256] [TAddress] True,
    abi_fun ''removeAccount'' [TAddress] [TBool] False,
    abi_fun ''setRelay'' [TAddress] [TBool] False,
    abi_fun ''removeTarget'' [TAddress] [TBool] False,
    abi_fun ''enterReadOnly'' [] [TBool] False,
    abi_fun ''isReadOnly'' [] [TBool] True,
    abi_fun ''addTargets'' [TAddresses] [TBool] False,
    abi_fun ''getSize'' [] [TUint256] True,
    abi_fun ''addAccount'' [TAddress] [TBool] False]"

definition bindAccount :: "backend \<Rightarrow> Address \<Rightarrow> error_value + BoundContract" where
  "bindAccount B address =
     (case be_JSON B AccountABI of Some e \<Rightarrow> Inl e | None \<Rightarrow> Inr \<lparr>bc_address = address, bc_abi = AccountABI\<rparr>)"

record Account =
  AccountCaller :: BoundContract
  AccountTransactor :: BoundContract
  AccountFilterer :: BoundContract

definition NewAccount_binding :: "backend \<Rightarrow> Address \<Rightarrow> error_value + Account" where
  "NewAccount_binding B address =
     (case bindAccount B address of
        Inl e \<Rightarrow> Inl e
      | Inr contract \<Rightarrow> Inr \<lparr>AccountCaller = contract, AccountTransactor = contract, AccountFilterer = contract\<rparr>)"

definition Account_ONCHAINPRIVACYADDRESS :: "backend \<Rightarrow> BoundContract \<Rightarrow> CallOpts \<Rightarrow> error_value + Address" where
  "Account_ONCHAINPRIVACYADDRESS B c opts =
     map_sum id as_address (be_Call B c opts TAddress ''ON_CHAIN_PRIVACY_ADDRESS'' [])"

definition Account_AccountAllowList :: "backend \<Rightarrow> BoundContract \<Rightarrow> CallOpts \<Rightarrow> nat \<Rightarrow> error_value + Address" where
  "Account_AccountAllowList B c opts arg0 =
     map_sum id as_address (be_Call B c opts TAddress ''accountAllowList'' [ABig arg0])"

definition Account_AccountPermitted :: "backend \<Rightarrow> BoundContract \<Rightarrow> CallOpts \<Rightarrow> Address \<Rightarrow> error_value + bool" where
  "Account_AccountPermitted B c opts account =
     map_sum id as_bool (be_Call B c opts TBool ''accountPermitted'' [AAddress account])"

definition Account_DestinationPermitted :: "backend \<Rightarrow> BoundContract \<Rightarrow> CallOpts \<Rightarrow> Address \<Rightarrow> error_value + bool" where
  "Account_DestinationPermitted B c opts target =
     map_sum id as_bool (be_Call B c opts TBool ''destinationPermitted'' [AAddress target])"

definition Account_GetAccounts :: "backend \<Rightarrow> BoundContract \<Rightarrow> CallOpts \<Rightarrow> error_value + Address list" where
  "Account_GetAccounts B c opts = map_sum id as_addresses (be_Call B c opts TAddresses ''getAccounts'' [])"

definition Account_GetByIndex :: "backend \<Rightarrow> BoundContract \<Rightarrow> CallOpts \<Rightarrow> nat \<Rightarrow> error_value + Address" where
  "Account_GetByIndex B c opts index = map_sum id as_address (be_Call B c opts TAddress ''getByIndex'' [ABig index])"

definition Account_GetContractVersion :: "backend \<Rightarrow> BoundContract \<Rightarrow> CallOpts \<Rightarrow> error_value + nat" where
  "Account_GetContractVersion B c opts = map_sum id as_big (be_Call B c opts TUint256 ''getContractVersion'' [])"

definition Account_GetSize :: "backend \<Rightarrow> BoundContract \<Rightarrow> CallOpts \<Rightarrow> error_value + nat" where
  "Account_GetSize B c opts = map_sum id as_big (be_Call B c opts TUint256 ''getSize'' [])"

definition Account_GetTargets :: "backend \<Rightarrow> BoundContract \<Rightarrow> CallOpts \<Rightarrow> error_value + Address list" where
  "Account_GetTargets B c opts = map_sum id as_addresses (be_Call B c opts TAddresses ''getTargets'' [])"

definition Account_IsReadOnly :: "backend \<Rightarrow> BoundContract \<Rightarrow> CallOpts \<Rightarrow> error_value + bool" where
  "Account_IsReadOnly B c opts = map_sum id as_bool (be_Call B c opts TBool ''isReadOnly'' [])"

definition Account_TargetAllowList :: "backend \<Rightarrow> BoundContract \<Rightarrow> CallOpts \<Rightarrow> nat \<Rightarrow> error_value + Address" where
  "Account_TargetAllowList B c opts arg0 = map_sum id as_address (be_Call B c opts TAddress ''targetAllowList'' [ABig arg0])"

definition Account_AddAccount :: "backend \<Rightarrow> BoundContract \<Rightarrow> TransactOpts \<Rightarrow> Address \<Rightarrow> error_value + sent_tx" where
  "Account_AddAccount B c opts account = be_Transact B c opts ''addAccount'' [AAddress account]"

definition Account_AddAccounts :: "backend \<Rightarrow> BoundContract \<Rightarrow> TransactOpts \<Rightarrow> Address list \<Rightarrow> error_value + sent_tx" where
  "Account_AddAccounts B c opts accounts = be_Transact B c opts ''addAccounts'' [AAddresses accounts]"

definition Account_AddTarget :: "backend \<Rightarrow> BoundContract \<Rightarrow> TransactOpts \<Rightarrow> Address \<Rightarrow> error_value + sent_tx" where
  "Account_AddTarget B c opts target = be_Transact B c opts ''addTarget'' [AAddress target]"

definition Account_AddTargets :: "backend \<Rightarrow> BoundContract \<Rightarrow> TransactOpts \<Rightarrow> Address list \<Rightarrow> error_value + sent_tx" where
  "Account_AddTargets B c opts targets = be_Transact B c opts ''addTargets'' [AAddresses targets]"

definition Account_EnterReadOnly :: "backend \<Rightarrow> BoundContract \<Rightarrow> TransactOpts \<Rightarrow> error_value + sent_tx" where
  "Account_EnterReadOnly B c opts = be_Transact B c opts ''enterReadOnly'' []"

definition Account_ExitReadOnly :: "backend \<Rightarrow> BoundContract \<Rightarrow> TransactOpts \<Rightarrow> error_value + sent_tx" where
  "Account_ExitReadOnly B c opts = be_Transact B c opts ''exitReadOnly'' []"

definition Account_RemoveAccount :: "backend \<Rightarrow> BoundContract \<Rightarrow> TransactOpts \<Rightarrow> Address \<Rightarrow> error_value + sent_tx" where
  "Account_RemoveAccount B c opts account = be_Transact B c opts ''removeAccount'' [AAddress account]"

definition Account_RemoveTarget :: "backend \<Rightarrow> BoundContract \<Rightarrow> TransactOpts \<Rightarrow> Address \<Rightarrow> error_value + sent_tx" where
  "Account_RemoveTarget B c opts target = be_Transact B c opts ''removeTarget'' [AAddress target]"

definition Account_SetRelay :: "backend \<Rightarrow> BoundContract \<Rightarrow> TransactOpts \<Rightarrow> Address \<Rightarrow> error_value + sent_tx" where
  "Account_SetRelay B c opts relayHub = be_Transact B c opts ''setRelay'' [AAddress relayHub]"

definition Account_TransactionAllowed :: "backend \<Rightarrow> BoundContract \<Rightarrow> TransactOpts \<Rightarrow> Address \<Rightarrow> Address \<Rightarrow> nat \<Rightarrow> nat \<Rightarrow> nat \<Rightarrow> bytes \<Rightarrow> error_value + sent_tx" where
  "Account_TransactionAllowed B c opts sender target arg2 arg3 arg4 arg5 =
     be_Transact B c opts ''transactionAllowed'' [AAddress sender, AAddress target, ABig arg2, ABig arg3, ABig arg4, ABytes arg5]"

lemmas relay_bindings =
  Relay_DEFAULTADMINROLE_def
  Relay_GetCurrentGasLimit_def
  Relay_GetGasLimit_def
  Relay_GetNodeGasLimit_def
  Relay_GetGasUsedLastBlocks_def
  Relay_GetMaxGasBlockLimit_def
  Relay_GetMsgSender_def
  Relay_GetNodes_def
  Relay_GetNonce_def
  Relay_GetRoleAdmin_def
  Relay_GetRoleMember_def
  Relay_GetRoleMemberCount_def
  Relay_HasRole_def
  Relay_AddNode_def
  Relay_DeleteNode_def
  Relay_DeployMetaTx_def
  Relay_GrantRole_def
  Relay_IncreaseGasUsed_def
  Relay_RelayMetaTx_def
  Relay_RenounceRole_def
  Relay_RevokeRole_def
  Relay_SetAccounIngress_def
  Relay_SetBlocksFrequency_def
  Relay_SetGasUsedLastBlocks_def
  Relay_SetGasUsedRelayHub_def
  Relay_SetMaxGasBlockLimit_def

lemmas account_bindings =
  Account_ONCHAINPRIVACYADDRESS_def
  Account_AccountAllowList_def
  Account_AccountPermitted_def
  Account_DestinationPermitted_def
  Account_GetAccounts_def
  Account_GetByIndex_def
  Account_GetContractVersion_def
  Account_GetSize_def
  Account_GetTargets_def
  Account_IsReadOnly_def
  Account_TargetAllowList_def
  Account_AddAccount_def
  Account_AddAccounts_def
  Account_AddTarget_def
  Account_AddTargets_def
  Account_EnterReadOnly_def
  Account_ExitReadOnly_def
  Account_RemoveAccount_def
  Account_RemoveTarget_def
  Account_SetRelay_def
  Account_TransactionAllowed_def

section \<open>The client over the bindings\<close>

text \<open>The registry of permissions has no generated binding: the client binds its one method by hand.\<close>

definition accountIngressABI :: abi where
  "accountIngressABI = [abi_fun ''getContractAddress'' [TBytes32] [TAddress] True]"

definition on_relay :: "backend \<Rightarrow> Address \<Rightarrow> (Relay \<Rightarrow> error_value + 'a) \<Rightarrow> error_value + 'a" where
  "on_relay B a f = (case NewRelay_binding B a of Inl e \<Rightarrow> Inl e | Inr r \<Rightarrow> f r)"

definition on_account :: "backend \<Rightarrow> Address \<Rightarrow> (Account \<Rightarrow> error_value + 'a) \<Rightarrow> error_value + 'a" where
  "on_account B a f = (case NewAccount_binding B a of Inl e \<Rightarrow> Inl e | Inr r \<Rightarrow> f r)"

definition no_opts :: CallOpts where
  "no_opts = \<lparr>co_Pending = False, co_From = 0\<rparr>"

definition failed_with :: "error_value + 'a \<Rightarrow> error_value option" where
  "failed_with r = (case r of Inl e \<Rightarrow> Some e | Inr _ \<Rightarrow> None)"

text \<open>The calls of \<open>blockchain/client.go\<close> on a contract it has bound, with the options it gives them.\<close>

definition bound_lib :: "chain_lib \<Rightarrow> backend \<Rightarrow> chain_lib" where
  "bound_lib lib B = lib\<lparr>
     NewRelay := (\<lambda>a. failed_with (NewRelay_binding B a)),
     NewAccount := (\<lambda>a. failed_with (NewAccount_binding B a)),
     hub_RelayMetaTx := (\<lambda>a opts g d v r s. on_relay B a (\<lambda>c. Relay_RelayMetaTx B (RelayTransactor c) opts g d v r s)),
     hub_DeployMetaTx := (\<lambda>a opts g d v r s. on_relay B a (\<lambda>c. Relay_DeployMetaTx B (RelayTransactor c) opts g d v r s)),
     hub_IncreaseGasUsed := (\<lambda>a opts g. on_relay B a (\<lambda>c. Relay_IncreaseGasUsed B (RelayTransactor c) opts g)),
     hub_GetNonce := (\<lambda>a node from. on_relay B a (\<lambda>c. Relay_GetNonce B (RelayCaller c) (no_opts\<lparr>co_From := node\<rparr>) from)),
     hub_GetGasLimit := (\<lambda>a node. on_relay B a (\<lambda>c. Relay_GetGasLimit B (RelayCaller c) \<lparr>co_Pending = True, co_From = node\<rparr>)),
     hub_GetMaxGasBlockLimit := (\<lambda>a. on_relay B a (\<lambda>c. Relay_GetMaxGasBlockLimit B (RelayCaller c) no_opts)),
     hub_GetNodeGasLimit := (\<lambda>a node. on_relay B a (\<lambda>c. Relay_GetNodeGasLimit B (RelayCaller c) no_opts node)),
     hub_GetCurrentGasLimit := (\<lambda>a. on_relay B a (\<lambda>c. Relay_GetCurrentGasLimit B (RelayCaller c) no_opts)),
     rules_AccountPermitted := (\<lambda>a x. on_account B a (\<lambda>c. Account_AccountPermitted B (AccountCaller c) no_opts x)),
     ingress_getContractAddress := (\<lambda>a name. map_sum id as_address
       (be_Call B \<lparr>bc_address = a, bc_abi = accountIngressABI\<rparr> no_opts TAddress ''getContractAddress'' [ABytes32 name])),
     abi_JSON_relay := be_JSON B RelayABI,
     abi_JSON_ingress := be_JSON B accountIngressABI,
     abi_Pack := (\<lambda>m d v r s. be_Pack B RelayABI m [ABytes d, AUint8 v, ABytes32 r, ABytes32 s])\<rparr>"

section \<open>Every binding fits\<close>

lemmas fits_defs = checked_def fits_def fits_result_def fun_eq_iff

lemma relay_bindings_fit:
  assumes "bc_abi c = RelayABI"
  shows "Relay_DEFAULTADMINROLE (checked e B) c = Relay_DEFAULTADMINROLE B c \<and>
   Relay_GetCurrentGasLimit (checked e B) c = Relay_GetCurrentGasLimit B c \<and>
   Relay_GetGasLimit (checked e B) c = Relay_GetGasLimit B c \<and>
   Relay_GetNodeGasLimit (checked e B) c = Relay_GetNodeGasLimit B c \<and>
   Relay_GetGasUsedLastBlocks (checked e B) c = Relay_GetGasUsedLastBlocks B c \<and>
   Relay_GetMaxGasBlockLimit (checked e B) c = Relay_GetMaxGasBlockLimit B c \<and>
   Relay_GetMsgSender (checked e B) c = Relay_GetMsgSender B c \<and>
   Relay_GetNodes (checked e B) c = Relay_GetNodes B c \<and>
   Relay_GetNonce (checked e B) c = Relay_GetNonce B c \<and>
   Relay_GetRoleAdmin (checked e B) c = Relay_GetRoleAdmin B c \<and>
   Relay_GetRoleMember (checked e B) c = Relay_GetRoleMember B c \<and>
   Relay_GetRoleMemberCount (checked e B) c = Relay_GetRoleMemberCount B c \<and>
   Relay_HasRole (checked e B) c = Relay_HasRole B c \<and>
   Relay_AddNode (checked e B) c = Relay_AddNode B c \<and>
   Relay_DeleteNode (checked e B) c = Relay_DeleteNode B c \<and>
   Relay_DeployMetaTx (checked e B) c = Relay_DeployMetaTx B c \<and>
   Relay_GrantRole (checked e B) c = Relay_GrantRole B c \<and>
   Relay_IncreaseGasUsed (checked e B) c = Relay_IncreaseGasUsed B c \<and>
   Relay_RelayMetaTx (checked e B) c = Relay_RelayMetaTx B c \<and>
   Relay_RenounceRole (checked e B) c = Relay_RenounceRole B c \<and>
   Relay_RevokeRole (checked e B) c = Relay_RevokeRole B c \<and>
   Relay_SetAccounIngress (checked e B) c = Relay_SetAccounIngress B c \<and>
   Relay_SetBlocksFrequency (checked e B) c = Relay_SetBlocksFrequency B c \<and>
   Relay_SetGasUsedLastBlocks (checked e B) c = Relay_SetGasUsedLastBlocks B c \<and>
   Relay_SetGasUsedRelayHub (checked e B) c = Relay_SetGasUsedRelayHub B c \<and>
   Relay_SetMaxGasBlockLimit (checked e B) c = Relay_SetMaxGasBlockLimit B c"
  by (intro conjI; simp add: assms fits_defs relay_bindings RelayABI_def)

lemma account_bindings_fit:
  assumes "bc_abi c = AccountABI"
  shows "Account_ONCHAINPRIVACYADDRESS (checked e B) c = Account_ONCHAINPRIVACYADDRESS B c \<and>
   Account_AccountAllowList (checked e B) c = Account_AccountAllowList B c \<and>
   Account_AccountPermitted (checked e B) c = Account_AccountPermitted B c \<and>
   Account_DestinationPermitted (checked e B) c = Account_DestinationPermitted B c \<and>
   Account_GetAccounts (checked e B) c = Account_GetAccounts B c \<and>
   Account_GetByIndex (checked e B) c = Account_GetByIndex B c \<and>
   Account_GetContractVersion (checked e B) c = Account_GetContractVersion B c \<and>
   Account_GetSize (checked e B) c = Account_GetSize B c \<and>
   Account_GetTargets (checked e B) c = Account_GetTargets B c \<and>
   Account_IsReadOnly (checked e B) c = Account_IsReadOnly B c \<and>
   Account_TargetAllowList (checked e B) c = Account_TargetAllowList B c \<and>
   Account_AddAccount (checked e B) c = Account_AddAccount B c \<and>
   Account_AddAccounts (checked e B) c = Account_AddAccounts B c \<and>
   Account_AddTarget (checked e B) c = Account_AddTarget B c \<and>
   Account_AddTargets (checked e B) c = Account_AddTargets B c \<and>
   Account_EnterReadOnly (checked e B) c = Account_EnterReadOnly B c \<and>
   Account_ExitReadOnly (checked e B) c = Account_ExitReadOnly B c \<and>
   Account_RemoveAccount (checked e B) c = Account_RemoveAccount B c \<and>
   Account_RemoveTarget (checked e B) c = Account_RemoveTarget B c \<and>
   Account_SetRelay (checked e B) c = Account_SetRelay B c \<and>
   Account_TransactionAllowed (checked e B) c = Account_TransactionAllowed B c"
  by (intro conjI; simp add: assms fits_defs account_bindings AccountABI_def)

lemma checked_JSON [simp]: "be_JSON (checked e B) = be_JSON B"
  by (simp add: checked_def)

lemma checked_new [simp]:
  "NewRelay_binding (checked e B) = NewRelay_binding B" "NewAccount_binding (checked e B) = NewAccount_binding B"
  by (simp_all add: fun_eq_iff NewRelay_binding_def bindRelay_def NewAccount_binding_def bindAccount_def)

lemma bound_abi:
  "NewRelay_binding B a = Inr r \<Longrightarrow> bc_abi (RelayCaller r) = RelayABI \<and> bc_abi (RelayTransactor r) = RelayABI"
  "NewAccount_binding B a = Inr q \<Longrightarrow> bc_abi (AccountCaller q) = AccountABI"
  by (auto simp: NewRelay_binding_def bindRelay_def NewAccount_binding_def bindAccount_def split: option.splits sum.splits)

lemma on_relay_checked:
  assumes "\<And>r. bc_abi (RelayCaller r) = RelayABI \<Longrightarrow> bc_abi (RelayTransactor r) = RelayABI \<Longrightarrow> f r = g r"
  shows "on_relay (checked e B) a f = on_relay B a g"
  using assms bound_abi(1) by (auto simp: on_relay_def split: sum.split)

lemma on_account_checked:
  assumes "\<And>q. bc_abi (AccountCaller q) = AccountABI \<Longrightarrow> f q = g q"
  shows "on_account (checked e B) a f = on_account B a g"
  using assms bound_abi(2) by (auto simp: on_account_def split: sum.split)

text \<open>All of the library that the bindings give but the hand-made packing is the same over the checked one.\<close>

lemma bound_lib_checked:
  "bound_lib lib (checked e B) =
     (bound_lib lib B)\<lparr>abi_Pack := (\<lambda>m d v r s. be_Pack (checked e B) RelayABI m [ABytes d, AUint8 v, ABytes32 r, ABytes32 s])\<rparr>"
proof -
  have ing: "be_Call (checked e B) \<lparr>bc_address = a, bc_abi = accountIngressABI\<rparr> no_opts TAddress ''getContractAddress'' [ABytes32 name]
      = be_Call B \<lparr>bc_address = a, bc_abi = accountIngressABI\<rparr> no_opts TAddress ''getContractAddress'' [ABytes32 name]" for a name
    by (simp add: fits_defs accountIngressABI_def)
  have calls:
    "(\<lambda>a opts g d v r s. on_relay (checked e B) a (\<lambda>c. Relay_RelayMetaTx (checked e B) (RelayTransactor c) opts g d v r s)) =
     (\<lambda>a opts g d v r s. on_relay B a (\<lambda>c. Relay_RelayMetaTx B (RelayTransactor c) opts g d v r s))"
    "(\<lambda>a opts g d v r s. on_relay (checked e B) a (\<lambda>c. Relay_DeployMetaTx (checked e B) (RelayTransactor c) opts g d v r s)) =
     (\<lambda>a opts g d v r s. on_relay B a (\<lambda>c. Relay_DeployMetaTx B (RelayTransactor c) opts g d v r s))"
    "(\<lambda>a opts g. on_relay (checked e B) a (\<lambda>c. Relay_IncreaseGasUsed (checked e B) (RelayTransactor c) opts g)) =
     (\<lambda>a opts g. on_relay B a (\<lambda>c. Relay_IncreaseGasUsed B (RelayTransactor c) opts g))"
    "(\<lambda>a node from. on_relay (checked e B) a (\<lambda>c. Relay_GetNonce (checked e B) (RelayCaller c) (no_opts\<lparr>co_From := node\<rparr>) from)) =
     (\<lambda>a node from. on_relay B a (\<lambda>c. Relay_GetNonce B (RelayCaller c) (no_opts\<lparr>co_From := node\<rparr>) from))"
    "(\<lambda>a node. on_relay (checked e B) a (\<lambda>c. Relay_GetGasLimit (checked e B) (RelayCaller c) \<lparr>co_Pending = True, co_From = node\<rparr>)) =
     (\<lambda>a node. on_relay B a (\<lambda>c. Relay_GetGasLimit B (RelayCaller c) \<lparr>co_Pending = True, co_From = node\<rparr>))"
    "(\<lambda>a. on_relay (checked e B) a (\<lambda>c. Relay_GetMaxGasBlockLimit (checked e B) (RelayCaller c) no_opts)) =
     (\<lambda>a. on_relay B a (\<lambda>c. Relay_GetMaxGasBlockLimit B (RelayCaller c) no_opts))"
    "(\<lambda>a node. on_relay (checked e B) a (\<lambda>c. Relay_GetNodeGasLimit (checked e B) (RelayCaller c) no_opts node)) =
     (\<lambda>a node. on_relay B a (\<lambda>c. Relay_GetNodeGasLimit B (RelayCaller c) no_opts node))"
    "(\<lambda>a. on_relay (checked e B) a (\<lambda>c. Relay_GetCurrentGasLimit (checked e B) (RelayCaller c) no_opts)) =
     (\<lambda>a. on_relay B a (\<lambda>c. Relay_GetCurrentGasLimit B (RelayCaller c) no_opts))"
    "(\<lambda>a x. on_account (checked e B) a (\<lambda>c. Account_AccountPermitted (checked e B) (AccountCaller c) no_opts x)) =
     (\<lambda>a x. on_account B a (\<lambda>c. Account_AccountPermitted B (AccountCaller c) no_opts x))"
    by (intro ext on_relay_checked on_account_checked; simp add: relay_bindings_fit account_bindings_fit)+
  show ?thesis by (simp only: bound_lib_def calls ing checked_new checked_JSON) simp
qed

section \<open>What reaches the node\<close>

text \<open>An operation of the client whose every request fits: a library that refuses the others makes no difference.\<close>

definition fits_abi :: "(chain_lib \<Rightarrow> 'a) \<Rightarrow> bool" where
  "fits_abi op = (\<forall>lib e B. op (bound_lib lib (checked e B)) = op (bound_lib lib B))"

lemma bound_errs [simp]: "errs (bound_lib lib B) = errs lib"
  by (simp add: bound_lib_def errors_lib.defs)

lemma fits_abiI:
  assumes "\<And>lib p. op (lib\<lparr>abi_Pack := p\<rparr>) = op lib"
  shows "fits_abi op"
  unfolding fits_abi_def bound_lib_checked by (simp add: assms)

text \<open>
  C9: no request of the client is refused for its form. Each operation on the hub, on the rules of
  accounts and on the registry names a method of the ABI it bound, gives it values of the number and
  the types of its inputs and reads one result of the type of its output, so a library that refuses
  all other requests answers the same.
\<close>

theorem client_requests_fit_the_abi:
  "fits_abi SendMetatransaction_client \<and> fits_abi DecreaseGasUsed_client \<and> fits_abi GetTransactionCount_client \<and>
   fits_abi GetGasLimit \<and> fits_abi GetMaxBlockGasLimit \<and> fits_abi GetBlockByNumber \<and> fits_abi GetNodeGasLimit_client \<and>
   fits_abi GetCurrentGasLimit \<and> fits_abi AccountPermitted_client \<and> fits_abi ResolveAccountRules_client"
  by (intro conjI fits_abiI; simp add: fun_eq_iff errors_lib.defs SendMetatransaction_client_def DecreaseGasUsed_client_def
      GetTransactionCount_client_def GetGasLimit_def GetMaxBlockGasLimit_def GetBlockByNumber_def GetNodeGasLimit_client_def
      GetCurrentGasLimit_def AccountPermitted_client_def ResolveAccountRules_client_def
      cong: option.case_cong sum.case_cong)

text \<open>
  \<open>GenerateTransaction\<close> never makes a transaction. Both methods of the hub take five values and it
  packs four, without the gas limit, which \<open>abi.Pack\<close> refuses; the answer is always an error of the
  type of a failed transaction.
\<close>

theorem GenerateTransaction_always_fails:
  assumes "\<And>a name args bs. be_Pack B a name args = Inr bs \<Longrightarrow> fits a name args"
  shows "\<exists>err. GenerateTransaction (bound_lib lib B) opts to hub d v r s = Inl err \<and> GetType (Some err) = FailedTransaction"
proof -
  have unfit: "\<not> fits RelayABI m [ABytes d, AUint8 v, ABytes32 r, ABytes32 s]" if "m = relayMetaTxMethod \<or> m = deployMetaTxMethod" for m
    using that by (auto simp: fits_def RelayABI_def relayMetaTxMethod_def deployMetaTxMethod_def)
  have "\<exists>e. abi_Pack (bound_lib lib B) m d v r s = Inl e" if "m = relayMetaTxMethod \<or> m = deployMetaTxMethod" for m
  proof (cases "be_Pack B RelayABI m [ABytes d, AUint8 v, ABytes32 r, ABytes32 s]")
    case (Inr bs)
    with unfit [OF that] assms show ?thesis by blast
  qed (simp add: bound_lib_def)
  then obtain e1 e2 where "abi_Pack (bound_lib lib B) relayMetaTxMethod d v r s = Inl e1"
      "abi_Pack (bound_lib lib B) deployMetaTxMethod d v r s = Inl e2" by blast
  then show ?thesis
    by (cases to) (simp_all add: GenerateTransaction_def wrap_error_def type_Wrapf_def GetType_def split: option.split)
qed

section \<open>Witnesses\<close>

text \<open>A node that knows the ABI, answers every call with seven or yes and takes every transaction.\<close>

definition sample_backend :: backend where
  "sample_backend = \<lparr>
     be_JSON = (\<lambda>_. None),
     be_Pack = (\<lambda>a name args. if fits a name args then Inr [1] else Inl (Foreign ''argument count mismatch'' None)),
     be_Call = (\<lambda>c opts out name args. Inr (if out = TBool then ABool True else ABig 7)),
     be_Transact = (\<lambda>c opts name args. Inr \<lparr>sent_Hash = 9, sent_Nonce = 1\<rparr>)\<rparr>"

definition sample_chain_lib :: chain_lib where
  "sample_chain_lib = bound_lib
     \<lparr>pkg_New = (\<lambda>m. Foreign m None),
      pkg_Wrapf = (\<lambda>e m _. map_option (\<lambda>x. Foreign m (Some x)) e),
      pkg_Cause = id, fmt_Sprintf = (\<lambda>m _. m), fmt_Errorf = (\<lambda>m _. Foreign m None),
      Dial = (\<lambda>_. None), key_Address = (\<lambda>_. 5), addr_text = (\<lambda>_. ''0x''), addr_Hex = (\<lambda>_. ''0x''), hash_Hex = (\<lambda>_. ''0x''),
      PendingNonceAt = (\<lambda>_. Inr 1), NonceAt = (\<lambda>_. Inr 1), TransactionReceipt = (\<lambda>_. Inr None),
      HeaderByNumber = (\<lambda>n. Inr \<lparr>header_number = n\<rparr>), eth_ChainID = Inr 1, BalanceAt = (\<lambda>_. Inr 0), CodeAt = (\<lambda>_. Inr [1]),
      NewRelay = (\<lambda>_. None), NewAccount = (\<lambda>_. None),
      hub_RelayMetaTx = (\<lambda>_ _ _ _ _ _ _. Inr \<lparr>sent_Hash = 0, sent_Nonce = 0\<rparr>),
      hub_DeployMetaTx = (\<lambda>_ _ _ _ _ _ _. Inr \<lparr>sent_Hash = 0, sent_Nonce = 0\<rparr>),
      hub_IncreaseGasUsed = (\<lambda>_ _ _. Inr \<lparr>sent_Hash = 0, sent_Nonce = 0\<rparr>),
      hub_GetNonce = (\<lambda>_ _ _. Inr 0), hub_GetGasLimit = (\<lambda>_ _. Inr 0), hub_GetMaxGasBlockLimit = (\<lambda>_. Inr 0),
      hub_GetNodeGasLimit = (\<lambda>_ _. Inr 0), hub_GetCurrentGasLimit = (\<lambda>_. Inr 0), rules_AccountPermitted = (\<lambda>_ _. Inr False),
      ingress_getContractAddress = (\<lambda>_ _. Inr 0), abi_JSON_relay = None, abi_JSON_ingress = None, abi_Pack = (\<lambda>_ _ _ _ _. Inr [])\<rparr>
     sample_backend"

theorem GenerateTransaction_always_fails_witness:
  "\<exists>err. GenerateTransaction (bound_lib sample_chain_lib sample_backend)
      \<lparr>opt_From = 5, opt_Nonce = 1, opt_Value = 0, opt_GasLimit = 100, opt_GasPrice = 0\<rparr> (Some 3) 4 [] 27 [] [] = Inl err \<and>
      GetType (Some err) = FailedTransaction"
  by (rule GenerateTransaction_always_fails) (simp add: sample_backend_def split: if_splits)

end
