(* ===== verification/Node.thy ===== *)
theory Node
  imports Bindings Send
begin

text \<open>
  The send path over the client and the bindings: what \<open>Send\<close> and \<open>Reorder\<close> take as the answers of the
  node (\<open>node_env\<close>, \<open>gas_env\<close>, \<open>broadcast_env\<close>) is here what \<open>blockchain/client.go\<close> makes of them, down to
  the method of the hub contract that is called and the values it gets.
\<close>

section \<open>The answers the service sees\<close>

text \<open>An error of the client as the service reads it: its text and its code.\<close>

definition seen :: "error_value \<Rightarrow> go_error" where
  "seen e = \<lparr>err_text = (case Error_of e of Returns t \<Rightarrow> t | Panics _ \<Rightarrow> []), err_code = ErrorCode_of e\<rparr>"

definition connecting :: "chain_lib \<Rightarrow> string \<Rightarrow> go_error option" where
  "connecting lib nodeURL = map_option seen (fst (Connect_client lib nodeURL \<lparr>client = None\<rparr>))"

definition client_node_env :: "chain_lib \<Rightarrow> string \<Rightarrow> go_error + Address \<Rightarrow> (string \<Rightarrow> Address) \<Rightarrow> node_env" where
  "client_node_env lib nodeURL node hexToAddress =
     \<lparr>NodeAddress = node, Connect = connecting lib nodeURL,
      GetTransactionCount = (\<lambda>hub a me. map_sum seen Some (GetTransactionCount_client lib hub a me)),
      HexToAddress = hexToAddress\<rparr>"

definition client_gas_env :: "chain_lib \<Rightarrow> string \<Rightarrow> Address \<Rightarrow> Address \<Rightarrow> gas_env" where
  "client_gas_env lib nodeURL hub node =
     \<lparr>gas_Connect = connecting lib nodeURL, GetNodeGasLimit = map_sum seen word_of_nat (GetNodeGasLimit_client lib hub node)\<rparr>"

text \<open>The options a transaction goes out with are those made for the gas of the metatx.\<close>

definition client_broadcast_env :: "chain_lib \<Rightarrow> string \<Rightarrow> Address \<Rightarrow> go_error + nat \<Rightarrow> PreparedMetaTx \<Rightarrow> broadcast_env" where
  "client_broadcast_env lib nodeURL hub key p =
     (let options = (\<lambda>gas. case key of Inl e \<Rightarrow> Inl e | Inr k \<Rightarrow> map_sum seen id (ConfigTransaction_client lib k gas True))
      in \<lparr>send_Connect = connecting lib nodeURL,
          HexToECDSA = (case key of Inl e \<Rightarrow> Some e | Inr _ \<Rightarrow> None),
          ConfigTransaction = (\<lambda>gas. case options gas of Inl e \<Rightarrow> Some e | Inr _ \<Rightarrow> None),
          SendMetatransaction = (\<lambda>to d v r s.
            case options (MetaTxGasLimit p) of
              Inl e \<Rightarrow> Inl e
            | Inr opts \<Rightarrow> map_sum seen (\<lambda>t. \<lparr>tx_Hash = sent_Hash t, tx_Nonce = sent_Nonce t\<rparr>)
                (SendMetatransaction_client lib hub opts to d v r s))\<rparr>)"

section \<open>What is asked of the hub\<close>

abbreviation hub_contract :: "Address \<Rightarrow> BoundContract" where
  "hub_contract hub \<equiv> \<lparr>bc_address = hub, bc_abi = RelayABI\<rparr>"

text \<open>The transaction of the node that carries a metatx: from the node's account, with its pending nonce, free of charge.\<close>

definition wrapping_options :: "chain_lib \<Rightarrow> nat \<Rightarrow> uint64 \<Rightarrow> PreparedMetaTx \<Rightarrow> TransactOpts" where
  "wrapping_options lib k n p =
     \<lparr>opt_From = key_Address lib k, opt_Nonce = int64_of_uint64 n, opt_Value = 0,
      opt_GasLimit = MetaTxGasLimit p, opt_GasPrice = 0\<rparr>"

definition hub_takes :: "chain_lib \<Rightarrow> backend \<Rightarrow> Address \<Rightarrow> nat \<Rightarrow> uint64 \<Rightarrow> PreparedMetaTx \<Rightarrow> error_value + sent_tx" where
  "hub_takes lib B hub k n p =
     be_Transact B (hub_contract hub) (wrapping_options lib k n p) (case To p of None \<Rightarrow> ''deployMetaTx'' | Some _ \<Rightarrow> ''relayMetaTx'')
       [ABig (unat (MetaTxGasLimit p)), ABytes (SigningData p), AUint8 (V p), ABytes32 (R p), ABytes32 (S p)]"

lemma bound_fields [simp]:
  "Dial (bound_lib lib B) = Dial lib" "key_Address (bound_lib lib B) = key_Address lib"
  "PendingNonceAt (bound_lib lib B) = PendingNonceAt lib" "addr_text (bound_lib lib B) = addr_text lib"
  "addr_Hex (bound_lib lib B) = addr_Hex lib" "NewRelay (bound_lib lib B) = (\<lambda>a. failed_with (NewRelay_binding B a))"
  by (simp_all add: bound_lib_def)

lemma connecting_cases [simp]:
  "Dial lib url = None \<Longrightarrow> connecting (bound_lib lib B) url = None"
  "Dial lib url = Some e \<Longrightarrow> connecting (bound_lib lib B) url =
     Some (seen (type_Wrapf (errs lib) FailedConnection (Some e) (''Can't connect to node '' @ url) (- 32100) []))"
  by (simp_all add: connecting_def Connect_client_def)

text \<open>A call on a bound contract is the call on the library, once the ABI could be read.\<close>

lemma on_relay_iff:
  "on_relay B hub f = Inr x \<longleftrightarrow>
     be_JSON B RelayABI = None \<and>
     f \<lparr>RelayCaller = hub_contract hub, RelayTransactor = hub_contract hub, RelayFilterer = hub_contract hub\<rparr> = Inr x"
  by (auto simp: on_relay_def NewRelay_binding_def bindRelay_def split: option.split)

lemma with_relay_iff:
  "with_contract e (failed_with (NewRelay_binding B hub)) place r = Inr x \<longleftrightarrow> be_JSON B RelayABI = None \<and> r = Inr x"
  by (auto simp: with_contract_def failed_with_def NewRelay_binding_def bindRelay_def split: option.splits sum.splits)

lemma wrapped_iff [simp]: "wrapped e t msg r = Inr x \<longleftrightarrow> r = Inr x"
  by (cases r) simp_all

lemma map_sum_iff [simp]:
  "map_sum f g r = Inr y \<longleftrightarrow> (\<exists>x. r = Inr x \<and> y = g x)" "map_sum f g r = Inl z \<longleftrightarrow> (\<exists>x. r = Inl x \<and> z = f x)"
  by (cases r; auto)+

lemma SendMetatransaction_iff:
  "SendMetatransaction_client (bound_lib lib B) hub (wrapping_options lib k n p) (To p) (SigningData p) (V p) (R p) (S p) = Inr t \<longleftrightarrow>
     be_JSON B RelayABI = None \<and> hub_takes lib B hub k n p = Inr t"
  by (auto simp: SendMetatransaction_client_def with_relay_iff on_relay_iff hub_takes_def bound_lib_def wrapping_options_def
      Relay_RelayMetaTx_def Relay_DeployMetaTx_def split: option.split)

lemma ConfigTransaction_iff:
  "ConfigTransaction_client (bound_lib lib B) k (MetaTxGasLimit p) True = Inr opts \<longleftrightarrow>
     (\<exists>n. PendingNonceAt lib (key_Address lib k) = Inr n \<and> opts = wrapping_options lib k n p)"
  by (auto simp: ConfigTransaction_client_def wrapping_options_def Let_def split: sum.split)

lemma broadcast_iff:
  "broadcast (client_broadcast_env (bound_lib lib B) url hub key p) p = Inr tx \<longleftrightarrow>
     (\<exists>k n t. Dial lib url = None \<and> key = Inr k \<and> PendingNonceAt lib (key_Address lib k) = Inr n \<and>
        be_JSON B RelayABI = None \<and> hub_takes lib B hub k n p = Inr t \<and> tx = \<lparr>tx_Hash = sent_Hash t, tx_Nonce = sent_Nonce t\<rparr>)"
proof (cases key)
  case (Inr k)
  show ?thesis
  proof (cases "ConfigTransaction_client (bound_lib lib B) k (MetaTxGasLimit p) True")
    case (Inl e)
    then have "\<nexists>n. PendingNonceAt lib (key_Address lib k) = Inr n" using ConfigTransaction_iff [of lib B k p] by auto
    with Inl \<open>key = Inr k\<close> show ?thesis
      by (cases "Dial lib url") (auto simp: broadcast_def client_broadcast_env_def Let_def)
  next
    case (Inr opts)
    then obtain n where n: "PendingNonceAt lib (key_Address lib k) = Inr n" "opts = wrapping_options lib k n p"
      using ConfigTransaction_iff by blast
    with Inr \<open>key = Inr k\<close> SendMetatransaction_iff [of lib B hub k n p] show ?thesis
      by (cases "Dial lib url") (auto simp: broadcast_def client_broadcast_env_def Let_def)
  qed
qed (auto simp: broadcast_def client_broadcast_env_def split: option.split)

section \<open>What is sent\<close>

text \<open>
  C7: what sending a metatx does on the chain. It succeeds exactly when the node is reached, the key
  parses, the pending nonce of the node's account is known and the hub takes one transaction: from the
  node's account with that nonce and the gas of the metatx, calling \<open>deployMetaTx\<close> when the metatx has no
  destination and \<open>relayMetaTx\<close> when it has one, with the gas, the signed data and the signature as
  they were prepared. The answer is the hash of that transaction; otherwise nothing of the service changes.
\<close>

theorem sending_is_one_hub_transaction:
  "((\<exists>fs s'. sendPrepared now order hex (client_broadcast_env (bound_lib lib B) url hub key p) ctx p s = (Inr (h, fs), s')) \<longleftrightarrow>
      (\<exists>k n t. Dial lib url = None \<and> key = Inr k \<and> PendingNonceAt lib (key_Address lib k) = Inr n \<and>
         be_JSON B RelayABI = None \<and> hub_takes lib B hub k n p = Inr t \<and> h = sent_Hash t)) \<and>
   (\<forall>e s'. sendPrepared now order hex (client_broadcast_env (bound_lib lib B) url hub key p) ctx p s = (Inl e, s') \<longrightarrow> s' = s)"
proof -
  have sent: "(\<exists>fs s'. sendPrepared now order hex env ctx p s = (Inr (h, fs), s')) \<longleftrightarrow> (\<exists>tx. broadcast env p = Inr tx \<and> h = tx_Hash tx)"
    and kept: "sendPrepared now order hex env ctx p s = (Inl e, s') \<Longrightarrow> s' = s" for env e s'
    by (auto simp: sendPrepared_def split: sum.splits prod.splits)
  show ?thesis by (simp only: sent broadcast_iff) (auto dest: kept)
qed

text \<open>
  C8: the nonce expected of a user the service keeps no chain for is the one of the hub. It is the
  answer, modulo 2^64, of \<open>getNonce\<close> with the address of the user, called as the node's account; with no
  connection, no readable ABI or no answer there is none, and the failure carries the code of the connection or of a failed call.
\<close>

theorem unknown_user_expects_hub_nonce:
  assumes "cachedNonce now from s = (None, s1)" "Cfg s1 = Some cfg" "RelayHubContractAddress (Application cfg) = Some hub"
  shows "(expectedNonce now (client_node_env (bound_lib lib B) url (Inr node) h) from s = (Inr n, s1) \<longleftrightarrow>
       Dial lib url = None \<and> be_JSON B RelayABI = None \<and>
       (\<exists>v. be_Call B (hub_contract hub) \<lparr>co_Pending = False, co_From = node\<rparr> TUint256 ''getNonce'' [AAddress (h from)] = Inr v \<and>
            n = word_of_nat (as_big v))) \<and>
     (\<forall>e. fst (expectedNonce now (client_node_env (bound_lib lib B) url (Inr node) h) from s) = Inl e \<longrightarrow>
        err_code e = Some (- 32100) \<or> err_code e = Some (- 32603))"
proof -
  let ?count = "GetTransactionCount_client (bound_lib lib B) hub (h from) node"
  have ex: "expectedNonce now (client_node_env (bound_lib lib B) url (Inr node) h) from s =
      (case connecting (bound_lib lib B) url of
         Some e \<Rightarrow> (Inl e, s1)
       | None \<Rightarrow> (map_sum seen word_of_nat ?count, s1))"
    using assms by (cases ?count) (simp_all add: expectedNonce_def hub_nonce_def client_node_env_def split: option.split)
  have count: "?count = Inr m \<longleftrightarrow> be_JSON B RelayABI = None \<and>
      (\<exists>v. be_Call B (hub_contract hub) \<lparr>co_Pending = False, co_From = node\<rparr> TUint256 ''getNonce'' [AAddress (h from)] = Inr v \<and> m = as_big v)" for m
    by (simp add: GetTransactionCount_client_def with_relay_iff bound_lib_def on_relay_iff Relay_GetNonce_def no_opts_def)
  have fails: "err_code (seen e) = Some (- 32603)" if "?count = Inl e" for e
  proof -
    have "call_failure {FailedContract, CallBlockchainFailed} ?count"
      by (simp add: GetTransactionCount_client_def call_failures)
    with that show ?thesis by (simp add: call_failure_def seen_def)
  qed
  show ?thesis
    by (cases "Dial lib url") (auto simp: ex count fails, simp add: seen_def type_Wrapf_def ErrorCode_of_def)
qed

section \<open>Witnesses\<close>

lemma sample_answers [simp]:
  "Dial sample_chain_lib url = None" "PendingNonceAt sample_chain_lib a = Inr 1" "be_JSON sample_backend abi = None"
  "be_Call sample_backend c opts TUint256 name args = Inr (ABig 7)"
  "hub_takes sample_chain_lib sample_backend hub k n p = Inr \<lparr>sent_Hash = 9, sent_Nonce = 1\<rparr>"
  by (simp_all add: sample_chain_lib_def sample_backend_def hub_takes_def bound_lib_def)

theorem sending_is_one_hub_transaction_witness:
  "\<exists>fs s'. sendPrepared 0 [] (\<lambda>_. []) (client_broadcast_env (bound_lib sample_chain_lib sample_backend) ''http://node'' 1 (Inr 6) (sample_tx 3))
     Background (sample_tx 3) (new_service (Some burst_config)) = (Inr (9, fs), s')"
  by (subst sending_is_one_hub_transaction [THEN conjunct1]) simp

theorem unknown_user_expects_hub_nonce_witness:
  "expectedNonce 0 (client_node_env (bound_lib sample_chain_lib sample_backend) ''http://node'' (Inr 5) (\<lambda>_. 3)) ''u'' (new_service (Some burst_config)) =
     (Inr 7, new_service (Some burst_config))"
proof -
  have s: "cachedNonce 0 ''u'' (new_service (Some burst_config)) = (None, new_service (Some burst_config))"
    "Cfg (new_service (Some burst_config)) = Some burst_config" "RelayHubContractAddress (Application burst_config) = Some 1"
    by (simp_all add: cachedNonce_def chainLocked_def new_service_def burst_config_def sample_config_def)
  show ?thesis
    by (rule unknown_user_expects_hub_nonce [OF s, THEN conjunct1, THEN iffD2]) (simp add: as_big_def)
qed

end
