(* ===== verification/Spec2Isabelle.thy ===== *)
theory Spec2Isabelle
  imports Boot Relay_Path Sequencer Signing Node
begin

text \<open>
  \<^bold>\<open>The LNet gas relay signer.\<close> A Go service that takes metatransactions signed by users, checks them,
  wraps each in a transaction of the node's own account and sends it to the relay hub contract, keeping
  the hub nonces of every user in order. Sources are named relative to the repository's root.

  \<^bold>\<open>The parts and how they meet.\<close> \<open>main.go\<close> reads the configuration, starts the log, the event bus and
  the service, and serves. A request enters by JSON-RPC or by the REST endpoints (\<open>controller/\<close>); the
  metatx is decoded and checked (\<open>service/prepare.go\<close>, \<open>validation.go\<close>, \<open>permissioning.go\<close>), passes the
  gate that bounds and reorders the metatx of one user (\<open>reorder.go\<close>, \<open>reorder_turn.go\<close>), takes gas from
  the block and is broadcast (\<open>relaySignerService.go\<close>). What was sent is remembered (\<open>correlation.go\<close>)
  until its receipt is read, by the client's request or by the watcher that every new block wakes
  (\<open>watcher.go\<close>, \<open>settle.go\<close>); reading it gives the place back to the user's nonce chain
  (\<open>tracker.go\<close>). Clients may also ask for the nonce to sign with (\<open>handout.go\<close>, \<open>nonce.go\<close>).

  \<^bold>\<open>State.\<close> \<open>Service_State\<close> has the record \<open>RelaySignerService\<close> with the fields of the Go struct. Objects
  shared by pointer (nonce chains, held metatx, timers, user locks, tickets, channels) are references
  into heaps inside the record, so aliasing is explicit; a channel is the number of times it was closed,
  so that closing it twice is visible. A mutex-protected section of the code is one function on the
  record; code that releases its mutexes in between is a state machine whose steps are those sections.
  Machine integers are words (\<open>uint64\<close>, \<open>uint8\<close>) or, for the \<open>int\<close> and \<open>time.Duration\<close> values, integers
  with \<open>go_int64\<close> where a computation can wrap. A Go error is a value of a sum type; a panic is
  \<open>Panics\<close> of the type \<open>go_result\<close>.

  \<^bold>\<open>Theories and the code they model.\<close>
  \<^item> \<open>Prelude\<close>: lists, maps, Go strings, errors, 64-bit arithmetic and the shared named theorems.
  \<^item> \<open>Config\<close>: \<open>model/Config.go\<close>, \<open>model/RuntimeConfig.go\<close>. Locale \<open>key_reader\<close>, interpreted on the five
    readers; the blocks are in range whatever the file holds and every unusable key is reported.
  \<^item> \<open>Tracker\<close>, \<open>Tickets\<close>: \<open>service/tracker.go\<close>, the tickets of \<open>handout.go\<close>. The invariant
    \<open>service_wf\<close> and that every operation keeps it; locale \<open>nonce_tracker\<close>, interpreted on the code.
  \<^item> \<open>Reorder\<close>, \<open>Rejections\<close>: \<open>service/reorder.go\<close>, the rejections of \<open>prepare.go\<close>: the cap, which
    metatx is evicted, convergence of the cap.
  \<^item> \<open>Turn\<close>: \<open>service/reorder_turn.go\<close>, the wait for the turn as a machine that never gets stuck.
  \<^item> \<open>Send\<close>: \<open>sendReordered\<close>, \<open>reserveGasAndSend\<close>, \<open>sendPrepared\<close>; any number of requests interleaved with
    the rest of the service: mutual exclusion, the nonce at the broadcast, no deadlock.
  \<^item> \<open>Sequencer\<close>: the specification of the send path, a log of consecutive nonces per chain, and that
    the system of \<open>Send\<close> refines it (locale \<open>refines\<close>).
  \<^item> \<open>Handout\<close>: \<open>service/handout.go\<close>, \<open>service/nonce.go\<close>: one open ticket per user, nobody waits forever.
  \<^item> \<open>Correlation\<close>, \<open>Hub\<close>, \<open>Revert\<close>, \<open>Watcher\<close>: \<open>correlation.go\<close>, \<open>settle.go\<close>, the three readers of a
    receipt (locale \<open>hub_reader\<close>), the revert reason, \<open>watcher.go\<close>, the wait of \<open>relay.go\<close>.
  \<^item> \<open>Permissioning\<close>, \<open>Hex\<close>, \<open>Metatx\<close>, \<open>Prepare\<close>: \<open>permissioning.go\<close> (locale \<open>expiring_cache\<close>),
    \<open>metatx.go\<close>, \<open>validation.go\<close>, \<open>transaction.go\<close> (decoding), \<open>prepare.go\<close>.
  \<^item> \<open>Events\<close>, \<open>Audit_Log\<close>, \<open>Monitor\<close>: \<open>events/events.go\<close> (locale \<open>bounded_log\<close>), \<open>audit/\<close>,
    \<open>dashboard/dashboard.go\<close>.
  \<^item> \<open>Errors\<close>, \<open>Json_Text\<close>, \<open>Rpc\<close>, \<open>Client\<close>: \<open>errors/errors.go\<close>; the scanner and the array decoder of
    \<open>encoding/json\<close>, which \<open>rpc/json.go\<close> reads batches with; \<open>rpc/json.go\<close>, \<open>rpc/errors.go\<close>;
    \<open>blockchain/client.go\<close>.
  \<^item> \<open>Bindings\<close>, \<open>Node\<close>: \<open>blockchain/contracts/\<close> under the client, every request of which fits the ABI it bound;
    the send path over both, down to the transaction the hub takes and the call that gives a nonce.
  \<^item> \<open>Sha3\<close>, \<open>Signing\<close>: \<open>sha3/sha3.go\<close>, the packing of Solidity values, and \<open>service/transaction.go\<close>.
  \<^item> \<open>Handlers\<close>, \<open>Relay_Path\<close>, \<open>Startup\<close>, \<open>Router\<close>, \<open>Boot\<close>: the JSON-RPC handlers and \<open>RelayAndWait\<close>,
    alone and among the other requests; \<open>Init\<close>,
    \<open>info.go\<close>, \<open>httpCall.go\<close>, \<open>ProcessNewBlocks\<close>; \<open>controller/\<close>; \<open>main.go\<close>, \<open>version.go\<close>,
    \<open>audit/log.go\<close>.

  \<^bold>\<open>What is an argument.\<close> Everything outside the repository: the Ethereum node and go-ethereum (what each call
  answers), Keccak, ECDSA, RLP, ABI coding, encoding to JSON and decoding one JSON value, \<open>viper\<close>, HTTP, the clock
  and the iteration order of Go maps. Where a theorem relies on such code it says so as a hypothesis and
  its witness instantiates it.

  \<^bold>\<open>Bounds.\<close> No model uses fuel. Loops over data are structural recursions; loops that wait are machines
  with explicit inputs (\<open>Turn\<close>, \<open>Send\<close>, \<open>Handout\<close>, \<open>Startup\<close>, \<open>Monitor\<close>), or, for the polling of a
  receipt, a recursion over the answers of the node in which \<open>None\<close> is a wait that is not over. The
  loop over a batch is a \<open>partial_function\<close> whose \<open>None\<close> is a loop that does not end, and it is proved
  to end on every text the code gives it.

  \<^bold>\<open>Choices.\<close> \<open>VerifyGasLimit\<close> takes the node's key as parsed, as \<open>Init\<close> leaves it, and the limit the hub
  answers as not nil. A service with no configuration reads as a hub that was not resolved, where the
  code would dereference nil; \<open>Init\<close> sets it before the first request. The redirect of \<open>ServeMux\<close> for an
  unclean path is the status 301 alone. The error paths of one HTTP exchange (building the request,
  sending it, reading the body) are one failure of \<open>http_Do\<close>. The log lines of a component are values
  next to its results (\<open>Prepare\<close>, \<open>Permissioning\<close>, \<open>Turn\<close>, the refusals of \<open>Hub\<close>); plain log lines of the
  controller are left out. \<open>RelayAndWait\<close> and the JSON-RPC door call
  \<open>ReserveGasAndSend\<close> with its gate: with reordering off it is one section, with it on the request is a
  thread of \<open>Send\<close> among the moves of an argument, and a call that these moves do not bring to its end
  has no result yet; while it waits for the receipt it only asks the node. \<open>noteSent\<close> and
  \<open>rememberMetaTx\<close>, which lock on their own, are one step each. The answer of \<open>HandOutNonce\<close> is an argument
  of the count handler; its own behaviour is that of \<open>Handout\<close>. The scanner of \<open>Json_Text\<close> stops behind
  a closing bracket when it sees the next character, which splits a text as the library does.

  \<^bold>\<open>Not modelled.\<close> Of the generated \<open>blockchain/contracts/\<close>, the sessions, the raw access and the filters,
  iterators and parsers of events, which nothing in the service calls; \<open>docs/\<close>, with samples of clients in
  several languages. \<open>model/CallRequest.go\<close> is a struct nothing else of the
  service uses. Random identifiers, the format of time stamps and the bytes of JSON are those of the
  standard library.
\<close>

section \<open>From the start of the process to its answers\<close>

text \<open>
  C17: the count of transactions cannot crash a process that serves. The handler dereferences the key,
  its public half and the address of the hub; in a process that came up, and in every later state with
  the same configuration, all three are there, so the handler answers whatever the node does.
\<close>

theorem serving_process_counts:
  assumes "go_main env args = Serving p"
    and same_library: "\<And>key. lib_HexToECDSA lib key = ie_HexToECDSA (bt_init env) key"
      "\<And>k. ie_is_ECDSA (bt_init env) k \<Longrightarrow> lib_Public lib k \<noteq> None"
    and "Cfg s = Cfg (controller_Service (proc_controller p))"
  shows "\<exists>m. GetTransactionCount_rpc lib al nenv i from pend answer s = Returns m \<and> msg_ID m = i"
proof -
  from assms(1) obtain c k key hub config where
    c: "Cfg (controller_Service (proc_controller p)) = Some c"
      "c = config\<lparr>Application := (Application config)\<lparr>Key := key, RelayHubContractAddress := Some hub\<rparr>\<rparr>"
    and k: "ie_HexToECDSA (bt_init env) key = Inr k" "ie_is_ECDSA (bt_init env) k"
    by (rule serving_service)
  then obtain pk where "lib_Public lib k = Some pk" using same_library(2) by blast
  with assms(4) c k same_library(1) show ?thesis
    by (auto simp: GetTransactionCount_rpc_def chain_count_def split: option.split sum.split)
qed

theorem serving_process_counts_witness:
  "\<exists>p. go_main sample_boot_env [] = Serving p \<and> (\<forall>al. \<exists>m.
     GetTransactionCount_rpc sample_meta_lib al sample_env null ''u'' False (Inr 0) (controller_Service (proc_controller p)) = Returns m \<and>
     msg_ID m = null)"
proof -
  obtain p where p: "go_main sample_boot_env [] = Serving p" using sample_boot_serves by blast
  have "lib_HexToECDSA sample_meta_lib key = ie_HexToECDSA (bt_init sample_boot_env) key"
    "lib_Public sample_meta_lib k \<noteq> None" for key k
    by (simp_all add: sample_meta_lib_def sample_boot_env_def eth_lib.defs)
  with serving_process_counts [OF p, of sample_meta_lib] p show ?thesis by blast
qed

end
